(* ===== verification/Prelude.thy ===== *)
theory Prelude
  imports Main "HOL-Library.Word"
begin

text \<open>
  Shared types and lemmas of the development.  Bytes are 8-bit words; a Rust subslice, array or
  vector of bytes is a list of bytes.  \<open>subslice off n xs\<close> is \<open>&xs[off..off + n]\<close> and
  \<open>overwrite off new xs\<close> is the buffer after \<open>xs[off..off + new.len()].copy_from_slice(new)\<close>;
  both are used only where the surrounding code has checked the range.

  A Rust call either returns, panics (the shipped profile aborts the process) or, for the
  receive loops, may never come back: \<open>outcome\<close> has one constructor for each.
  Arithmetic follows the release profile, in which the fixed-width operations wrap around.
  \<open>usize\<close> values that are lengths or offsets of buffers are natural numbers.
\<close>

type_synonym byte = "8 word"
type_synonym bytes = "byte list"
type_synonym u16 = "16 word"
type_synonym u32 = "32 word"
type_synonym u64 = "64 word"

named_theorems wire_simps "reading fields back from buffers they were written to"
named_theorems model_defs "definitions of the model that proofs unfold together"

section \<open>Calls that return, panic or do not come back\<close>

datatype 'a outcome = Diverges | Panics | Returns 'a

primrec bind_outcome :: "'a outcome \<Rightarrow> ('a \<Rightarrow> 'b outcome) \<Rightarrow> 'b outcome" where
  "bind_outcome Diverges f = Diverges"
| "bind_outcome Panics f = Panics"
| "bind_outcome (Returns a) f = f a"

lemma bind_outcome_Returns:
  "bind_outcome m f = Returns r \<longleftrightarrow> (\<exists>a. m = Returns a \<and> f a = Returns r)"
  by (cases m) auto

lemma bind_outcome_assoc:
  "bind_outcome (bind_outcome m f) g = bind_outcome m (\<lambda>a. bind_outcome (f a) g)"
  by (cases m) auto

section \<open>Slices and writes into slices\<close>

definition subslice :: "nat \<Rightarrow> nat \<Rightarrow> 'a list \<Rightarrow> 'a list" where
  "subslice off n xs = take n (drop off xs)"

definition overwrite :: "nat \<Rightarrow> 'a list \<Rightarrow> 'a list \<Rightarrow> 'a list" where
  "overwrite off new xs = take off xs @ new @ drop (off + length new) xs"

lemma length_subslice [simp]: "length (subslice off n xs) = min n (length xs - off)"
  by (simp add: subslice_def)

lemma length_overwrite [wire_simps]:
  "off + length new \<le> length xs \<Longrightarrow> length (overwrite off new xs) = length xs"
  by (simp add: overwrite_def)

lemma nth_subslice: "off + n \<le> length xs \<Longrightarrow> i < n \<Longrightarrow> subslice off n xs ! i = xs ! (off + i)"
  by (simp add: subslice_def)

lemma nth_overwrite:
  "off + length new \<le> length xs \<Longrightarrow> i < length xs \<Longrightarrow>
   overwrite off new xs ! i = (if off \<le> i \<and> i < off + length new then new ! (i - off) else xs ! i)"
  by (auto simp: overwrite_def nth_append min_def)

lemma subslice_overwrite_same [wire_simps]:
  "off + length new \<le> length xs \<Longrightarrow> n = length new \<Longrightarrow> subslice off n (overwrite off new xs) = new"
  by (simp add: subslice_def overwrite_def)

lemma subslice_overwrite_other [wire_simps]:
  assumes "off + length new \<le> length xs" and "p + n \<le> off \<or> off + length new \<le> p"
    and "p + n \<le> length xs"
  shows "subslice p n (overwrite off new xs) = subslice p n xs"
  using assms by (intro nth_equalityI) (auto simp: length_overwrite nth_subslice nth_overwrite)

lemma nth_overwrite_other [wire_simps]:
  "off + length new \<le> length xs \<Longrightarrow> i < length xs \<Longrightarrow> i < off \<or> off + length new \<le> i \<Longrightarrow>
   overwrite off new xs ! i = xs ! i"
  by (auto simp: nth_overwrite)

lemma subslice_update_other [wire_simps]:
  assumes "i < p \<or> p + n \<le> i"
  shows "subslice p n (xs[i := x]) = subslice p n xs"
  using assms by (intro nth_equalityI) (auto simp: subslice_def nth_list_update)

lemma subslice_update_inside:
  assumes "p \<le> i" and "i < p + n"
  shows "subslice p n (xs[i := x]) = (subslice p n xs)[i - p := x]"
  using assms by (simp add: subslice_def drop_update_swap take_update_swap)

lemma subslice_append_left: "off + n \<le> length xs \<Longrightarrow> subslice off n (xs @ ys) = subslice off n xs"
  by (simp add: subslice_def)

lemma subslice_whole: "length xs = n \<Longrightarrow> subslice 0 n xs = xs"
  by (simp add: subslice_def)

lemma subslice_append_right:
  "subslice (length xs + off) n (xs @ ys) = subslice off n ys"
  by (simp add: subslice_def)

lemma take_subslice_drop:
  "off + n \<le> length xs \<Longrightarrow> take off xs @ subslice off n xs @ drop (off + n) xs = xs"
  by (metis append_take_drop_id drop_drop subslice_def add.commute)

lemma overwrite_subslice_id: "off + n \<le> length xs \<Longrightarrow> overwrite off (subslice off n xs) xs = xs"
  by (simp add: overwrite_def min_absorb1 take_subslice_drop)

lemma subslice_subslice:
  "p + n \<le> m \<Longrightarrow> subslice p n (subslice off m xs) = subslice (off + p) n xs"
  by (simp add: subslice_def drop_take min_absorb1 min_absorb2 add.commute)

lemma subslice_add: "subslice off (m + n) xs = subslice off m xs @ subslice (off + m) n xs"
  by (simp add: subslice_def take_add add.commute)

lemma split_at:
  assumes "length xs = n + k"
  obtains a r where "xs = a @ r" "length a = n" "length r = k"
  using that [of "take n xs" "drop n xs"] assms by simp

lemma overwrite_skip:
  "length xs \<le> off \<Longrightarrow> overwrite off new (xs @ ys) = xs @ overwrite (off - length xs) new ys"
  by (simp add: overwrite_def)

lemma overwrite_Cons:
  "overwrite (numeral k) new (x # xs) = x # overwrite (pred_numeral k) new xs"
  "overwrite (Suc n) new (x # xs) = x # overwrite n new xs"
  by (simp_all add: overwrite_def numeral_eq_Suc)

lemma overwrite_0_Cons:
  "overwrite 0 [] xs = xs" "overwrite 0 (a # as) (x # xs) = a # overwrite 0 as xs"
  by (simp_all add: overwrite_def)

lemma overwrite_here:
  "length new = length xs \<Longrightarrow> overwrite 0 new (xs @ ys) = new @ ys"
  "length new = length xs \<Longrightarrow> overwrite 0 new xs = new"
  by (simp_all add: overwrite_def)

lemma byte_bit_beyond [simp]: "8 \<le> n \<Longrightarrow> \<not> bit (b :: byte) n"
  using bit_imp_le_length [of b n] by auto

lemma length2_conv: "length xs = 2 \<longleftrightarrow> (\<exists>a b. xs = [a, b])"
  by (auto simp: length_Suc_conv numeral_eq_Suc)

lemma length4_conv: "length xs = 4 \<longleftrightarrow> (\<exists>a b c d. xs = [a, b, c, d])"
  by (auto simp: length_Suc_conv numeral_eq_Suc)

section \<open>Tests\<close>

text \<open>The names of the tests of a list that do not hold.\<close>

definition failing :: "(string \<times> bool) list \<Rightarrow> string list" where
  "failing tests = map fst (filter (\<lambda>t. \<not> snd t) tests)"

end
