(* ===== verification/Wire.thy ===== *)
theory Wire
  imports Prelude
begin

text \<open>
  Fixed-width integer fields on the wire: Rust's \<open>to_be_bytes\<close>, \<open>from_be_bytes\<close>,
  \<open>to_le_bytes\<close> and \<open>from_le_bytes\<close> at the widths the program uses, and the one
  contract every such pair satisfies (locale \<open>fixed_codec\<close>): encoding has the width,
  decoding inverts it, and reading back a field that was written into a buffer yields the
  value whatever else the buffer holds.
\<close>

definition to_be16 :: "u16 \<Rightarrow> bytes" where
  "to_be16 w = [ucast (drop_bit 8 w), ucast w]"

definition from_be16 :: "bytes \<Rightarrow> u16" where
  "from_be16 bs = or (push_bit 8 (ucast (bs ! 0))) (ucast (bs ! 1))"

definition to_be32 :: "u32 \<Rightarrow> bytes" where
  "to_be32 w = [ucast (drop_bit 24 w), ucast (drop_bit 16 w), ucast (drop_bit 8 w), ucast w]"

definition from_be32 :: "bytes \<Rightarrow> u32" where
  "from_be32 bs = or (push_bit 24 (ucast (bs ! 0))) (or (push_bit 16 (ucast (bs ! 1)))
     (or (push_bit 8 (ucast (bs ! 2))) (ucast (bs ! 3))))"

definition to_le16 :: "u16 \<Rightarrow> bytes" where
  "to_le16 w = rev (to_be16 w)"

definition from_le16 :: "bytes \<Rightarrow> u16" where
  "from_le16 bs = from_be16 (rev bs)"

definition to_le32 :: "u32 \<Rightarrow> bytes" where
  "to_le32 w = rev (to_be32 w)"

definition from_le32 :: "bytes \<Rightarrow> u32" where
  "from_le32 bs = from_be32 (rev bs)"

lemma length_to_be16 [simp]: "length (to_be16 w) = 2"
  by (simp add: to_be16_def)

lemma length_to_be32 [simp]: "length (to_be32 w) = 4"
  by (simp add: to_be32_def)

lemma length_to_le16 [simp]: "length (to_le16 w) = 2"
  by (simp add: to_le16_def)

lemma length_to_le32 [simp]: "length (to_le32 w) = 4"
  by (simp add: to_le32_def)

lemma from_to_be16: "from_be16 (to_be16 w) = w"
  by (rule bit_word_eqI) (auto simp: from_be16_def to_be16_def bit_simps)

lemma from_to_be32: "from_be32 (to_be32 w) = w"
proof (rule bit_word_eqI)
  fix n
  assume n: "n < LENGTH(32)"
  then consider "n < 8" | "8 \<le> n" "n - 8 < 8" | "16 \<le> n" "n - 16 < 8" | "24 \<le> n" "n - 24 < 8"
    by fastforce
  then show "bit (from_be32 (to_be32 w)) n \<longleftrightarrow> bit w n"
    by cases (auto simp: from_be32_def to_be32_def bit_simps)
qed

lemma top_byte_eq: "(ucast (drop_bit 24 (w :: u32)) :: byte) = b \<longleftrightarrow> drop_bit 24 w = ucast b"
proof -
  have w: "drop_bit 24 w = ucast (ucast (drop_bit 24 w) :: byte)"
    by (rule bit_word_eqI) (auto simp: bit_simps dest: bit_imp_le_length)
  have "(ucast (ucast b :: u32) :: byte) = b"
    by (rule bit_word_eqI) (auto simp: bit_simps)
  with w show ?thesis by metis
qed

lemma to_from_be16: "length bs = 2 \<Longrightarrow> to_be16 (from_be16 bs) = bs"
  by (auto simp: length2_conv from_be16_def to_be16_def bit_simps intro!: bit_word_eqI)

lemma to_from_be32: "length bs = 4 \<Longrightarrow> to_be32 (from_be32 bs) = bs"
  by (auto simp: length4_conv from_be32_def to_be32_def bit_simps intro!: bit_word_eqI)

section \<open>The contract of a fixed-width field\<close>

locale fixed_codec =
  fixes enc :: "'a \<Rightarrow> bytes"
    and dec :: "bytes \<Rightarrow> 'a"
    and width :: nat
  assumes length_enc: "length (enc x) = width"
    and dec_enc: "dec (enc x) = x"
    and enc_dec: "length bs = width \<Longrightarrow> enc (dec bs) = bs"
begin

lemma enc_inject: "enc x = enc y \<longleftrightarrow> x = y"
  using dec_enc by metis

lemma read_written:
  "off + width \<le> length buf \<Longrightarrow> dec (subslice off width (overwrite off (enc x) buf)) = x"
  by (simp add: subslice_overwrite_same length_enc dec_enc)

lemma read_other:
  "off + width \<le> length buf \<Longrightarrow> p + n \<le> off \<or> off + width \<le> p \<Longrightarrow> p + n \<le> length buf \<Longrightarrow>
   subslice p n (overwrite off (enc x) buf) = subslice p n buf"
  by (simp add: subslice_overwrite_other length_enc)

lemma write_read_back:
  "off + width \<le> length buf \<Longrightarrow> overwrite off (enc (dec (subslice off width buf))) buf = buf"
  by (simp add: enc_dec overwrite_subslice_id)

lemma length_write: "off + width \<le> length buf \<Longrightarrow> length (overwrite off (enc x) buf) = length buf"
  by (simp add: length_overwrite length_enc)

end

interpretation be16: fixed_codec to_be16 from_be16 2
  by unfold_locales (simp_all add: from_to_be16 to_from_be16)

interpretation be32: fixed_codec to_be32 from_be32 4
  by unfold_locales (simp_all add: from_to_be32 to_from_be32)

interpretation le16: fixed_codec to_le16 from_le16 2
  by unfold_locales (simp_all add: to_le16_def from_le16_def from_to_be16 to_from_be16)

interpretation le32: fixed_codec to_le32 from_le32 4
  by unfold_locales (simp_all add: to_le32_def from_le32_def from_to_be32 to_from_be32)

lemmas codec_read_written = be16.read_written be32.read_written le16.read_written le32.read_written
lemmas codec_read_other = be16.read_other be32.read_other le16.read_other le32.read_other
lemmas codec_length_write = be16.length_write be32.length_write le16.length_write le32.length_write

lemmas codec_dec_enc = be16.dec_enc be32.dec_enc le16.dec_enc le32.dec_enc

declare codec_dec_enc [wire_simps] codec_read_written [wire_simps] codec_read_other [wire_simps] codec_length_write [wire_simps]

definition be16_at :: "bytes \<Rightarrow> nat \<Rightarrow> u16" where
  "be16_at buf off = from_be16 (subslice off 2 buf)"

definition be32_at :: "bytes \<Rightarrow> nat \<Rightarrow> u32" where
  "be32_at buf off = from_be32 (subslice off 4 buf)"

definition le32_at :: "bytes \<Rightarrow> nat \<Rightarrow> u32" where
  "le32_at buf off = from_le32 (subslice off 4 buf)"

end
