(* ===== verification/Checksum.thy ===== *)
theory Checksum
  imports Wire
begin

text \<open>
  The frame checksum (\<open>rbctl_proto/src/checksum.rs\<close>).  The CRC itself is the \<open>crc\<close>
  crate's: its digest type and its \<open>digest\<close>, \<open>update\<close> and \<open>finalize\<close> are the
  parameter \<open>E\<close> of the definitions.  What the crate documents is stated in two locales,
  the streaming law (\<open>crc_streaming\<close>) and the injectivity every CRC register has
  (\<open>crc_register\<close>); both are interpreted on CRC-16/ARC, the profile the code selects,
  as \<open>examples/checksum.py\<close> writes it out, bit by bit and with the nibble table.
  A panic is \<open>None\<close>.
\<close>

section \<open>The frame layout constants the checksum uses\<close>

definition OFF_MAGIC :: nat where "OFF_MAGIC = 0x0E"
definition OFF_SUBTYPE :: nat where "OFF_SUBTYPE = 0x0F"
definition OFF_SEQ :: nat where "OFF_SEQ = 0x10"
definition OFF_PAYLOAD_LEN :: nat where "OFF_PAYLOAD_LEN = 0x14"
definition OFF_CHECKSUM :: nat where "OFF_CHECKSUM = 0x16"
definition OFF_PAYLOAD :: nat where "OFF_PAYLOAD = 0x18"
definition COVER_HEADER_BYTES :: nat where "COVER_HEADER_BYTES = 10"

lemmas offset_defs = OFF_MAGIC_def OFF_SUBTYPE_def OFF_SEQ_def OFF_PAYLOAD_LEN_def
  OFF_CHECKSUM_def OFF_PAYLOAD_def COVER_HEADER_BYTES_def

section \<open>Computing, setting and verifying the checksum\<close>

record 'd crc_engine =
  crc_digest :: "'d"
  crc_update :: "'d \<Rightarrow> bytes \<Rightarrow> 'd"
  crc_finalize :: "'d \<Rightarrow> u16"

definition compute_checksum :: "'d crc_engine \<Rightarrow> bytes \<Rightarrow> u16" where
  "compute_checksum E data = crc_finalize E (crc_update E (crc_digest E) data)"

text \<open>\<open>frame[0x14]\<close> and \<open>frame[0x15]\<close> panic on a shorter slice.\<close>

definition read_payload_len :: "bytes \<Rightarrow> nat option" where
  "read_payload_len frame =
     (if length frame \<le> OFF_PAYLOAD_LEN + 1 then None
      else Some (unat (be16_at frame OFF_PAYLOAD_LEN)))"

definition crc_covered_region :: "'d crc_engine \<Rightarrow> bytes \<Rightarrow> u16 option" where
  "crc_covered_region E frame =
     (case read_payload_len frame of
        None \<Rightarrow> None
      | Some payload_len \<Rightarrow>
          let cover_end = OFF_MAGIC + payload_len + COVER_HEADER_BYTES in
          if length frame < cover_end then None
          else
            let d0 = crc_digest E;
                d1 = crc_update E d0 (subslice OFF_MAGIC (OFF_CHECKSUM - OFF_MAGIC) frame);
                d2 = crc_update E d1 [0, 0];
                d3 = crc_update E d2
                       (subslice (OFF_CHECKSUM + 2) (cover_end - (OFF_CHECKSUM + 2)) frame)
            in Some (crc_finalize E d3))"

definition set_checksum :: "'d crc_engine \<Rightarrow> bytes \<Rightarrow> bytes option" where
  "set_checksum E frame =
     (case crc_covered_region E frame of
        None \<Rightarrow> None
      | Some crc \<Rightarrow> Some (overwrite OFF_CHECKSUM (to_be16 crc) frame))"

definition verify_checksum :: "'d crc_engine \<Rightarrow> bytes \<Rightarrow> bool option" where
  "verify_checksum E frame =
     (if length frame < OFF_MAGIC + COVER_HEADER_BYTES then Some False
      else
        let n = length frame - (OFF_MAGIC + COVER_HEADER_BYTES) in
        case read_payload_len frame of
          None \<Rightarrow> None
        | Some payload_len \<Rightarrow>
            if payload_len \<le> n then
              let cover_end = OFF_MAGIC + payload_len + COVER_HEADER_BYTES in
              if length frame < cover_end then Some False
              else
                (case crc_covered_region E frame of
                   None \<Rightarrow> None
                 | Some crc \<Rightarrow> Some (be16_at frame OFF_CHECKSUM = crc))
            else Some False)"

text \<open>The abstract reading: the CRC runs over the covered bytes with the field zeroed.\<close>

definition payload_len_of :: "bytes \<Rightarrow> nat" where
  "payload_len_of frame = unat (be16_at frame 20)"

definition covered_bytes :: "bytes \<Rightarrow> bytes" where
  "covered_bytes frame = subslice 14 8 frame @ [0, 0] @ subslice 24 (payload_len_of frame) frame"

definition digest_in_parts :: "'d crc_engine \<Rightarrow> bytes \<Rightarrow> u16" where
  "digest_in_parts E frame =
     crc_finalize E (crc_update E (crc_update E (crc_update E (crc_digest E)
       (subslice 14 8 frame)) [0, 0]) (subslice 24 (payload_len_of frame) frame))"

lemma crc_covered_region_eq:
  "crc_covered_region E frame =
     (if 24 + payload_len_of frame \<le> length frame \<and> 22 \<le> length frame
      then Some (digest_in_parts E frame) else None)"
  by (simp add: crc_covered_region_def read_payload_len_def offset_defs payload_len_of_def
      digest_in_parts_def Let_def)

lemma verify_checksum_eq:
  "verify_checksum E frame =
     Some (24 + payload_len_of frame \<le> length frame \<and>
           be16_at frame 22 = digest_in_parts E frame)"
  by (auto simp: verify_checksum_def crc_covered_region_eq read_payload_len_def offset_defs
      payload_len_of_def Let_def)

lemma set_checksum_eq:
  "set_checksum E frame =
     (if 24 + payload_len_of frame \<le> length frame \<and> 22 \<le> length frame
      then Some (overwrite 22 (to_be16 (digest_in_parts E frame)) frame) else None)"
  by (simp add: set_checksum_def crc_covered_region_eq offset_defs)

lemma payload_len_of_checksum_field:
  "24 \<le> length frame \<Longrightarrow> payload_len_of (overwrite 22 (to_be16 c) frame) = payload_len_of frame"
  by (simp add: payload_len_of_def be16_at_def wire_simps)

lemma digest_in_parts_checksum_field:
  assumes "24 + payload_len_of frame \<le> length frame"
  shows "digest_in_parts E (overwrite 22 (to_be16 c) frame) = digest_in_parts E frame"
  using assms by (simp add: digest_in_parts_def payload_len_of_checksum_field wire_simps)

lemma verify_after_set:
  "set_checksum E frame = Some frame' \<Longrightarrow> verify_checksum E frame' = Some True"
  by (auto simp: set_checksum_eq verify_checksum_eq digest_in_parts_checksum_field
      payload_len_of_checksum_field be16_at_def wire_simps split: if_splits)

lemma set_checksum_frame:
  assumes "set_checksum E frame = Some frame'"
  shows "length frame' = length frame"
    and "off + n \<le> 22 \<or> 24 \<le> off \<Longrightarrow> off + n \<le> length frame \<Longrightarrow>
         subslice off n frame' = subslice off n frame"
  using assms by (auto simp: set_checksum_eq wire_simps split: if_splits)

section \<open>What the code relies on of the CRC\<close>

locale crc_streaming =
  fixes E :: "'d crc_engine"
  assumes update_append: "crc_update E d (xs @ ys) = crc_update E (crc_update E d xs) ys"
begin

lemma digest_in_parts_covered: "digest_in_parts E frame = compute_checksum E (covered_bytes frame)"
  by (simp add: digest_in_parts_def compute_checksum_def covered_bytes_def
      flip: update_append)

lemma crc_covered_region_covered:
  "crc_covered_region E frame =
     (if 24 + payload_len_of frame \<le> length frame \<and> 22 \<le> length frame
      then Some (compute_checksum E (covered_bytes frame)) else None)"
  by (simp add: crc_covered_region_eq digest_in_parts_covered)

end

locale crc_register = crc_streaming +
  assumes update_nil: "crc_update E d [] = d"
    and register_inject: "crc_update E d [b] = crc_update E d' [b] \<Longrightarrow> d = d'"
    and byte_inject: "crc_update E d [b] = crc_update E d [b'] \<Longrightarrow> b = b'"
    and finalize_inject: "crc_finalize E d = crc_finalize E d' \<Longrightarrow> d = d'"
begin

lemma update_inject: "crc_update E d xs = crc_update E d' xs \<Longrightarrow> d = d'"
proof (induction xs arbitrary: d d')
  case Nil
  then show ?case by (simp add: update_nil)
next
  case (Cons x xs)
  have "crc_update E (crc_update E d [x]) xs = crc_update E (crc_update E d' [x]) xs"
    using Cons.prems update_append [of d "[x]" xs] update_append [of d' "[x]" xs] by simp
  then show ?case using Cons.IH register_inject by blast
qed

text \<open>A change confined to one byte of the message changes its CRC.\<close>

lemma one_byte_detected:
  assumes "compute_checksum E (xs @ b # ys) = compute_checksum E (xs @ b' # ys)"
  shows "b = b'"
proof -
  have "crc_update E (crc_update E (crc_update E (crc_digest E) xs) [b]) ys =
        crc_update E (crc_update E (crc_update E (crc_digest E) xs) [b']) ys"
    using assms finalize_inject update_append [of _ "[b]" ys] update_append [of _ "[b']" ys]
    by (simp add: compute_checksum_def update_append)
  then show ?thesis using update_inject byte_inject by blast
qed

end

section \<open>CRC-16/ARC\<close>

text \<open>
  The reference of \<open>examples/checksum.py\<close>: \<open>crc16_arc\<close> works bit by bit with the
  reflected polynomial, \<open>proto_compute_checksum\<close> a nibble at a time with the table taken
  from the original firmware.
\<close>

definition arc_bit :: "u16 \<Rightarrow> u16" where
  "arc_bit crc = (if bit crc 0 then xor (drop_bit 1 crc) 0xA001 else drop_bit 1 crc)"

definition arc_byte :: "u16 \<Rightarrow> byte \<Rightarrow> u16" where
  "arc_byte crc b = (arc_bit ^^ 8) (xor crc (ucast b))"

definition crc16_arc :: "u16 \<Rightarrow> bytes \<Rightarrow> u16" where
  "crc16_arc init data = foldl arc_byte init data"

definition CRC16_ARC_NIBBLE_TABLE :: "u16 list" where
  "CRC16_ARC_NIBBLE_TABLE =
     [0x0000, 0xCC01, 0xD801, 0x1400,
      0xF001, 0x3C00, 0x2800, 0xE401,
      0xA001, 0x6C00, 0x7800, 0xB401,
      0x5000, 0x9C01, 0x8801, 0x4400]"

definition nibble_byte :: "u16 \<Rightarrow> byte \<Rightarrow> u16" where
  "nibble_byte acc b =
     (let lo = and b 0x0F;
          hi = drop_bit 4 b;
          t = xor (xor (drop_bit 4 acc) (CRC16_ARC_NIBBLE_TABLE ! unat (and acc 0x0F)))
                (CRC16_ARC_NIBBLE_TABLE ! unat lo)
      in xor (xor (drop_bit 4 t) (CRC16_ARC_NIBBLE_TABLE ! unat (and t 0x0F)))
           (CRC16_ARC_NIBBLE_TABLE ! unat hi))"

definition proto_compute_checksum :: "u16 \<Rightarrow> bytes \<Rightarrow> u16" where
  "proto_compute_checksum acc buf = foldl nibble_byte acc buf"

definition arc_engine :: "u16 crc_engine" where
  "arc_engine = \<lparr>crc_digest = 0, crc_update = crc16_arc, crc_finalize = id\<rparr>"

lemma xor_word_cancel:
  fixes a b c :: "'a::len word"
  shows "xor a b = 0 \<longleftrightarrow> a = b" and "xor a c = xor b c \<longleftrightarrow> a = b" and "xor c a = xor c b \<longleftrightarrow> a = b"
  by (auto simp: bit_eq_iff bit_simps)

lemma arc_bit_xor: "arc_bit (xor a b) = xor (arc_bit a) (arc_bit b)"
  by (rule bit_word_eqI) (auto simp: arc_bit_def bit_simps)

lemma arc_bits_xor: "(arc_bit ^^ n) (xor a b) = xor ((arc_bit ^^ n) a) ((arc_bit ^^ n) b)"
  by (induction n) (simp_all add: arc_bit_xor)

lemma arc_bit_even: "\<not> bit c 0 \<Longrightarrow> arc_bit c = drop_bit 1 c"
  by (simp add: arc_bit_def)

lemma arc_bits_low_zero:
  assumes "\<forall>i < n. \<not> bit c i"
  shows "(arc_bit ^^ n) c = drop_bit n c"
  using assms
proof (induction n)
  case (Suc n)
  have "(arc_bit ^^ Suc n) c = arc_bit (drop_bit n c)" and "\<not> bit c n"
    using Suc by auto
  moreover have "arc_bit (drop_bit n c) = drop_bit 1 (drop_bit n c)"
    using \<open>\<not> bit c n\<close> by (intro arc_bit_even) (simp add: bit_simps)
  ultimately show ?case by simp
qed simp

text \<open>The register loses no information: bit 15 of the result tells which branch ran.\<close>

lemma arc_bit_zero: "arc_bit c = 0 \<Longrightarrow> c = 0"
proof (rule bit_word_eqI)
  fix n
  assume z: "arc_bit c = 0" and n: "n < LENGTH(16)"
  have b15: "bit (arc_bit c) 15 \<longleftrightarrow> bit c 0"
    using bit_imp_le_length [of c 16] by (auto simp: arc_bit_def bit_simps)
  then have "\<not> bit c 0" using z by simp
  moreover have "bit (arc_bit c) m \<longleftrightarrow> bit c (Suc m)" if "\<not> bit c 0" for m
    using that by (simp add: arc_bit_def bit_simps)
  ultimately show "bit c n \<longleftrightarrow> bit (0 :: u16) n"
    using z by (cases n) simp_all
qed

lemma arc_bit_inject: "arc_bit a = arc_bit b \<Longrightarrow> a = b"
proof -
  assume "arc_bit a = arc_bit b"
  then have "arc_bit (xor a b) = 0" by (simp add: arc_bit_xor)
  then have "xor a b = 0" by (rule arc_bit_zero)
  then show ?thesis by (simp add: xor_word_cancel)
qed

lemma arc_bits_inject: "(arc_bit ^^ n) a = (arc_bit ^^ n) b \<Longrightarrow> a = b"
  by (induction n) (auto dest: arc_bit_inject)

lemma arc_byte_inject_register: "arc_byte c b = arc_byte c' b \<Longrightarrow> c = c'"
  unfolding arc_byte_def by (drule arc_bits_inject) (simp add: xor_word_cancel)

lemma arc_byte_inject_byte: "arc_byte c b = arc_byte c b' \<Longrightarrow> b = b'"
  unfolding arc_byte_def
  by (drule arc_bits_inject) (simp only: xor_word_cancel, force simp: bit_eq_iff bit_simps)

interpretation arc: crc_register arc_engine
proof
  show "crc_update arc_engine d (xs @ ys) = crc_update arc_engine (crc_update arc_engine d xs) ys"
    for d xs ys by (simp add: arc_engine_def crc16_arc_def)
  show "crc_update arc_engine d [] = d" for d
    by (simp add: arc_engine_def crc16_arc_def)
  show "crc_update arc_engine d [b] = crc_update arc_engine d' [b] \<Longrightarrow> d = d'" for d d' b
    by (auto simp: arc_engine_def crc16_arc_def dest: arc_byte_inject_register)
  show "crc_update arc_engine d [b] = crc_update arc_engine d [b'] \<Longrightarrow> b = b'" for d b b'
    by (auto simp: arc_engine_def crc16_arc_def dest: arc_byte_inject_byte)
  show "crc_finalize arc_engine d = crc_finalize arc_engine d' \<Longrightarrow> d = d'" for d d'
    by (simp add: arc_engine_def)
qed

text \<open>Four bit steps are one table step, so a byte is two of them.\<close>

lemma funpow_4: "(f ^^ 4) x = f (f (f (f x)))"
  by (simp add: eval_nat_numeral)

lemma arc_nibble_table:
  assumes "unat n < 16"
  shows "(arc_bit ^^ 4) n = CRC16_ARC_NIBBLE_TABLE ! unat n"
proof -
  obtain k where n: "n = word_of_nat k" and k: "k < 16"
    using assms by (metis of_nat_unat ucast_id)
  have "k = 0 \<or> k = 1 \<or> k = 2 \<or> k = 3 \<or> k = 4 \<or> k = 5 \<or> k = 6 \<or> k = 7 \<or> k = 8 \<or> k = 9 \<or>
      k = 10 \<or> k = 11 \<or> k = 12 \<or> k = 13 \<or> k = 14 \<or> k = 15"
    using k by presburger
  then show ?thesis
    unfolding n by (elim disjE) (simp_all add: CRC16_ARC_NIBBLE_TABLE_def arc_bit_def funpow_4)
qed

lemma and_15: "and x 15 = take_bit 4 (x :: 'a::len word)"
  by (simp add: take_bit_eq_mask mask_numeral)

lemma arc_bits_split: "(arc_bit ^^ 4) acc = xor (drop_bit 4 acc) ((arc_bit ^^ 4) (and acc 15))"
proof -
  have "acc = xor (push_bit 4 (drop_bit 4 acc)) (and acc 15)"
    by (rule bit_word_eqI) (auto simp: and_15 bit_simps)
  then have "(arc_bit ^^ 4) acc =
      xor ((arc_bit ^^ 4) (push_bit 4 (drop_bit 4 acc))) ((arc_bit ^^ 4) (and acc 15))"
    by (metis arc_bits_xor)
  moreover have "(arc_bit ^^ 4) (push_bit 4 (drop_bit 4 acc)) = drop_bit 4 (push_bit 4 (drop_bit 4 acc))"
    by (rule arc_bits_low_zero) (auto simp: bit_simps)
  moreover have "drop_bit 4 (push_bit 4 (drop_bit 4 acc)) = drop_bit 4 acc"
    by (rule bit_word_eqI) (auto simp: bit_simps dest: bit_imp_le_length)
  ultimately show ?thesis by simp
qed

lemma unat_low_nibble: "unat (and x 15) < 16" for x :: "'a::len word"
  using take_bit_nat_less_exp [of 4 "unat x"] by (simp add: and_15 unsigned_take_bit_eq)

lemma nibble_step:
  fixes n :: byte
  assumes "unat n < 16"
  shows "xor (xor (drop_bit 4 acc) (CRC16_ARC_NIBBLE_TABLE ! unat (and acc 15)))
           (CRC16_ARC_NIBBLE_TABLE ! unat n) = (arc_bit ^^ 4) (xor acc (ucast n))"
proof -
  have "(arc_bit ^^ 4) (ucast n) = CRC16_ARC_NIBBLE_TABLE ! unat n"
    using arc_nibble_table [of "ucast n"] assms
    by (simp add: unsigned_ucast_eq take_bit_nat_eq_self)
  moreover have "(arc_bit ^^ 4) (and acc 15) = CRC16_ARC_NIBBLE_TABLE ! unat (and acc 15)"
    by (rule arc_nibble_table) (rule unat_low_nibble)
  ultimately show ?thesis
    by (simp add: arc_bits_xor arc_bits_split [of acc])
qed

lemma unat_high_nibble: "unat (drop_bit 4 (b :: byte)) < 16"
proof -
  have "unat b < 256" using unsigned_less [of b, where ?'a = nat] by simp
  then show ?thesis unfolding unat_drop_bit_eq by (simp add: drop_bit_eq_div)
qed

lemma nibble_byte_eq_arc_byte: "nibble_byte = arc_byte"
proof (intro ext)
  fix acc :: u16 and b :: byte
  let ?t = "(arc_bit ^^ 4) (xor acc (ucast (and b 15)))"
  have hi: "(arc_bit ^^ 4) (push_bit 4 (ucast (drop_bit 4 b))) = ucast (drop_bit 4 b)"
  proof -
    have "(arc_bit ^^ 4) (push_bit 4 (ucast (drop_bit 4 b))) = drop_bit 4 (push_bit 4 (ucast (drop_bit 4 b)))"
      by (rule arc_bits_low_zero) (auto simp: bit_simps)
    also have "\<dots> = ucast (drop_bit 4 b)"
      by (rule bit_word_eqI) (auto simp: bit_simps dest: bit_imp_le_length)
    finally show ?thesis .
  qed
  have b: "xor acc (ucast b) = xor (xor acc (ucast (and b 15))) (push_bit 4 (ucast (drop_bit 4 b)))"
    by (rule bit_word_eqI) (auto simp: and_15 bit_simps)
  have "nibble_byte acc b = (arc_bit ^^ 4) (xor ?t (ucast (drop_bit 4 b)))"
    by (simp only: nibble_byte_def Let_def nibble_step [OF unat_low_nibble]
        nibble_step [OF unat_high_nibble])
  also have "\<dots> = (arc_bit ^^ 4) ((arc_bit ^^ 4) (xor acc (ucast b)))"
    by (simp add: b arc_bits_xor hi)
  also have "\<dots> = (arc_bit ^^ (4 + 4)) (xor acc (ucast b))"
    by (simp only: funpow_add o_apply)
  finally show "nibble_byte acc b = arc_byte acc b"
    by (simp add: arc_byte_def)
qed

text \<open>Evaluation of closed instances goes through the table.\<close>

lemma arc_engine_eval:
  "crc_update arc_engine d bs = foldl nibble_byte d bs" "crc_digest arc_engine = 0"
  "crc_finalize arc_engine d = d"
  by (simp_all add: arc_engine_def crc16_arc_def nibble_byte_eq_arc_byte)

section \<open>Properties of the frame checksum\<close>

context crc_register begin

lemma one_update_detected:
  assumes "compute_checksum E (ms[j := b]) = compute_checksum E ms" and "j < length ms"
  shows "b = ms ! j"
  using assms one_byte_detected [of "take j ms" b "drop (Suc j) ms" "ms ! j"]
  by (simp add: upd_conv_take_nth_drop id_take_nth_drop [symmetric])

lemma one_byte_of_frame_detected:
  assumes ok: "verify_checksum E f = Some True"
    and i: "14 \<le> i" "i < 24 + payload_len_of f" "i \<noteq> 20" "i \<noteq> 21"
    and b: "b \<noteq> f ! i"
  shows "verify_checksum E (f[i := b]) = Some False"
proof -
  have len: "24 + payload_len_of f \<le> length f" and stored: "be16_at f 22 = compute_checksum E (covered_bytes f)"
    using ok by (simp_all add: verify_checksum_eq digest_in_parts_covered)
  have plen: "payload_len_of (f[i := b]) = payload_len_of f"
  proof -
    have "i < 20 \<or> 20 + 2 \<le> i" using i by arith
    then show ?thesis by (simp only: payload_len_of_def be16_at_def subslice_update_other)
  qed
  have bad: "be16_at (f[i := b]) 22 \<noteq> compute_checksum E (covered_bytes (f[i := b]))"
  proof (cases "i = 22 \<or> i = 23")
    case True
    have "be16_at (f[i := b]) 22 \<noteq> be16_at f 22"
    proof
      assume "be16_at (f[i := b]) 22 = be16_at f 22"
      then have "to_be16 (be16_at (f[i := b]) 22) = to_be16 (be16_at f 22)" by simp
      then have "subslice 22 2 (f[i := b]) = subslice 22 2 f"
        using len by (simp add: be16_at_def be16.enc_dec)
      then have "(subslice 22 2 f)[i - 22 := b] ! (i - 22) = subslice 22 2 f ! (i - 22)"
        using True by (auto simp: subslice_update_inside)
      then show False using b len True by (auto simp: nth_subslice)
    qed
    moreover have "covered_bytes (f[i := b]) = covered_bytes f"
      using True by (auto simp: covered_bytes_def plen subslice_update_other)
    ultimately show ?thesis using stored by simp
  next
    case False
    let ?j = "i - 14"
    have pos: "\<And>k. i - 22 = Suc (Suc k) \<Longrightarrow> k = i - 24" by arith
    have upd: "covered_bytes (f[i := b]) = (covered_bytes f)[?j := b]"
      using i False len
      by (auto simp: covered_bytes_def plen subslice_update_other subslice_update_inside
          list_update_append split: nat.splits dest!: pos)
    have nth: "covered_bytes f ! ?j = f ! i" and lt: "?j < length (covered_bytes f)"
      using i False len by (auto simp: covered_bytes_def nth_append nth_subslice nth_Cons')
    have "be16_at (f[i := b]) 22 = be16_at f 22"
    proof -
      have "i < 22 \<or> 22 + 2 \<le> i" using False by arith
      then show ?thesis by (simp only: be16_at_def subslice_update_other)
    qed
    then show ?thesis
      using one_update_detected [OF _ lt, of b] upd nth b stored by auto
  qed
  then show ?thesis
    by (simp add: verify_checksum_eq digest_in_parts_covered)
qed

end

lemma arc_compute: "compute_checksum arc_engine ms = crc16_arc 0 ms"
  by (simp add: compute_checksum_def arc_engine_def)

lemma verify_checksum_arc:
  "verify_checksum arc_engine frame =
     Some (24 + payload_len_of frame \<le> length frame \<and>
           be16_at frame 22 = crc16_arc 0 (covered_bytes frame))"
  by (simp add: verify_checksum_eq arc.digest_in_parts_covered arc_compute)

text \<open>C3. \<open>verify_checksum\<close> never panics, and accepts exactly the frames that hold the
  whole payload their length field announces and whose checksum field is the bitwise
  CRC-16/ARC of the bytes from the magic to the end of the payload, the field itself read
  as zero.\<close>

theorem verify_checksum_correct:
  "verify_checksum arc_engine frame =
     Some (24 + payload_len_of frame \<le> length frame \<and>
           be16_at frame 22 =
             crc16_arc 0 (subslice 14 8 frame @ [0, 0] @ subslice 24 (payload_len_of frame) frame))"
  by (simp add: verify_checksum_arc covered_bytes_def)

text \<open>C15. The nibble-table routine of the original firmware computes the same register as
  the bit-by-bit definition, from every starting register.\<close>

theorem nibble_table_equivalent: "proto_compute_checksum acc buf = crc16_arc acc buf"
  by (simp add: proto_compute_checksum_def crc16_arc_def nibble_byte_eq_arc_byte)


definition sample_frame :: bytes where
  "sample_frame = replicate 12 0xFF @ [0x88, 0xB5, 0x11, 2, 0, 0, 0, 1, 0, 1, 0x1A, 0x70, 2]"

lemma sample_frame_ok: "verify_checksum arc_engine sample_frame = Some True"
  by (simp add: verify_checksum_eq digest_in_parts_def arc_engine_eval nibble_byte_def
      CRC16_ARC_NIBBLE_TABLE_def sample_frame_def payload_len_of_def be16_at_def from_be16_def subslice_def)


text \<open>After \<open>set_checksum\<close> the frame verifies, its length is unchanged, and no byte
  outside the two of the checksum field has changed; it panics exactly on a frame shorter
  than its header says.\<close>

lemma set_checksum_correct:
  "case set_checksum E frame of
     None \<Rightarrow> length frame < 24 + payload_len_of frame
   | Some frame' \<Rightarrow>
       24 + payload_len_of frame \<le> length frame \<and>
       verify_checksum E frame' = Some True \<and> length frame' = length frame \<and>
       take 22 frame' = take 22 frame \<and> drop 24 frame' = drop 24 frame"
proof (cases "set_checksum E frame")
  case None
  then show ?thesis by (auto simp: set_checksum_eq split: if_splits)
next
  case (Some frame')
  then have "24 + payload_len_of frame \<le> length frame"
      and "frame' = overwrite 22 (to_be16 (digest_in_parts E frame)) frame"
    by (auto simp: set_checksum_eq split: if_splits)
  then show ?thesis
    using Some verify_after_set [OF Some] set_checksum_frame(1) [OF Some]
    by (simp add: overwrite_def)
qed

end
