(* ===== verification/Frame.thy ===== *)
theory Frame
  imports Checksum
begin

text \<open>
  The \<open>0x88B5\<close> frame (\<open>rbctl_proto/src/frame.rs\<close>): building a command frame in the
  caller's buffer, parsing a received one, its accessors, and the sequence counter.
  A \<open>Frame\<close> value is the buffer it borrows; the accessors are meant for buffers that
  \<open>parse\<close> accepted, as in the code, where the field is private.
  \<open>build_command_frame\<close> returns the caller's buffer after the call and the length of the
  returned slice, a panic is \<open>None\<close>.
\<close>

definition ETHTYPE_BOARD :: u16 where "ETHTYPE_BOARD = 0x88B5"
definition MAGIC_COMMAND :: byte where "MAGIC_COMMAND = 0x11"
definition MAGIC_RESPONSE :: byte where "MAGIC_RESPONSE = 0x10"
definition HEADER_LEN :: nat where "HEADER_LEN = 0x18"
definition MIN_FRAME :: nat where "MIN_FRAME = 60"
definition BROADCAST_MAC :: bytes where "BROADCAST_MAC = replicate 6 0xFF"

lemmas frame_consts = ETHTYPE_BOARD_def MAGIC_COMMAND_def MAGIC_RESPONSE_def HEADER_LEN_def
  MIN_FRAME_def BROADCAST_MAC_def offset_defs

section \<open>Building a command frame\<close>

definition build_command_frame ::
  "'d crc_engine \<Rightarrow> bytes \<Rightarrow> byte \<Rightarrow> u32 \<Rightarrow> bytes \<Rightarrow> bytes \<Rightarrow> (bytes \<times> nat) option" where
  "build_command_frame E buf subtype seq src_mac payload =
     (let total = HEADER_LEN + length payload in
      if length buf < total then None
      else
        let f = take total buf;
            f = overwrite 0x00 BROADCAST_MAC f;
            f = overwrite 0x06 src_mac f;
            f = overwrite 0x0C (to_be16 ETHTYPE_BOARD) f;
            f = f[OFF_MAGIC := MAGIC_COMMAND];
            f = f[OFF_SUBTYPE := subtype];
            f = overwrite OFF_SEQ (to_be32 seq) f;
            f = overwrite OFF_PAYLOAD_LEN (to_be16 (of_nat (length payload))) f;
            f = overwrite OFF_CHECKSUM (to_be16 0) f;
            f = overwrite OFF_PAYLOAD payload f
        in case set_checksum E f of
             None \<Rightarrow> None
           | Some f \<Rightarrow> Some (f @ drop total buf, total))"

text \<open>The returned slice, \<open>&mut buf[..total]\<close>.\<close>

definition built_frame :: "bytes \<times> nat \<Rightarrow> bytes" where
  "built_frame r = take (snd r) (fst r)"

section \<open>Parsing a received frame\<close>

type_synonym frame = bytes

definition frame_parse :: "bytes \<Rightarrow> frame option" where
  "frame_parse buf =
     (if length buf < HEADER_LEN then None
      else
        let plen = unat (be16_at buf OFF_PAYLOAD_LEN) in
        if length buf < OFF_PAYLOAD + plen then None else Some buf)"

definition frame_magic :: "frame \<Rightarrow> byte" where
  "frame_magic f = f ! OFF_MAGIC"

definition frame_subtype :: "frame \<Rightarrow> byte" where
  "frame_subtype f = f ! OFF_SUBTYPE"

definition frame_seq :: "frame \<Rightarrow> u32" where
  "frame_seq f = be32_at f OFF_SEQ"

definition frame_payload_len :: "frame \<Rightarrow> u16" where
  "frame_payload_len f = be16_at f OFF_PAYLOAD_LEN"

definition frame_is_command :: "frame \<Rightarrow> bool" where
  "frame_is_command f \<longleftrightarrow> f ! OFF_MAGIC = MAGIC_COMMAND"

definition frame_is_response :: "frame \<Rightarrow> bool" where
  "frame_is_response f \<longleftrightarrow> f ! OFF_MAGIC = MAGIC_RESPONSE"

definition frame_dst_mac :: "frame \<Rightarrow> bytes" where
  "frame_dst_mac f = subslice 0x00 6 f"

definition frame_src_mac :: "frame \<Rightarrow> bytes" where
  "frame_src_mac f = subslice 0x06 6 f"

definition frame_payload :: "frame \<Rightarrow> bytes" where
  "frame_payload f = subslice OFF_PAYLOAD (unat (frame_payload_len f)) f"

lemmas frame_accessors = frame_magic_def frame_subtype_def frame_seq_def frame_payload_len_def
  frame_is_command_def frame_is_response_def frame_dst_mac_def frame_src_mac_def frame_payload_def

section \<open>The sequence counter\<close>

definition SeqCounter_new :: u32 where
  "SeqCounter_new = 0"

definition SeqCounter_next :: "u32 \<Rightarrow> u32 \<times> u32" where
  "SeqCounter_next s = (let s' = s + 1 in (s', s'))"

section \<open>The frame as a concatenation of its fields\<close>

definition command_header :: "byte \<Rightarrow> u32 \<Rightarrow> bytes \<Rightarrow> u16 \<Rightarrow> u16 \<Rightarrow> bytes" where
  "command_header subtype seq src_mac plen crc =
     replicate 6 0xFF @ src_mac @ to_be16 0x88B5 @ [0x11, subtype] @ to_be32 seq @ to_be16 plen
       @ to_be16 crc"

lemma length_command_header [simp]:
  "length src_mac = 6 \<Longrightarrow> length (command_header subtype seq src_mac plen crc) = 24"
  by (simp add: command_header_def)

text \<open>The writes before the checksum, on a slice of the right length.\<close>

lemma command_header_writes:
  assumes f: "length f = 24 + length payload" and mac: "length src_mac = 6"
  shows "overwrite 24 payload (overwrite 22 (to_be16 crc) (overwrite 20 (to_be16 plen)
      (overwrite 16 (to_be32 seq) ((overwrite 12 (to_be16 0x88B5) (overwrite 6 src_mac
      (overwrite 0 (replicate 6 0xFF) f)))[14 := 0x11, 15 := subtype])))) =
    command_header subtype seq src_mac plen crc @ payload"
proof -
  have "length f = 6 + (18 + length payload)" using f by simp
  then obtain a r where a: "f = a @ r" "length a = 6" and len_r: "length r = 18 + length payload"
    by (rule split_at)
  have "length r = 6 + (12 + length payload)" using len_r by simp
  then obtain b r1 where b: "r = b @ r1" "length b = 6" and len_r1: "length r1 = 12 + length payload"
    by (rule split_at)
  have "length r1 = 2 + (10 + length payload)" using len_r1 by simp
  then obtain c r2 where c: "r1 = c @ r2" "length c = 2" and len_r2: "length r2 = 10 + length payload"
    by (rule split_at)
  have "length r2 = 2 + (8 + length payload)" using len_r2 by simp
  then obtain d r3 where d: "r2 = d @ r3" "length d = 2" and len_r3: "length r3 = 8 + length payload"
    by (rule split_at)
  have "length r3 = 4 + (4 + length payload)" using len_r3 by simp
  then obtain e r4 where e: "r3 = e @ r4" "length e = 4" and len_r4: "length r4 = 4 + length payload"
    by (rule split_at)
  have "length r4 = 2 + (2 + length payload)" using len_r4 by simp
  then obtain g r5 where g: "r4 = g @ r5" "length g = 2" and len_r5: "length r5 = 2 + length payload"
    by (rule split_at)
  have "length r5 = 2 + (length payload)" using len_r5 by simp
  then obtain h r6 where h: "r5 = h @ r6" "length h = 2" and len_r6: "length r6 = length payload"
    by (rule split_at)
  obtain x y where xy: "d = [x, y]" using d by (auto simp: length2_conv)
  show ?thesis
    using a b c d e g h len_r6 mac
    by (simp add: xy overwrite_skip overwrite_here overwrite_Cons list_update_append
        command_header_def)
qed

section \<open>Reading a frame given by its fields\<close>

lemma header_field_at:
  assumes "length src_mac = 6"
  shows "command_header subtype seq src_mac plen crc ! 14 = 0x11"
    and "command_header subtype seq src_mac plen crc ! 15 = subtype"
    and "subslice 0 6 (command_header subtype seq src_mac plen crc) = replicate 6 0xFF"
    and "subslice 6 6 (command_header subtype seq src_mac plen crc) = src_mac"
    and "subslice 12 2 (command_header subtype seq src_mac plen crc) = to_be16 0x88B5"
    and "subslice 16 4 (command_header subtype seq src_mac plen crc) = to_be32 seq"
    and "subslice 20 2 (command_header subtype seq src_mac plen crc) = to_be16 plen"
    and "subslice 22 2 (command_header subtype seq src_mac plen crc) = to_be16 crc"
  using assms by (simp_all add: command_header_def subslice_def nth_append)

lemma header_field_in_frame:
  assumes "length src_mac = 6" and "f = command_header subtype seq src_mac plen crc @ payload"
  shows "f ! 14 = 0x11" "f ! 15 = subtype" "subslice 0 6 f = replicate 6 0xFF"
    "subslice 6 6 f = src_mac" "subslice 12 2 f = to_be16 0x88B5" "be32_at f 16 = seq"
    "be16_at f 20 = plen" "be16_at f 22 = crc" "subslice 24 n f = take n payload"
    "length f = 24 + length payload"
  using assms
  by (simp_all add: be32_at_def be16_at_def subslice_append_left header_field_at nth_append
      codec_dec_enc subslice_def [of 24])

lemma header_checksum_write:
  "length src_mac = 6 \<Longrightarrow> overwrite 22 (to_be16 c) (command_header subtype seq src_mac plen c' @ payload)
     = command_header subtype seq src_mac plen c @ payload"
  by (simp add: command_header_def overwrite_skip overwrite_here overwrite_Cons)

lemma header_frame_verifies:
  assumes mac: "length src_mac = 6" and plen: "unat plen \<le> length payload"
    and crc: "crc = digest_in_parts E (command_header subtype seq src_mac plen 0 @ payload)"
  shows "verify_checksum E (command_header subtype seq src_mac plen crc @ payload) = Some True"
proof -
  let ?f0 = "command_header subtype seq src_mac plen 0 @ payload"
  have "payload_len_of ?f0 = unat plen" and "length ?f0 = 24 + length payload"
    using mac by (simp_all add: payload_len_of_def header_field_in_frame [OF mac refl])
  then have "set_checksum E ?f0 = Some (command_header subtype seq src_mac plen crc @ payload)"
    using plen by (simp add: set_checksum_eq header_checksum_write mac flip: crc)
  then show ?thesis by (rule verify_after_set)
qed

lemma build_command_frame_eq:
  assumes mac: "length src_mac = 6"
  shows "build_command_frame E buf subtype seq src_mac payload =
    (if length buf < 24 + length payload \<or>
        length payload < unat (of_nat (length payload) :: u16) then None
     else let plen = of_nat (length payload);
              f0 = command_header subtype seq src_mac plen 0 @ payload;
              crc = digest_in_parts E f0
          in Some (command_header subtype seq src_mac plen crc @ payload @
                     drop (24 + length payload) buf, 24 + length payload))"
proof (cases "length buf < 24 + length payload")
  case False
  let ?plen = "of_nat (length payload) :: u16"
  let ?f0 = "command_header subtype seq src_mac ?plen 0 @ payload"
  have writes: "overwrite 24 payload (overwrite 22 (to_be16 0) (overwrite 20 (to_be16 ?plen)
      (overwrite 16 (to_be32 seq) ((overwrite 12 (to_be16 0x88B5) (overwrite 6 src_mac
      (overwrite 0 (replicate 6 0xFF) (take (24 + length payload) buf))))[14 := 0x11, 15 := subtype])))) = ?f0"
    using False mac by (intro command_header_writes) simp_all
  have "payload_len_of ?f0 = unat ?plen" and "length ?f0 = 24 + length payload"
    using mac by (simp_all add: payload_len_of_def header_field_in_frame [OF mac refl])
  then show ?thesis
    using False by (auto simp: build_command_frame_def frame_consts writes set_checksum_eq
        header_checksum_write mac Let_def)
qed (simp add: build_command_frame_def frame_consts)

lemma of_nat_le_self: "unat (of_nat n :: u16) \<le> n"
  by (simp add: unsigned_of_nat take_bit_eq_mod)

lemma build_command_frame_panics:
  assumes "length src_mac = 6"
  shows "build_command_frame E buf subtype seq src_mac payload = None \<longleftrightarrow>
    length buf < 24 + length payload"
  using assms of_nat_le_self [of "length payload"]
  by (auto simp: build_command_frame_eq Let_def not_less)

lemma built_frame_fields:
  assumes "build_command_frame E buf subtype seq src_mac payload = Some r" and "length src_mac = 6"
  obtains crc where "built_frame r =
      command_header subtype seq src_mac (of_nat (length payload)) crc @ payload"
    and "length (fst r) = length buf" and "snd r = 24 + length payload"
    and "drop (snd r) (fst r) = drop (snd r) buf"
    and "verify_checksum E (built_frame r) = Some True"
proof -
  define crc where "crc = digest_in_parts E
    (command_header subtype seq src_mac (of_nat (length payload)) 0 @ payload)"
  have r: "r = (command_header subtype seq src_mac (of_nat (length payload)) crc @ payload @
      drop (24 + length payload) buf, 24 + length payload)" and "24 + length payload \<le> length buf"
    using assms by (auto simp: build_command_frame_eq crc_def Let_def split: if_splits)
  then have f: "built_frame r = command_header subtype seq src_mac (of_nat (length payload)) crc @ payload"
    and "length (fst r) = length buf" "snd r = 24 + length payload"
      "drop (snd r) (fst r) = drop (snd r) buf"
    using assms(2) by (simp_all add: built_frame_def)
  moreover have "verify_checksum E (built_frame r) = Some True"
    unfolding f using assms(2) of_nat_le_self crc_def by (rule header_frame_verifies)
  ultimately show thesis by (rule that)
qed

section \<open>Properties of the frame\<close>

lemma frame_parse_eq:
  "frame_parse buf = (if 24 + payload_len_of buf \<le> length buf then Some buf else None)"
  by (simp add: frame_parse_def frame_consts payload_len_of_def Let_def)

lemma verified_parses: "verify_checksum E buf = Some True \<Longrightarrow> frame_parse buf = Some buf"
  by (simp add: verify_checksum_eq frame_parse_eq)

text \<open>C5. A command frame is built exactly when the buffer has room for the header and the
  payload; the returned slice then verifies, parses back, and every accessor yields what
  was passed in (a payload longer than 65535 bytes has its length field reduced modulo
  65536), the rest of the buffer being left alone.\<close>

theorem build_parse_roundtrip:
  assumes mac: "length src_mac = 6"
  shows "case build_command_frame E buf subtype seq src_mac payload of
      None \<Rightarrow> length buf < 24 + length payload
    | Some r \<Rightarrow>
        24 + length payload \<le> length buf \<and> length (fst r) = length buf \<and>
        snd r = 24 + length payload \<and> drop (snd r) (fst r) = drop (snd r) buf \<and>
        verify_checksum E (built_frame r) = Some True \<and>
        frame_parse (built_frame r) = Some (built_frame r) \<and>
        frame_is_command (built_frame r) \<and> \<not> frame_is_response (built_frame r) \<and>
        frame_subtype (built_frame r) = subtype \<and> frame_seq (built_frame r) = seq \<and>
        frame_src_mac (built_frame r) = src_mac \<and>
        frame_dst_mac (built_frame r) = BROADCAST_MAC \<and>
        subslice 12 2 (built_frame r) = to_be16 ETHTYPE_BOARD \<and>
        frame_payload_len (built_frame r) = of_nat (length payload) \<and>
        frame_payload (built_frame r) = take (length payload mod 65536) payload"
proof (cases "build_command_frame E buf subtype seq src_mac payload")
  case None
  with mac have "length buf < 24 + length payload"
    by (metis build_command_frame_panics)
  with None show ?thesis by simp
next
  case (Some r)
  then have fits: "24 + length payload \<le> length buf"
    using mac by (metis build_command_frame_panics not_less option.distinct(1))
  obtain crc where f: "built_frame r =
      command_header subtype seq src_mac (of_nat (length payload)) crc @ payload"
    and rest: "length (fst r) = length buf" "snd r = 24 + length payload"
      "drop (snd r) (fst r) = drop (snd r) buf"
    and ok: "verify_checksum E (built_frame r) = Some True"
    using Some mac by (rule built_frame_fields)
  show ?thesis
    using Some fits rest ok verified_parses [OF ok]
    by (simp add: frame_accessors frame_consts header_field_in_frame [OF mac f]
        unsigned_of_nat take_bit_eq_mod)
qed

theorem build_parse_roundtrip_witness:
  "case build_command_frame arc_engine (replicate 26 0) 6 42 [0, 17, 34, 51, 68, 85] [7, 8] of
     None \<Rightarrow> False
   | Some r \<Rightarrow> verify_checksum arc_engine (built_frame r) = Some True \<and>
       frame_payload (built_frame r) = [7, 8]"
  using build_parse_roundtrip [where E = arc_engine and src_mac = "[0, 17, 34, 51, 68, 85]" and
      buf = "replicate 26 0" and subtype = 6 and seq = 42 and payload = "[7, 8]"]
  by (auto split: option.splits)

text \<open>\<open>Frame::parse\<close> accepts a buffer exactly when the header and the announced payload
  lie inside it; the payload of an accepted frame has the announced length and is
  independent of what follows it (Ethernet padding).\<close>

lemma parse_total_and_padding:
  "case frame_parse buf of
     None \<Rightarrow> length buf < 24 + payload_len_of buf
   | Some f \<Rightarrow>
       24 + payload_len_of buf \<le> length buf \<and>
       frame_parse (buf @ pad) = Some (buf @ pad) \<and>
       frame_payload (buf @ pad) = frame_payload f \<and>
       length (frame_payload f) = unat (frame_payload_len f)"
  by (auto simp: frame_parse_eq frame_accessors frame_consts payload_len_of_def be16_at_def
      subslice_append_left)

end
