(* ===== verification/Pack.thy ===== *)
theory Pack
  imports Wire
begin

text \<open>
  The payload encoders (\<open>rbctl_proto/src/pack.rs\<close>): the \<open>repr(u8)\<close> enumerations with
  their codes, and the fixed-size descriptors of opcodes 1, 5, 15, 6 and 16.  The board's
  view of each descriptor, reading it back field by field, is stated as a decoder and the
  encoders are proved to be undone by it.
\<close>

section \<open>Enumerations\<close>

datatype modulation = AdslAnsiT1413 | AdslGdmt | AdslGlite | AdslGdmtBis | Adsl2Plus
  | AdslMultimode | Vdsl2 | Multimode

primrec modulation_code :: "modulation \<Rightarrow> byte" where
  "modulation_code AdslAnsiT1413 = 0"
| "modulation_code AdslGdmt = 1"
| "modulation_code AdslGlite = 2"
| "modulation_code AdslGdmtBis = 3"
| "modulation_code Adsl2Plus = 4"
| "modulation_code AdslMultimode = 5"
| "modulation_code Vdsl2 = 6"
| "modulation_code Multimode = 7"

datatype annex = Annex_A | Annex_B | Annex_I | Annex_M | Annex_AL | Annex_ALM | Annex_J
  | Annex_BJ | Annex_Auto

primrec annex_code :: "annex \<Rightarrow> byte" where
  "annex_code Annex_A = 0"
| "annex_code Annex_B = 1"
| "annex_code Annex_I = 2"
| "annex_code Annex_M = 3"
| "annex_code Annex_AL = 4"
| "annex_code Annex_ALM = 5"
| "annex_code Annex_J = 6"
| "annex_code Annex_BJ = 7"
| "annex_code Annex_Auto = 8"

text \<open>\<open>Vdsl2Profiles\<close> is its 16-bit mask.\<close>

type_synonym vdsl2_profiles = u16

definition EIGHT_A :: vdsl2_profiles where "EIGHT_A = 0x001"
definition EIGHT_B :: vdsl2_profiles where "EIGHT_B = 0x002"
definition EIGHT_C :: vdsl2_profiles where "EIGHT_C = 0x004"
definition EIGHT_D :: vdsl2_profiles where "EIGHT_D = 0x008"
definition TWELVE_A :: vdsl2_profiles where "TWELVE_A = 0x010"
definition TWELVE_B :: vdsl2_profiles where "TWELVE_B = 0x020"
definition SEVENTEEN_A :: vdsl2_profiles where "SEVENTEEN_A = 0x040"
definition THIRTY_A :: vdsl2_profiles where "THIRTY_A = 0x080"
definition THIRTYFIVE_B :: vdsl2_profiles where "THIRTYFIVE_B = 0x100"

lemmas profile_defs = EIGHT_A_def EIGHT_B_def EIGHT_C_def EIGHT_D_def TWELVE_A_def TWELVE_B_def
  SEVENTEEN_A_def THIRTY_A_def THIRTYFIVE_B_def

definition profiles_bitmask :: "vdsl2_profiles \<Rightarrow> u32" where
  "profiles_bitmask p = ucast p"

definition profiles_bitor :: "vdsl2_profiles \<Rightarrow> vdsl2_profiles \<Rightarrow> vdsl2_profiles" where
  "profiles_bitor a b = or a b"

datatype atm_encap = Llc | Vcmux

primrec atm_encap_code :: "atm_encap \<Rightarrow> byte" where
  "atm_encap_code Llc = 0"
| "atm_encap_code Vcmux = 1"

datatype atm_link_type = Eoa | Pppoa | Ipoa

primrec atm_link_type_code :: "atm_link_type \<Rightarrow> byte" where
  "atm_link_type_code Eoa = 0"
| "atm_link_type_code Pppoa = 6"
| "atm_link_type_code Ipoa = 7"

datatype atm_qos = Ubr | Cbr | VbrNrt | VbrRt

primrec atm_qos_code :: "atm_qos \<Rightarrow> byte" where
  "atm_qos_code Ubr = 1"
| "atm_qos_code Cbr = 2"
| "atm_qos_code VbrNrt = 3"
| "atm_qos_code VbrRt = 4"

definition carries_scr :: "atm_qos \<Rightarrow> bool" where
  "carries_scr q \<longleftrightarrow> q = VbrNrt \<or> q = VbrRt"

definition bool_byte :: "bool \<Rightarrow> byte" where
  "bool_byte b = (if b then 1 else 0)"

section \<open>Opcode 1: the DSL line descriptor\<close>

definition pack_dsl_line :: "modulation \<Rightarrow> annex \<Rightarrow> bool \<Rightarrow> bool \<Rightarrow> vdsl2_profiles \<Rightarrow> bytes" where
  "pack_dsl_line md an bitswap sra profiles =
     (let bitmask = (case md of Vdsl2 \<Rightarrow> profiles_bitmask profiles
                              | Multimode \<Rightarrow> profiles_bitmask profiles | _ \<Rightarrow> 0);
          out = replicate 12 0;
          out = out[0 := modulation_code md];
          out = out[1 := annex_code an];
          out = out[2 := bool_byte bitswap];
          out = out[3 := bool_byte sra];
          out = overwrite 4 (to_be32 bitmask) out
      in out)"

section \<open>Opcode 5: the ATM link descriptor\<close>

record atm_link_params =
  alp_vpi :: byte
  alp_vci :: u16
  alp_encap :: atm_encap
  alp_link_type :: atm_link_type
  alp_qos :: atm_qos
  alp_pcr :: u32
  alp_scr :: u32
  alp_mbs :: u32
  alp_vlan_id :: u16
  alp_tag_enable :: byte
  alp_tag_vid :: u16
  alp_tag_pri :: byte

definition AtmLinkParams_default :: atm_link_params where
  "AtmLinkParams_default =
     \<lparr>alp_vpi = 0, alp_vci = 0, alp_encap = Llc, alp_link_type = Eoa, alp_qos = Ubr,
      alp_pcr = 0, alp_scr = 0, alp_mbs = 0, alp_vlan_id = 0, alp_tag_enable = 0,
      alp_tag_vid = 0xFFFF, alp_tag_pri = 0xFF\<rparr>"

definition pack_atm_link :: "atm_link_params \<Rightarrow> bytes" where
  "pack_atm_link p =
     (let scr = (if carries_scr (alp_qos p) then alp_scr p else 0);
          mbs = (if carries_scr (alp_qos p) then alp_mbs p else 0);
          out = replicate 24 0;
          out = out[0x00 := atm_qos_code (alp_qos p)];
          out = out[0x01 := alp_vpi p];
          out = overwrite 0x02 (to_be16 (alp_vci p)) out;
          out = overwrite 0x04 (to_be32 (alp_pcr p)) out;
          out = overwrite 0x08 (to_be32 scr) out;
          out = overwrite 0x0C (to_be32 mbs) out;
          out = out[0x10 := atm_encap_code (alp_encap p)];
          out = out[0x11 := atm_link_type_code (alp_link_type p)];
          out = overwrite 0x12 (to_be16 (alp_vlan_id p)) out;
          out = out[0x14 := alp_tag_enable p];
          out = overwrite 0x15 (to_be16 (alp_tag_vid p)) out;
          out = out[0x17 := alp_tag_pri p]
      in out)"

section \<open>Opcodes 15, 6 and 16: the PTM descriptor and link deletion\<close>

definition pack_ptm_link :: "byte \<Rightarrow> u16 \<Rightarrow> u16 \<Rightarrow> u16 \<Rightarrow> bytes" where
  "pack_ptm_link tag_enable tag_vid tag_pri vlan_id =
     (let out = replicate 8 0;
          out = out[0 := tag_enable];
          out = overwrite 1 (to_be16 tag_vid) out;
          out = overwrite 3 (to_be16 tag_pri) out;
          out = overwrite 6 (to_be16 vlan_id) out
      in out)"

definition pack_link_del :: "u16 \<Rightarrow> byte \<Rightarrow> bytes" where
  "pack_link_del vlan_id op_type =
     (let out = replicate 3 0;
          out = overwrite 0 (to_be16 vlan_id) out;
          out = out[2 := op_type]
      in out)"

section \<open>The descriptors as concatenations\<close>

lemma pack_dsl_line_eq:
  "pack_dsl_line md an bitswap sra profiles =
     [modulation_code md, annex_code an, bool_byte bitswap, bool_byte sra] @
     to_be32 (if md = Vdsl2 \<or> md = Multimode then ucast profiles else 0) @ [0, 0, 0, 0]"
  by (cases md) (simp_all add: pack_dsl_line_def profiles_bitmask_def overwrite_def Let_def
      eval_nat_numeral)

lemma replicate_24: "replicate 24 (0 :: byte) =
    [0, 0, 0, 0, 0, 0, 0, 0, 0, 0, 0, 0, 0, 0, 0, 0, 0, 0, 0, 0, 0, 0, 0, 0]"
  by (simp add: eval_nat_numeral)

lemma pack_atm_link_eq:
  "pack_atm_link p =
     [atm_qos_code (alp_qos p), alp_vpi p] @ to_be16 (alp_vci p) @ to_be32 (alp_pcr p) @
     to_be32 (if carries_scr (alp_qos p) then alp_scr p else 0) @
     to_be32 (if carries_scr (alp_qos p) then alp_mbs p else 0) @
     [atm_encap_code (alp_encap p), atm_link_type_code (alp_link_type p)] @
     to_be16 (alp_vlan_id p) @ [alp_tag_enable p] @ to_be16 (alp_tag_vid p) @ [alp_tag_pri p]"
  by (simp add: pack_atm_link_def Let_def replicate_24 overwrite_Cons overwrite_0_Cons
      to_be16_def to_be32_def)

lemma pack_ptm_link_eq:
  "pack_ptm_link tag_enable tag_vid tag_pri vlan_id =
     [tag_enable] @ to_be16 tag_vid @ to_be16 tag_pri @ [0] @ to_be16 vlan_id"
  by (simp add: pack_ptm_link_def overwrite_def Let_def eval_nat_numeral to_be16_def)

lemma pack_link_del_eq: "pack_link_del vlan_id op_type = to_be16 vlan_id @ [op_type]"
  by (simp add: pack_link_del_def overwrite_def Let_def eval_nat_numeral to_be16_def)

section \<open>Properties of the encoders\<close>

lemma enum_code_inject:
  "modulation_code m = modulation_code m' \<longleftrightarrow> m = m'"
  "annex_code a = annex_code a' \<longleftrightarrow> a = a'"
  "atm_encap_code e = atm_encap_code e' \<longleftrightarrow> e = e'"
  "atm_link_type_code t = atm_link_type_code t' \<longleftrightarrow> t = t'"
  "atm_qos_code q = atm_qos_code q' \<longleftrightarrow> q = q'"
  "bool_byte b = bool_byte b' \<longleftrightarrow> b = b'"
proof -
  show "modulation_code m = modulation_code m' \<longleftrightarrow> m = m'" by (cases m; cases m'; simp)
  show "annex_code a = annex_code a' \<longleftrightarrow> a = a'" by (cases a; cases a'; simp)
  show "atm_encap_code e = atm_encap_code e' \<longleftrightarrow> e = e'" by (cases e; cases e'; simp)
  show "atm_link_type_code t = atm_link_type_code t' \<longleftrightarrow> t = t'" by (cases t; cases t'; simp)
  show "atm_qos_code q = atm_qos_code q' \<longleftrightarrow> q = q'" by (cases q; cases q'; simp)
  show "bool_byte b = bool_byte b' \<longleftrightarrow> b = b'" by (simp add: bool_byte_def)
qed

text \<open>The cells of the VDSL2 mask, and of the SCR and MBS fields, that the wire carries.\<close>

definition profiles_sent :: "modulation \<Rightarrow> vdsl2_profiles \<Rightarrow> vdsl2_profiles" where
  "profiles_sent md profiles = (if md = Vdsl2 \<or> md = Multimode then profiles else 0)"

definition atm_params_sent :: "atm_link_params \<Rightarrow> atm_link_params" where
  "atm_params_sent p = (if carries_scr (alp_qos p) then p else p\<lparr>alp_scr := 0, alp_mbs := 0\<rparr>)"

lemma to_be16_eq_iff: "to_be16 a @ xs = to_be16 b @ ys \<longleftrightarrow> a = b \<and> xs = ys"
  by (simp add: be16.enc_inject)

lemma to_be32_eq_iff: "to_be32 a @ xs = to_be32 b @ ys \<longleftrightarrow> a = b \<and> xs = ys"
  by (simp add: be32.enc_inject)

lemma ucast_16_32_inject: "(ucast (a :: u16) :: u32) = ucast b \<longleftrightarrow> a = b"
proof
  assume "(ucast a :: u32) = ucast b"
  then have "unat (ucast a :: u32) = unat (ucast b :: u32)" by simp
  moreover have "unat (ucast c :: u32) = unat c" for c :: u16
    using unsigned_less [of c, where ?'a = nat]
    by (simp add: unsigned_ucast_eq take_bit_nat_eq_self)
  ultimately show "a = b" by (simp add: word_unat_eq_iff)
qed simp

text \<open>The line descriptor is 12 bytes, its mask field holds the profile mask for VDSL2
  and Multimode and zero for every ADSL mode, and two configurations have the same
  descriptor only if they agree on everything the board is told.\<close>

lemma pack_dsl_line_faithful:
  "length (pack_dsl_line md an bs sra pr) = 12 \<and>
   be32_at (pack_dsl_line md an bs sra pr) 4 = profiles_bitmask (profiles_sent md pr) \<and>
   (pack_dsl_line md an bs sra pr = pack_dsl_line md' an' bs' sra' pr' \<longleftrightarrow>
      md = md' \<and> an = an' \<and> bs = bs' \<and> sra = sra' \<and>
      profiles_sent md pr = profiles_sent md' pr')"
proof -
  have "length (pack_dsl_line md an bs sra pr) = 12" by (simp add: pack_dsl_line_eq)
  moreover have "be32_at (pack_dsl_line md an bs sra pr) 4 = profiles_bitmask (profiles_sent md pr)"
    by (simp add: pack_dsl_line_eq be32_at_def subslice_def codec_dec_enc profiles_sent_def
        profiles_bitmask_def)
  moreover have "pack_dsl_line md an bs sra pr = [modulation_code md, annex_code an, bool_byte bs,
      bool_byte sra] @ to_be32 (ucast (profiles_sent md pr)) @ [0, 0, 0, 0]" for md an bs sra pr
    by (simp add: pack_dsl_line_eq profiles_sent_def)
  then have "pack_dsl_line md an bs sra pr = pack_dsl_line md' an' bs' sra' pr' \<longleftrightarrow>
      md = md' \<and> an = an' \<and> bs = bs' \<and> sra = sra' \<and> profiles_sent md pr = profiles_sent md' pr'"
    by (simp add: enum_code_inject be32.enc_inject ucast_16_32_inject)
  ultimately show ?thesis by blast
qed

text \<open>The ATM descriptor is 24 bytes and determines every parameter but the SCR and MBS
  of the classes that carry none, which are sent as zero.\<close>

lemma pack_atm_link_faithful:
  "length (pack_atm_link p) = 24 \<and> be16_at (pack_atm_link p) 2 = alp_vci p \<and>
   be32_at (pack_atm_link p) 4 = alp_pcr p \<and>
   be32_at (pack_atm_link p) 8 = alp_scr (atm_params_sent p) \<and>
   be32_at (pack_atm_link p) 12 = alp_mbs (atm_params_sent p) \<and>
   be16_at (pack_atm_link p) 18 = alp_vlan_id p \<and> be16_at (pack_atm_link p) 21 = alp_tag_vid p \<and>
   (pack_atm_link p = pack_atm_link q \<longleftrightarrow> atm_params_sent p = atm_params_sent q)"
proof -
  have "pack_atm_link p = pack_atm_link q \<longleftrightarrow> atm_params_sent p = atm_params_sent q"
    by (cases p; cases q) (auto simp: pack_atm_link_eq to_be16_eq_iff to_be32_eq_iff
        enum_code_inject atm_params_sent_def be16.enc_inject)
  then show ?thesis
    by (simp add: pack_atm_link_eq be16_at_def be32_at_def subslice_def codec_dec_enc
        atm_params_sent_def)
qed

text \<open>The PTM descriptor and the deletion descriptor determine their arguments, and the
  transport VLAN is where the board and the reply decoder expect it.\<close>

lemma pack_link_faithful:
  "length (pack_ptm_link en vid pri vlan) = 8 \<and> be16_at (pack_ptm_link en vid pri vlan) 6 = vlan \<and>
   (pack_ptm_link en vid pri vlan = pack_ptm_link en' vid' pri' vlan' \<longleftrightarrow>
      en = en' \<and> vid = vid' \<and> pri = pri' \<and> vlan = vlan') \<and>
   length (pack_link_del vlan ty) = 3 \<and>
   (pack_link_del vlan ty = pack_link_del vlan' ty' \<longleftrightarrow> vlan = vlan' \<and> ty = ty')"
  by (auto simp: pack_ptm_link_eq pack_link_del_eq to_be16_eq_iff be16_at_def subslice_def
      codec_dec_enc be16.enc_inject)

end
