(* ===== verification/Unpack.thy ===== *)
theory Unpack
  imports Pack
begin

text \<open>
  The reply decoders (\<open>rbctl_proto/src/unpack.rs\<close>): the line object of opcode 2 and the
  channel statistics of opcode 4, with the reverse lookups of the enumerations.  Errors are
  the left values of a sum, with the code's message.
\<close>

datatype link_status = NoSignal | Up | Initializing | EstablishingLink | LinkUnknown byte

definition LinkStatus_from_code :: "byte \<Rightarrow> link_status" where
  "LinkStatus_from_code code =
     (if code = 0 \<or> code = 2 then NoSignal
      else if code = 1 then Up
      else if code = 3 then Initializing
      else if code = 4 then EstablishingLink
      else LinkUnknown code)"

datatype data_path = PathAtm | PathPtm | PathUnknown byte

definition DataPath_from_code :: "byte \<Rightarrow> data_path" where
  "DataPath_from_code code =
     (if code = 0 then PathAtm else if code = 1 then PathPtm else PathUnknown code)"

definition modulation_from_code :: "byte \<Rightarrow> modulation option" where
  "modulation_from_code code =
     (if code = 0 then Some AdslAnsiT1413
      else if code = 1 then Some AdslGdmt
      else if code = 2 then Some AdslGlite
      else if code = 3 then Some AdslGdmtBis
      else if code = 4 then Some Adsl2Plus
      else if code = 5 then Some AdslMultimode
      else if code = 6 then Some Vdsl2
      else if code = 7 then Some Multimode
      else None)"

definition annex_from_code :: "byte \<Rightarrow> annex option" where
  "annex_from_code code =
     (if code = 0 then Some Annex_A
      else if code = 1 then Some Annex_B
      else if code = 2 then Some Annex_I
      else if code = 3 then Some Annex_M
      else if code = 4 then Some Annex_AL
      else if code = 5 then Some Annex_ALM
      else if code = 6 then Some Annex_J
      else if code = 7 then Some Annex_BJ
      else if code = 8 then Some Annex_Auto
      else None)"

section \<open>Opcode 2: the line object\<close>

record line_metrics =
  down_rate :: u32
  up_rate :: u32
  up_output_power :: u32
  down_output_power :: u32
  up_noise_margin :: u32
  down_noise_margin :: u32
  up_attenuation :: u32
  down_attenuation :: u32
  up_attainable_rate :: u32
  down_attainable_rate :: u32
  up_crc_errors :: u32
  down_crc_errors :: u32

record line_obj =
  lo_status :: u32
  lo_link_status :: link_status
  lo_modulation_code :: byte
  lo_data_path :: data_path
  lo_annex_code :: byte
  lo_vdsl2_profile_bitmask :: u16
  lo_is_atm :: bool
  lo_uptime_secs :: u32
  lo_metrics :: line_metrics

definition line_modulation :: "line_obj \<Rightarrow> modulation option" where
  "line_modulation l = modulation_from_code (lo_modulation_code l)"

definition line_annex :: "line_obj \<Rightarrow> annex option" where
  "line_annex l = annex_from_code (lo_annex_code l)"

definition line_vdsl2_profiles :: "line_obj \<Rightarrow> vdsl2_profiles option" where
  "line_vdsl2_profiles l =
     (if lo_modulation_code l = modulation_code Vdsl2 then Some (lo_vdsl2_profile_bitmask l)
      else None)"

definition parse_line_obj :: "bytes \<Rightarrow> string + line_obj" where
  "parse_line_obj data =
     (if length data < 63 then Inl ''line obj reply is 63 B''
      else Inr
        \<lparr>lo_status = be32_at data 0x00,
         lo_link_status = LinkStatus_from_code (data ! 0x04),
         lo_modulation_code = data ! 0x05,
         lo_data_path = DataPath_from_code (data ! 0x06),
         lo_annex_code = data ! 0x07,
         lo_vdsl2_profile_bitmask = from_be16 [data ! 0x39, data ! 0x3A],
         lo_is_atm = (data ! 0x38 \<noteq> 0),
         lo_uptime_secs = be32_at data 0x3B,
         lo_metrics =
           \<lparr>down_rate = be32_at data 0x08,
            up_rate = be32_at data 0x0C,
            up_output_power = be32_at data 0x10,
            down_output_power = be32_at data 0x14,
            up_noise_margin = be32_at data 0x18,
            down_noise_margin = be32_at data 0x1C,
            up_attenuation = be32_at data 0x20,
            down_attenuation = be32_at data 0x24,
            up_attainable_rate = be32_at data 0x28,
            down_attainable_rate = be32_at data 0x2C,
            up_crc_errors = be32_at data 0x30,
            down_crc_errors = be32_at data 0x34\<rparr>\<rparr>)"

section \<open>Opcode 4: the channel statistics\<close>

record channel_stats =
  cs_status :: u32
  receive_blocks :: u32
  receive_errors :: u32
  receive_discards :: u32
  transmit_blocks :: u32
  transmit_errors :: u32
  transmit_discards :: u32

definition parse_channel_stats :: "bytes \<Rightarrow> string + channel_stats" where
  "parse_channel_stats data =
     (if length data < 28 then Inl ''channel stats reply is 28 B''
      else Inr
        \<lparr>cs_status = be32_at data 0x00,
         receive_blocks = be32_at data 0x04,
         receive_errors = be32_at data 0x08,
         receive_discards = be32_at data 0x0C,
         transmit_blocks = be32_at data 0x10,
         transmit_errors = be32_at data 0x14,
         transmit_discards = be32_at data 0x18\<rparr>)"

section \<open>Properties of the decoders\<close>

lemma modulation_from_code_iff: "modulation_from_code c = Some m \<longleftrightarrow> c = modulation_code m"
  by (cases m) (auto simp: modulation_from_code_def)

lemma annex_from_code_iff: "annex_from_code c = Some a \<longleftrightarrow> c = annex_code a"
  by (cases a) (auto simp: annex_from_code_def)

text \<open>The reverse lookups invert the codes the encoders send, and know no other code.\<close>

lemma code_lookup_roundtrip:
  "(modulation_from_code c = Some m \<longleftrightarrow> c = modulation_code m) \<and>
   (annex_from_code c' = Some a \<longleftrightarrow> c' = annex_code a)"
  by (simp add: modulation_from_code_iff annex_from_code_iff)

text \<open>The reply as the board lays it out, from the raw codes.\<close>

definition line_reply :: "u32 \<Rightarrow> byte \<Rightarrow> byte \<Rightarrow> byte \<Rightarrow> byte \<Rightarrow> line_metrics \<Rightarrow> byte \<Rightarrow> u16 \<Rightarrow> u32 \<Rightarrow> bytes" where
  "line_reply status link md path an m atm profiles uptime =
     to_be32 status @ [link, md, path, an] @
     to_be32 (down_rate m) @ to_be32 (up_rate m) @
     to_be32 (up_output_power m) @ to_be32 (down_output_power m) @
     to_be32 (up_noise_margin m) @ to_be32 (down_noise_margin m) @
     to_be32 (up_attenuation m) @ to_be32 (down_attenuation m) @
     to_be32 (up_attainable_rate m) @ to_be32 (down_attainable_rate m) @
     to_be32 (up_crc_errors m) @ to_be32 (down_crc_errors m) @
     [atm] @ to_be16 profiles @ to_be32 uptime"

lemma be32_at_skip:
  "length xs \<le> off \<Longrightarrow> be32_at (xs @ ys) off = be32_at ys (off - length xs)"
  by (simp add: be32_at_def subslice_def)

lemma be32_at_here: "be32_at (to_be32 w @ ys) 0 = w"
  by (simp add: be32_at_def subslice_def codec_dec_enc)

lemma be32_at_Cons: "be32_at (x # xs) (Suc n) = be32_at xs n"
  "be32_at (x # xs) (numeral k) = be32_at xs (pred_numeral k)"
  by (simp_all add: be32_at_def subslice_def numeral_eq_Suc)

lemmas be32_reads = be32_at_skip be32_at_here be32_at_Cons

lemma parse_line_obj_built:
  "parse_line_obj (line_reply status link md path an m atm profiles uptime @ pad) =
     Inr \<lparr>lo_status = status, lo_link_status = LinkStatus_from_code link, lo_modulation_code = md,
          lo_data_path = DataPath_from_code path, lo_annex_code = an,
          lo_vdsl2_profile_bitmask = profiles, lo_is_atm = (atm \<noteq> 0), lo_uptime_secs = uptime,
          lo_metrics = m\<rparr>"
proof -
  have "from_be16 (to_be16 profiles) = profiles" by (simp add: codec_dec_enc)
  then have "from_be16 [to_be16 profiles ! 0, to_be16 profiles ! 1] = profiles"
    by (simp add: to_be16_def)
  then show ?thesis
    by (simp add: parse_line_obj_def line_reply_def be32_reads nth_append)
qed

text \<open>A reply laid out as the board does, whatever follows it, decodes to the values it
  was laid out from; a shorter one is an error, never a panic.\<close>

lemma parse_line_obj_correct:
  "parse_line_obj (line_reply status link md path an m atm profiles uptime @ pad) =
     Inr \<lparr>lo_status = status, lo_link_status = LinkStatus_from_code link, lo_modulation_code = md,
          lo_data_path = DataPath_from_code path, lo_annex_code = an,
          lo_vdsl2_profile_bitmask = profiles, lo_is_atm = (atm \<noteq> 0), lo_uptime_secs = uptime,
          lo_metrics = m\<rparr> \<and>
   (isl (parse_line_obj data) \<longleftrightarrow> length data < 63)"
  unfolding parse_line_obj_built by (simp add: parse_line_obj_def)

text \<open>The same for the 28-byte statistics reply.\<close>

lemma parse_channel_stats_correct:
  "parse_channel_stats (to_be32 (cs_status s) @ to_be32 (receive_blocks s) @
      to_be32 (receive_errors s) @ to_be32 (receive_discards s) @ to_be32 (transmit_blocks s) @
      to_be32 (transmit_errors s) @ to_be32 (transmit_discards s) @ pad) = Inr s \<and>
   (isl (parse_channel_stats data) \<longleftrightarrow> length data < 28)"
  by (simp add: parse_channel_stats_def be32_reads)

end
