(* ===== verification/Validate.thy ===== *)
theory Validate
  imports Pack
begin

text \<open>
  The configuration guard (\<open>rbctl_proto/src/validate.rs\<close>): the annex tables and the three
  rules checked before anything is transmitted.  Rules 1 and 2 are proved to accept exactly
  the triples the tables allow, with the error of the first broken rule.
\<close>

datatype transport_hint = HintAtm | HintPtm

datatype line_config_error =
    ProfileRequiresVdsl2 byte u32
  | AnnexesNotDefined byte
  | AnnexNotInStandard byte byte char string
  | XferModeMismatch byte transport_hint transport_hint

definition valid_annexes :: "byte \<Rightarrow> string option" where
  "valid_annexes md =
     (if md = 0 \<or> md = 2 then None
      else if md = 1 then Some ''ABC''
      else if md = 3 then Some ''ABCIJM''
      else if md = 4 \<or> md = 5 \<or> md = 6 \<or> md = 7 then Some ''ABCIJLM''
      else None)"

definition annex_letters :: "byte \<Rightarrow> char list" where
  "annex_letters an =
     (if an = 0 then [CHR ''A'']
      else if an = 1 then [CHR ''B'']
      else if an = 2 then [CHR ''I'']
      else if an = 3 then [CHR ''M'']
      else if an = 4 then [CHR ''A'', CHR ''L'']
      else if an = 5 then [CHR ''A'', CHR ''L'', CHR ''M'']
      else if an = 6 then [CHR ''J'']
      else if an = 7 then [CHR ''B'', CHR ''J'']
      else [])"

definition is_adsl :: "byte \<Rightarrow> bool" where
  "is_adsl md \<longleftrightarrow> md = 0 \<or> md = 1 \<or> md = 2 \<or> md = 3 \<or> md = 4 \<or> md = 5"

definition is_vdsl2 :: "byte \<Rightarrow> bool" where
  "is_vdsl2 md \<longleftrightarrow> md = 6"

text \<open>The loop over the letters returns at the first that is not in the valid set.\<close>

primrec check_letters :: "byte \<Rightarrow> byte \<Rightarrow> string \<Rightarrow> char list \<Rightarrow> line_config_error + unit" where
  "check_letters an md valid [] = Inr ()"
| "check_letters an md valid (letter # letters) =
     (if letter \<notin> set valid then Inl (AnnexNotInStandard an md letter valid)
      else check_letters an md valid letters)"

definition validate_line_config ::
  "modulation \<Rightarrow> annex \<Rightarrow> vdsl2_profiles \<Rightarrow> line_config_error + unit" where
  "validate_line_config md an profiles =
     (let mod_code = modulation_code md;
          an_code = annex_code an;
          bitmask = profiles_bitmask profiles in
      if bitmask \<noteq> 0 \<and> \<not> (mod_code = 6 \<or> mod_code = 7) then
        Inl (ProfileRequiresVdsl2 mod_code bitmask)
      else if an_code \<noteq> 8 then
        (case valid_annexes mod_code of
           None \<Rightarrow> Inl (AnnexesNotDefined mod_code)
         | Some valid \<Rightarrow> check_letters an_code mod_code valid (annex_letters an_code))
      else Inr ())"

definition validate_xfer_mode :: "modulation \<Rightarrow> transport_hint \<Rightarrow> line_config_error + unit" where
  "validate_xfer_mode md transport =
     (let mod_code = modulation_code md in
      if is_vdsl2 mod_code \<and> transport \<noteq> HintPtm then
        Inl (XferModeMismatch mod_code HintPtm transport)
      else if is_adsl mod_code \<and> transport \<noteq> HintAtm then
        Inl (XferModeMismatch mod_code HintAtm transport)
      else Inr ())"

section \<open>Properties of the guard\<close>

lemma check_letters_ok: "check_letters an md valid ls = Inr () \<longleftrightarrow> set ls \<subseteq> set valid"
  by (induction ls) auto

lemma check_letters_error:
  "check_letters an md valid ls = Inl e \<Longrightarrow>
     \<exists>l \<in> set ls. l \<notin> set valid \<and> e = AnnexNotInStandard an md l valid"
  by (induction ls) (auto split: if_splits)

text \<open>The rules, stated over the typed configuration.\<close>

definition profile_rule :: "modulation \<Rightarrow> vdsl2_profiles \<Rightarrow> bool" where
  "profile_rule md profiles \<longleftrightarrow> profiles = 0 \<or> md = Vdsl2 \<or> md = Multimode"

definition annex_rule :: "modulation \<Rightarrow> annex \<Rightarrow> bool" where
  "annex_rule md an \<longleftrightarrow>
     an = Annex_Auto \<or>
     (case md of
        AdslAnsiT1413 \<Rightarrow> False
      | AdslGlite \<Rightarrow> False
      | AdslGdmt \<Rightarrow> an = Annex_A \<or> an = Annex_B
      | AdslGdmtBis \<Rightarrow> an \<noteq> Annex_AL \<and> an \<noteq> Annex_ALM
      | _ \<Rightarrow> True)"

lemma profiles_bitmask_zero: "profiles_bitmask p = 0 \<longleftrightarrow> p = 0"
  by (simp add: profiles_bitmask_def flip: ucast_16_32_inject [of p 0])

lemma validate_line_config_ok:
  "validate_line_config md an pr = Inr () \<longleftrightarrow> profile_rule md pr \<and> annex_rule md an"
proof -
  have rule2: "(annex_code an \<noteq> 8 \<longrightarrow>
      (\<exists>v. valid_annexes (modulation_code md) = Some v \<and> set (annex_letters (annex_code an)) \<subseteq> set v))
      \<longleftrightarrow> annex_rule md an"
    by (cases md; cases an) (simp_all add: valid_annexes_def annex_letters_def annex_rule_def)
  have rule1: "(profiles_bitmask pr \<noteq> 0 \<and> \<not> (modulation_code md = 6 \<or> modulation_code md = 7))
      \<longleftrightarrow> \<not> profile_rule md pr"
    by (cases md) (simp_all add: profile_rule_def profiles_bitmask_zero)
  show ?thesis
    unfolding validate_line_config_def Let_def rule1 rule2 [symmetric]
    by (auto simp: check_letters_ok split: option.splits)
qed

text \<open>C12. \<open>validate_line_config\<close> accepts a configuration exactly when it has no VDSL2 profile
  bits or a VDSL2-capable modulation, and its annex is automatic or every letter of it is
  defined for the modulation; a broken profile rule is reported before the annex rule.\<close>

theorem validate_line_config_correct:
  "(validate_line_config md an pr = Inr () \<longleftrightarrow> profile_rule md pr \<and> annex_rule md an) \<and>
   ((\<exists>m b. validate_line_config md an pr = Inl (ProfileRequiresVdsl2 m b)) \<longleftrightarrow>
      \<not> profile_rule md pr)"
proof -
  have "(profiles_bitmask pr \<noteq> 0 \<and> \<not> (modulation_code md = 6 \<or> modulation_code md = 7))
      \<longleftrightarrow> \<not> profile_rule md pr"
    by (cases md) (simp_all add: profile_rule_def profiles_bitmask_zero)
  then show ?thesis
    by (auto simp: validate_line_config_ok) (auto simp: validate_line_config_def Let_def
        split: option.splits if_splits dest!: check_letters_error)
qed

text \<open>\<open>validate_xfer_mode\<close> accepts exactly VDSL2 over PTM, the ADSL modulations over ATM,
  and Multimode over either, and its error names the transport that was expected.\<close>

lemma validate_xfer_mode_correct:
  "validate_xfer_mode md tr =
     (if md = Multimode \<or> (tr = HintPtm \<longleftrightarrow> md = Vdsl2) then Inr ()
      else Inl (XferModeMismatch (modulation_code md)
                  (if md = Vdsl2 then HintPtm else HintAtm) tr))"
  by (cases md; cases tr) (simp_all add: validate_xfer_mode_def is_vdsl2_def is_adsl_def)

end
