(* ===== verification/RustStr.thy ===== *)
theory RustStr
  imports Prelude "HOL-Library.Sublist"
begin

text \<open>
  The string functions of Rust's standard library that the program uses, on strings as
  lists of their UTF-8 bytes: trimming and splitting at Unicode white space, lines, decimal
  and hexadecimal parsing with Rust's rules for signs, empty strings and overflow, and the
  formatting of numbers.  The laws that formatted numbers parse back and that joined lines
  split again are what the protocol round trips use.
\<close>

section \<open>Bytes and strings\<close>

definition str_of_bytes :: "bytes \<Rightarrow> string" where
  "str_of_bytes bs = map (\<lambda>b. char_of (unat b)) bs"

definition bytes_of_str :: "string \<Rightarrow> bytes" where
  "bytes_of_str s = map (\<lambda>c. of_nat (of_char c)) s"

lemma bytes_of_str_of_bytes: "bytes_of_str (str_of_bytes bs) = bs"
proof -
  have "(of_nat (of_char (char_of (unat b) :: char)) :: byte) = b" for b :: byte
    using unsigned_less [of b, where ?'a = nat] by simp
  then show ?thesis by (induction bs) (simp_all add: bytes_of_str_def str_of_bytes_def)
qed

lemma char_of_byte: "char_of (unat (of_nat (of_char c) :: byte)) = c"
  by (simp add: unsigned_of_nat take_bit_eq_mod of_char_mod_256)

lemma str_of_bytes_of_str: "str_of_bytes (bytes_of_str s) = s"
  by (induction s) (simp_all add: str_of_bytes_def bytes_of_str_def char_of_byte)

lemma length_str_of_bytes [simp]: "length (str_of_bytes bs) = length bs"
  by (simp add: str_of_bytes_def)

text \<open>\<open>core::str::from_utf8\<close>: shortest forms only, no surrogates, nothing above U+10FFFF.\<close>

definition utf8_cont :: "byte \<Rightarrow> bool" where
  "utf8_cont b \<longleftrightarrow> 0x80 \<le> b \<and> b \<le> 0xBF"

fun utf8_valid :: "bytes \<Rightarrow> bool" where
  "utf8_valid [] = True"
| "utf8_valid (a # bs) =
     (if a < 0x80 then utf8_valid bs
      else if 0xC2 \<le> a \<and> a \<le> 0xDF then
        (case bs of b # r \<Rightarrow> utf8_cont b \<and> utf8_valid r | _ \<Rightarrow> False)
      else if 0xE0 \<le> a \<and> a \<le> 0xEF then
        (case bs of b # c # r \<Rightarrow>
           (if a = 0xE0 then 0xA0 \<le> b \<and> b \<le> 0xBF
            else if a = 0xED then 0x80 \<le> b \<and> b \<le> 0x9F else utf8_cont b) \<and>
           utf8_cont c \<and> utf8_valid r | _ \<Rightarrow> False)
      else if 0xF0 \<le> a \<and> a \<le> 0xF4 then
        (case bs of b # c # d # r \<Rightarrow>
           (if a = 0xF0 then 0x90 \<le> b \<and> b \<le> 0xBF
            else if a = 0xF4 then 0x80 \<le> b \<and> b \<le> 0x8F else utf8_cont b) \<and>
           utf8_cont c \<and> utf8_cont d \<and> utf8_valid r | _ \<Rightarrow> False)
      else False)"

section \<open>White space\<close>

text \<open>The encodings of the characters with the Unicode property \<open>White_Space\<close>.\<close>

definition ws_encodings :: "string list" where
  "ws_encodings =
     [[CHR 0x09], [CHR 0x0A], [CHR 0x0B], [CHR 0x0C], [CHR 0x0D], [CHR 0x20],
      [CHR 0xC2, CHR 0x85], [CHR 0xC2, CHR 0xA0], [CHR 0xE1, CHR 0x9A, CHR 0x80],
      [CHR 0xE2, CHR 0x80, CHR 0x80], [CHR 0xE2, CHR 0x80, CHR 0x81], [CHR 0xE2, CHR 0x80, CHR 0x82],
      [CHR 0xE2, CHR 0x80, CHR 0x83], [CHR 0xE2, CHR 0x80, CHR 0x84], [CHR 0xE2, CHR 0x80, CHR 0x85],
      [CHR 0xE2, CHR 0x80, CHR 0x86], [CHR 0xE2, CHR 0x80, CHR 0x87], [CHR 0xE2, CHR 0x80, CHR 0x88],
      [CHR 0xE2, CHR 0x80, CHR 0x89], [CHR 0xE2, CHR 0x80, CHR 0x8A], [CHR 0xE2, CHR 0x80, CHR 0xA8],
      [CHR 0xE2, CHR 0x80, CHR 0xA9], [CHR 0xE2, CHR 0x80, CHR 0xAF], [CHR 0xE2, CHR 0x81, CHR 0x9F],
      [CHR 0xE3, CHR 0x80, CHR 0x80]]"

primrec strip_first :: "string list \<Rightarrow> string \<Rightarrow> string option" where
  "strip_first [] s = None"
| "strip_first (w # ws) s = (if prefix w s then Some (drop (length w) s) else strip_first ws s)"

definition strip_ws :: "string \<Rightarrow> string option" where
  "strip_ws s = strip_first ws_encodings s"

definition strip_ws_rev :: "string \<Rightarrow> string option" where
  "strip_ws_rev s = strip_first (map rev ws_encodings) s"

lemma strip_first_shorter:
  "strip_first ws s = Some r \<Longrightarrow> \<forall>w \<in> set ws. w \<noteq> [] \<Longrightarrow> length r < length s"
  by (induction ws) (auto split: if_splits dest: prefix_length_le simp: prefix_def)

lemma strip_ws_shorter: "strip_ws s = Some r \<Longrightarrow> length r < length s"
  unfolding strip_ws_def by (erule strip_first_shorter) (simp add: ws_encodings_def)

lemma strip_ws_rev_shorter: "strip_ws_rev s = Some r \<Longrightarrow> length r < length s"
  unfolding strip_ws_rev_def by (erule strip_first_shorter) (simp add: ws_encodings_def)

function trim_start :: "string \<Rightarrow> string" where
  "trim_start s = (case strip_ws s of None \<Rightarrow> s | Some r \<Rightarrow> trim_start r)"
  by auto
termination by (relation "measure length") (auto dest: strip_ws_shorter)

function trim_rev :: "string \<Rightarrow> string" where
  "trim_rev s = (case strip_ws_rev s of None \<Rightarrow> s | Some r \<Rightarrow> trim_rev r)"
  by auto
termination by (relation "measure length") (auto dest: strip_ws_rev_shorter)

declare trim_start.simps [simp del] trim_rev.simps [simp del]

definition trim :: "string \<Rightarrow> string" where
  "trim s = rev (trim_rev (rev (trim_start s)))"

text \<open>A string whose first and last byte begin and end no white space is left alone.\<close>

definition solid :: "char \<Rightarrow> bool" where
  "solid c \<longleftrightarrow> 0x21 \<le> (of_char c :: nat) \<and> (of_char c :: nat) < 0x80"

lemma strip_first_None:
  "\<forall>w \<in> set ws. w \<noteq> [] \<and> hd w \<noteq> c \<Longrightarrow> strip_first ws (c # s) = None"
  by (induction ws) (auto simp: prefix_Cons neq_Nil_conv)

lemma ws_not_solid:
  "\<forall>w \<in> set ws_encodings. w \<noteq> [] \<and> \<not> solid (hd w) \<and> \<not> solid (last w)"
  by (simp add: ws_encodings_def solid_def)

lemma solid_no_ws: "solid c \<Longrightarrow> strip_ws (c # s) = None"
  unfolding strip_ws_def using ws_not_solid by (intro strip_first_None) auto

lemma solid_no_ws_rev: "solid c \<Longrightarrow> strip_ws_rev (c # s) = None"
  unfolding strip_ws_rev_def using ws_not_solid by (intro strip_first_None) (auto simp: hd_rev)

lemma strip_ws_Nil [simp]: "strip_ws [] = None" "strip_ws_rev [] = None"
  by (simp_all add: strip_ws_def strip_ws_rev_def ws_encodings_def)

lemma trim_start_solid: "s = [] \<or> solid (hd s) \<Longrightarrow> trim_start s = s"
  by (subst trim_start.simps, cases s) (simp_all add: solid_no_ws)

lemma trim_rev_solid: "s = [] \<or> solid (hd s) \<Longrightarrow> trim_rev s = s"
  by (subst trim_rev.simps, cases s) (simp_all add: solid_no_ws_rev)

lemma trim_solid:
  assumes "s = [] \<or> solid (hd s) \<and> solid (last s)"
  shows "trim s = s"
proof -
  have "trim_start s = s" and "trim_rev (rev s) = rev s"
    using assms by (auto intro!: trim_start_solid trim_rev_solid simp: hd_rev)
  then show ?thesis by (simp add: trim_def)
qed

lemma trim_newline:
  assumes "s \<noteq> []" and "solid (hd s)" and "solid (last s)"
  shows "trim (s @ [CHR 0x0A]) = s"
proof -
  have "trim_start (s @ [CHR 0x0A]) = s @ [CHR 0x0A]" and "trim_rev (rev s) = rev s"
    using assms by (auto intro!: trim_start_solid trim_rev_solid simp: hd_rev)
  moreover have "strip_ws_rev (CHR 0x0A # rev s) = Some (rev s)"
    by (simp add: strip_ws_rev_def ws_encodings_def)
  then have "trim_rev (CHR 0x0A # rev s) = trim_rev (rev s)"
    by (subst trim_rev.simps) simp
  ultimately show ?thesis by (simp add: trim_def)
qed

lemma trim_all_solid: "\<forall>c \<in> set s. solid c \<Longrightarrow> trim s = s"
  by (cases s) (auto intro: trim_solid)

lemma trim_start_idem: "trim_start (trim_start s) = trim_start s"
proof (induction s rule: trim_start.induct)
  case (1 s)
  then show ?case
    by (cases "strip_ws s") (simp_all add: trim_start.simps [of s])
qed

section \<open>Splitting\<close>

function split_ws_from :: "string \<Rightarrow> string \<Rightarrow> string list" where
  "split_ws_from acc s =
     (case strip_ws s of
        Some r \<Rightarrow> (if acc = [] then [] else [rev acc]) @ split_ws_from [] r
      | None \<Rightarrow>
          (case s of
             [] \<Rightarrow> (if acc = [] then [] else [rev acc])
           | c # s' \<Rightarrow> split_ws_from (c # acc) s'))"
  by auto
termination by (relation "measure (length \<circ> snd)") (auto dest: strip_ws_shorter)

declare split_ws_from.simps [simp del]

definition split_whitespace :: "string \<Rightarrow> string list" where
  "split_whitespace s = split_ws_from [] s"

text \<open>\<open>split_once\<close>, \<open>strip_prefix\<close>, \<open>starts_with\<close>, \<open>lines\<close> and \<open>split\<close> on one character.\<close>

fun split_once :: "string \<Rightarrow> string \<Rightarrow> (string \<times> string) option" where
  "split_once sep [] = (if sep = [] then Some ([], []) else None)"
| "split_once sep (c # s) =
     (if prefix sep (c # s) then Some ([], drop (length sep) (c # s))
      else case split_once sep s of None \<Rightarrow> None | Some (a, b) \<Rightarrow> Some (c # a, b))"

definition strip_prefix_str :: "string \<Rightarrow> string \<Rightarrow> string option" where
  "strip_prefix_str p s = (if prefix p s then Some (drop (length p) s) else None)"

definition starts_with :: "string \<Rightarrow> string \<Rightarrow> bool" where
  "starts_with s p \<longleftrightarrow> prefix p s"

fun split_char :: "char \<Rightarrow> string \<Rightarrow> string list" where
  "split_char sep [] = [[]]"
| "split_char sep (c # s) =
     (if c = sep then [] # split_char sep s
      else case split_char sep s of [] \<Rightarrow> [[c]] | p # ps \<Rightarrow> (c # p) # ps)"

definition nl :: char where "nl = CHR 0x0A"
definition cr :: char where "cr = CHR 0x0D"

definition strip_cr :: "string \<Rightarrow> string" where
  "strip_cr s = (if s \<noteq> [] \<and> last s = cr then butlast s else s)"

text \<open>Each terminated piece loses its newline and one carriage return before it; the piece
  after the last newline is a line as it is, unless it is empty.\<close>

definition rust_lines :: "string \<Rightarrow> string list" where
  "rust_lines s =
     (let ps = split_char nl s in
      map strip_cr (butlast ps) @ (if last ps = [] then [] else [last ps]))"

lemma split_char_not_Nil [simp]: "split_char sep s \<noteq> []"
  by (induction s) (auto split: list.splits)

lemma split_char_app:
  "sep \<notin> set l \<Longrightarrow> split_char sep (l @ sep # s) = l # split_char sep s"
  by (induction l) auto

lemma split_char_single: "sep \<notin> set l \<Longrightarrow> split_char sep l = [l]"
  by (induction l) auto

lemma split_char_concat:
  "sep \<notin> set l \<Longrightarrow> (\<forall>x \<in> set ls. sep \<notin> set x) \<Longrightarrow>
   split_char sep (concat (map (\<lambda>x. x @ [sep]) ls) @ l) = ls @ [l]"
  by (induction ls) (simp_all add: split_char_single split_char_app)

text \<open>A line that a writer may join: no newline inside, no carriage return at the end.\<close>

definition line_ok :: "string \<Rightarrow> bool" where
  "line_ok l \<longleftrightarrow> nl \<notin> set l \<and> (l = [] \<or> last l \<noteq> cr)"

lemma rust_lines_join:
  assumes "\<forall>x \<in> set ls. line_ok x" and "nl \<notin> set l" and "l \<noteq> []"
  shows "rust_lines (concat (map (\<lambda>x. x @ [nl]) ls) @ l) = ls @ [l]"
proof -
  have "split_char nl (concat (map (\<lambda>x. x @ [nl]) ls) @ l) = ls @ [l]"
    using assms by (intro split_char_concat) (auto simp: line_ok_def)
  moreover have "map strip_cr ls = ls"
    using assms(1) by (intro map_idI) (auto simp: strip_cr_def line_ok_def)
  ultimately show ?thesis using assms(3) by (simp add: rust_lines_def)
qed

lemma split_once_here: "split_once sep (k @ sep @ v) = Some (k, v)"
  if "sep \<noteq> []" and "hd sep \<notin> set k"
  using that
proof (induction k)
  case Nil
  then show ?case by (cases sep) (simp_all add: prefix_def)
next
  case (Cons c k)
  then have "\<not> prefix sep (c # k @ sep @ v)" by (cases sep) auto
  then show ?case using Cons by simp
qed

section \<open>Numbers\<close>

definition digit_value :: "nat \<Rightarrow> char \<Rightarrow> nat option" where
  "digit_value radix c =
     (let n = of_char c :: nat;
          d = (if 48 \<le> n \<and> n \<le> 57 then n - 48
               else if 97 \<le> n \<and> n \<le> 122 then n - 87
               else if 65 \<le> n \<and> n \<le> 90 then n - 55
               else 36)
      in if d < radix then Some d else None)"

primrec parse_digits :: "nat \<Rightarrow> nat \<Rightarrow> string \<Rightarrow> nat option" where
  "parse_digits radix acc [] = Some acc"
| "parse_digits radix acc (c # s) =
     (case digit_value radix c of
        None \<Rightarrow> None
      | Some d \<Rightarrow> parse_digits radix (acc * radix + d) s)"

text \<open>\<open>uN::from_str_radix\<close> (\<open>bound\<close> is one more than the type's maximum): a leading plus is
  accepted, the empty string and a lone sign are errors, and so is a value out of range.\<close>

definition parse_unsigned :: "nat \<Rightarrow> nat \<Rightarrow> string \<Rightarrow> nat option" where
  "parse_unsigned radix bound s =
     (let digits = (if 2 \<le> length s \<and> hd s = CHR ''+'' then tl s else s) in
      if digits = [] then None
      else case parse_digits radix 0 digits of
             None \<Rightarrow> None
           | Some n \<Rightarrow> if n < bound then Some n else None)"

definition parse_u8 :: "string \<Rightarrow> byte option" where
  "parse_u8 s = map_option of_nat (parse_unsigned 10 (2 ^ 8) s)"

definition parse_u16 :: "string \<Rightarrow> u16 option" where
  "parse_u16 s = map_option of_nat (parse_unsigned 10 (2 ^ 16) s)"

definition parse_u32 :: "string \<Rightarrow> u32 option" where
  "parse_u32 s = map_option of_nat (parse_unsigned 10 (2 ^ 32) s)"

definition parse_u64 :: "string \<Rightarrow> u64 option" where
  "parse_u64 s = map_option of_nat (parse_unsigned 10 (2 ^ 64) s)"

definition parse_u8_hex :: "string \<Rightarrow> byte option" where
  "parse_u8_hex s = map_option of_nat (parse_unsigned 16 (2 ^ 8) s)"

definition parse_i32 :: "string \<Rightarrow> int option" where
  "parse_i32 s =
     (if 2 \<le> length s \<and> hd s = CHR ''-'' then
        (case parse_digits 10 0 (tl s) of
           None \<Rightarrow> None
         | Some n \<Rightarrow> if n \<le> 2 ^ 31 then Some (- int n) else None)
      else map_option int (parse_unsigned 10 (2 ^ 31) s))"

definition digit_char :: "nat \<Rightarrow> char" where
  "digit_char d = (if d < 10 then char_of (48 + d) else char_of (55 + d))"

function show_radix :: "nat \<Rightarrow> nat \<Rightarrow> string" where
  "show_radix radix n =
     (if n < radix \<or> radix < 2 then [digit_char n]
      else show_radix radix (n div radix) @ [digit_char (n mod radix)])"
  by auto
termination by (relation "measure snd") auto

declare show_radix.simps [simp del]

definition show_nat :: "nat \<Rightarrow> string" where
  "show_nat n = show_radix 10 n"

definition show_int :: "int \<Rightarrow> string" where
  "show_int i = (if i < 0 then CHR ''-'' # show_nat (nat (- i)) else show_nat (nat i))"

definition show_hex8 :: "u32 \<Rightarrow> string" where
  "show_hex8 w = (let s = show_radix 16 (unat w) in replicate (8 - length s) (CHR ''0'') @ s)"

definition show_bool :: "bool \<Rightarrow> string" where
  "show_bool b = (if b then ''true'' else ''false'')"

text \<open>Formatting and parsing are inverse.\<close>

lemma digit_value_char: "d < 10 \<Longrightarrow> digit_value 10 (digit_char d) = Some d"
  by (simp add: digit_value_def digit_char_def Let_def)

lemma digit_char_solid: "d < 10 \<Longrightarrow> solid (digit_char d) \<and> digit_char d \<noteq> CHR ''-'' \<and> digit_char d \<noteq> CHR ''+''"
proof -
  assume d: "d < 10"
  then have "(of_char (digit_char d) :: nat) = 48 + d" by (simp add: digit_char_def)
  with d show ?thesis by (auto simp: solid_def)
qed

lemma parse_digits_append:
  "parse_digits radix acc (s @ t) =
     (case parse_digits radix acc s of None \<Rightarrow> None | Some a \<Rightarrow> parse_digits radix a t)"
  by (induction s arbitrary: acc) (auto split: option.splits)

lemma parse_show_digits: "parse_digits 10 0 (show_radix 10 n) = Some n"
proof (induction n rule: less_induct)
  case (less n)
  then show ?case
    by (cases "n < 10") (simp_all add: show_radix.simps [of 10 n] digit_value_char parse_digits_append)
qed

lemma show_radix_solid:
  "show_radix 10 n \<noteq> [] \<and> (\<forall>c \<in> set (show_radix 10 n). solid c \<and> c \<noteq> CHR ''-'' \<and> c \<noteq> CHR ''+'')"
proof (induction n rule: less_induct)
  case (less n)
  show ?case
    using less.IH [of "n div 10"]
    by (cases "n < 10") (auto simp: show_radix.simps [of 10 n] digit_char_solid)
qed

lemma parse_show_unsigned:
  assumes "n < bound"
  shows "parse_unsigned 10 bound (show_nat n) = Some n"
proof -
  obtain c r where s: "show_nat n = c # r" and "c \<noteq> CHR ''+''"
    using show_radix_solid [of n] by (cases "show_nat n") (auto simp: show_nat_def)
  then show ?thesis
    using assms parse_show_digits [of n]
    by (simp add: parse_unsigned_def show_nat_def)
qed

lemma unat_bounds: "unat (a :: byte) < 2 ^ 8" "unat (b :: u16) < 2 ^ 16"
    "unat (c :: u32) < 2 ^ 32" "unat (d :: u64) < 2 ^ 64"
  using unsigned_less [of a, where ?'a = nat] unsigned_less [of b, where ?'a = nat]
    unsigned_less [of c, where ?'a = nat] unsigned_less [of d, where ?'a = nat] by simp_all

lemma parse_show_word:
  "parse_u8 (show_nat (unat a)) = Some a" "parse_u16 (show_nat (unat b)) = Some b"
  "parse_u32 (show_nat (unat c)) = Some c" "parse_u64 (show_nat (unat d)) = Some d"
  using unat_bounds
  by (simp_all only: parse_u8_def parse_u16_def parse_u32_def parse_u64_def parse_show_unsigned)
    simp_all

lemma parse_show_int:
  assumes "- (2 ^ 31) \<le> i" and "i < 2 ^ 31"
  shows "parse_i32 (show_int i) = Some i"
proof (cases "i < 0")
  case True
  have "show_nat (nat (- i)) \<noteq> []" using show_radix_solid by (simp add: show_nat_def)
  then have "2 \<le> length (CHR ''-'' # show_nat (nat (- i)))"
    by (cases "show_nat (nat (- i))") simp_all
  then show ?thesis
    using True assms parse_show_digits [of "nat (- i)"]
    by (simp add: parse_i32_def show_int_def) (simp add: show_nat_def)
next
  case False
  have "hd (show_nat (nat i)) \<noteq> CHR ''-''"
    using show_radix_solid [of "nat i"] by (cases "show_nat (nat i)") (auto simp: show_nat_def)
  then show ?thesis
    using False assms parse_show_unsigned [of "nat i" "2 ^ 31"]
    by (simp add: parse_i32_def show_int_def)
qed

lemma show_nat_solid: "c \<in> set (show_nat n) \<Longrightarrow> solid c" "show_nat n \<noteq> []"
  using show_radix_solid [of n] by (simp_all add: show_nat_def)

lemma trim_show_nat [simp]: "trim (show_nat n) = show_nat n"
  by (rule trim_all_solid) (simp add: show_nat_solid)

end
