(* ===== verification/Firmware.thy ===== *)
theory Firmware
  imports Wire RustStr
begin

text \<open>
  The firmware helpers of the protocol library (\<open>rbctl_proto/src/firmware.rs\<close>): the stage
  payloads of opcode 8, the \<open>2RDH\<close> header parser and the image check the daemon runs
  before an upgrade.
\<close>

definition STAGE_ANNOUNCE :: byte where "STAGE_ANNOUNCE = 0"
definition STAGE_STREAM :: byte where "STAGE_STREAM = 1"
definition STAGE_VERIFY :: byte where "STAGE_VERIFY = 2"
definition STAGE_COMPLETE :: byte where "STAGE_COMPLETE = 3"
definition CHUNK_SIZE :: nat where "CHUNK_SIZE = 1024"
definition TIMEOUT_ANNOUNCE_MS :: nat where "TIMEOUT_ANNOUNCE_MS = 1500"
definition RETRIES_ANNOUNCE :: byte where "RETRIES_ANNOUNCE = 5"
definition TIMEOUT_STREAM_MS :: nat where "TIMEOUT_STREAM_MS = 300"
definition RETRIES_STREAM :: byte where "RETRIES_STREAM = 20"
definition TIMEOUT_VERIFY_MS :: nat where "TIMEOUT_VERIFY_MS = 60000"
definition RETRIES_VERIFY :: byte where "RETRIES_VERIFY = 20"
definition TIMEOUT_COMPLETE_MS :: nat where "TIMEOUT_COMPLETE_MS = 60000"
definition RETRIES_COMPLETE :: byte where "RETRIES_COMPLETE = 20"
definition MIN_IMAGE_SIZE :: nat where "MIN_IMAGE_SIZE = 0x200000"
definition MAX_IMAGE_SIZE :: nat where "MAX_IMAGE_SIZE = 0x800000"
definition MAGIC_2RDH :: bytes where "MAGIC_2RDH = [0x32, 0x52, 0x44, 0x48]"

lemmas stage_defs = STAGE_ANNOUNCE_def STAGE_STREAM_def STAGE_VERIFY_def STAGE_COMPLETE_def
lemmas image_size_defs = MIN_IMAGE_SIZE_def MAX_IMAGE_SIZE_def

definition announce_payload :: "u32 \<Rightarrow> bytes" where
  "announce_payload image_size =
     [STAGE_ANNOUNCE, ucast (drop_bit 24 image_size), ucast (drop_bit 16 image_size),
      ucast (drop_bit 8 image_size), ucast image_size]"

definition verify_payload :: bytes where
  "verify_payload = [STAGE_VERIFY]"

definition complete_payload :: bytes where
  "complete_payload = [STAGE_COMPLETE]"

record fw_header =
  fh_header_len :: u32
  fh_total_len :: u32
  fh_crc32 :: u32
  fh_version :: bytes
  fh_kernel_len :: u32
  fh_rootfs_len :: u32
  fh_load_addr :: u32

definition parse_header :: "bytes \<Rightarrow> string + fw_header" where
  "parse_header data =
     (if length data < 0x100 then Inl ''file too small for 2RDH header (need 256 bytes)''
      else if take 4 data \<noteq> MAGIC_2RDH then Inl ''not a 2RDH firmware image''
      else
        let header_len = be32_at data 0x04 in
        if header_len \<noteq> 0x100 then Inl ''2RDH header_len is not 256''
        else Inr
          \<lparr>fh_header_len = header_len,
           fh_total_len = be32_at data 0x08,
           fh_crc32 = be32_at data 0x0C,
           fh_version = subslice 0x10 (0x2F - 0x10) data,
           fh_kernel_len = be32_at data 0x50,
           fh_rootfs_len = be32_at data 0x54,
           fh_load_addr = be32_at data 0x7C\<rparr>)"

definition validate_image :: "bytes \<Rightarrow> string + fw_header" where
  "validate_image data =
     (case parse_header data of
        Inl e \<Rightarrow> Inl e
      | Inr hdr \<Rightarrow>
          if length data < MIN_IMAGE_SIZE then Inl ''image too small (must be >= 2 MB)''
          else if MAX_IMAGE_SIZE < length data then Inl ''image too large (must be <= 8 MB)''
          else if unat (fh_total_len hdr) \<noteq> length data then
            Inl ''2RDH total_len does not match file size''
          else Inr hdr)"

definition version_str :: "fw_header \<Rightarrow> string" where
  "version_str hdr =
     (let v = takeWhile (\<lambda>b. b \<noteq> 0) (fh_version hdr) in
      if utf8_valid v then str_of_bytes v else ''(invalid utf8)'')"

section \<open>Properties\<close>

lemma announce_payload_eq: "announce_payload n = 0 # to_be32 n"
  by (simp add: announce_payload_def to_be32_def stage_defs)

text \<open>The header an image builder writes, with 256 bytes and the fields where the format has
  them; \<open>a\<close>, \<open>b\<close> and \<open>c\<close> are the bytes the parser does not read.\<close>

definition header_bytes :: "fw_header \<Rightarrow> bytes \<Rightarrow> bytes \<Rightarrow> bytes \<Rightarrow> bytes" where
  "header_bytes h a b c =
     MAGIC_2RDH @ to_be32 (fh_header_len h) @ to_be32 (fh_total_len h) @ to_be32 (fh_crc32 h) @
     fh_version h @ a @ to_be32 (fh_kernel_len h) @ to_be32 (fh_rootfs_len h) @ b @
     to_be32 (fh_load_addr h) @ c"

lemma parse_header_built:
  assumes "length (fh_version h) = 31" "length a = 33" "length b = 36" "length c = 128"
  shows "parse_header (header_bytes h a b c @ body) =
    (if fh_header_len h = 0x100 then Inr h else Inl ''2RDH header_len is not 256'')"
  using assms
  by (simp add: parse_header_def header_bytes_def MAGIC_2RDH_def be32_at_def subslice_def
      codec_dec_enc Let_def)

text \<open>An image is accepted exactly when it starts with the magic, announces a 256-byte
  header, is between 2 and 8 MB long and announces its own length; the header returned is
  the one its first 256 bytes hold.\<close>

lemma validate_image_accepts:
  "(\<exists>hdr. validate_image data = Inr hdr) \<longleftrightarrow>
     take 4 data = MAGIC_2RDH \<and> be32_at data 4 = 0x100 \<and>
     0x200000 \<le> length data \<and> length data \<le> 0x800000 \<and>
     unat (be32_at data 8) = length data"
  by (auto simp: validate_image_def parse_header_def image_size_defs Let_def)

lemma validate_image_length:
  "validate_image data = Inr hdr \<Longrightarrow> 0x200000 \<le> length data \<and> length data \<le> 0x800000"
  by (auto simp: validate_image_def image_size_defs split: sum.splits if_splits)

text \<open>Parsing the header an image builder wrote gives the header back, and the version
  string is the text before the first NUL, at most 31 bytes.\<close>

lemma parse_header_roundtrip:
  assumes "length (fh_version h) = 31" "length a = 33" "length b = 36" "length c = 128"
    and "fh_header_len h = 0x100"
  shows "parse_header (header_bytes h a b c @ body) = Inr h \<and> length (version_str h) \<le> 31"
proof -
  have "length (takeWhile (\<lambda>b. b \<noteq> 0) (fh_version h)) \<le> 31"
    using assms(1) by (metis length_takeWhile_le)
  then have "length (version_str h) \<le> 31" by (simp add: version_str_def Let_def)
  with assms show ?thesis by (simp add: parse_header_built)
qed

definition sample_header :: fw_header where
  "sample_header = \<lparr>fh_header_len = 256, fh_total_len = 0x200000, fh_crc32 = 5,
     fh_version = [0x37, 0x2E, 0x33] @ replicate 28 0, fh_kernel_len = 1000,
     fh_rootfs_len = 2000, fh_load_addr = 0x80002000\<rparr>"

lemma parse_header_roundtrip_witness:
  "parse_header (header_bytes sample_header (replicate 33 0) (replicate 36 0) (replicate 128 0) @ [])
     = Inr sample_header \<and> version_str sample_header = ''7.3''"
  using parse_header_roundtrip [of sample_header "replicate 33 0" "replicate 36 0" "replicate 128 0" "[]"]
  by (simp add: sample_header_def version_str_def str_of_bytes_def char_of_def bit_0)

end
