(* ===== verification/Board.thy ===== *)
theory Board
  imports Frame Unpack Validate Firmware
begin

text \<open>
  The board controller (\<open>rbctl_dsl/src/board.rs\<close>): one request is a command frame sent up
  to \<open>retries + 1\<close> times, each time followed by draining the receive queue until a matching
  reply, a timeout or an error.  The transport trait is a record of operations over its
  state; whatever implements it is a parameter.  \<open>recv\<close> returns the bytes it put at the
  front of the buffer (the code reads no others).  The receive loop has no bound of its
  own, so it is a partial function, and a request that never returns is \<open>Diverges\<close>.
  Durations are milliseconds.
\<close>

section \<open>Transport and controller state\<close>

datatype io_error = WouldBlock | OtherIo string

record 't transport =
  tr_send :: "'t \<Rightarrow> bytes \<Rightarrow> (io_error + unit) \<times> 't"
  tr_recv :: "'t \<Rightarrow> nat \<Rightarrow> (io_error + bytes) \<times> 't"
  tr_local_mac :: "'t \<Rightarrow> bytes"
  tr_set_timeout :: "'t \<Rightarrow> nat \<Rightarrow> (io_error + unit) \<times> 't"

datatype board_error = Timeout | BadFrame string | BadResponse string | Io io_error

record 't board =
  b_sock :: 't
  b_mac :: bytes
  b_seq :: u32
  b_timeout :: nat
  b_retries :: byte

type_synonym ('a, 't) board_result = "((board_error + 'a) \<times> 't board) outcome"

definition DEFAULT_TIMEOUT :: nat where "DEFAULT_TIMEOUT = 2000"
definition DEFAULT_RETRIES :: byte where "DEFAULT_RETRIES = 3"
definition MAX_PAYLOAD :: nat where "MAX_PAYLOAD = 128"
definition TX_BUF_SIZE :: nat where "TX_BUF_SIZE = HEADER_LEN + MAX_PAYLOAD + MIN_FRAME"
definition RX_BUF_SIZE :: nat where "RX_BUF_SIZE = HEADER_LEN + MAX_PAYLOAD + MIN_FRAME"

lemmas board_consts = DEFAULT_TIMEOUT_def DEFAULT_RETRIES_def MAX_PAYLOAD_def TX_BUF_SIZE_def
  RX_BUF_SIZE_def HEADER_LEN_def MIN_FRAME_def

definition Board_new :: "'t transport \<Rightarrow> 't \<Rightarrow> 't board" where
  "Board_new T sock =
     \<lparr>b_sock = sock, b_mac = tr_local_mac T sock, b_seq = SeqCounter_new,
      b_timeout = DEFAULT_TIMEOUT, b_retries = DEFAULT_RETRIES\<rparr>"

definition board_set_timeout :: "'t transport \<Rightarrow> nat \<Rightarrow> 't board \<Rightarrow> 't board" where
  "board_set_timeout T timeout b =
     (let b = b\<lparr>b_timeout := timeout\<rparr>
      in b\<lparr>b_sock := snd (tr_set_timeout T (b_sock b) timeout)\<rparr>)"

definition board_set_retries :: "byte \<Rightarrow> 't board \<Rightarrow> 't board" where
  "board_set_retries retries b = b\<lparr>b_retries := retries\<rparr>"

section \<open>The request\<close>

datatype drain_end = Matched bytes | BadChecksum | TimedOut | RecvFailed io_error | RecvOverran

text \<open>A received buffer that the loop passes over.\<close>

definition skipped :: "byte \<Rightarrow> u32 \<Rightarrow> bytes \<Rightarrow> bool" where
  "skipped subtype seq data =
     (case frame_parse data of
        None \<Rightarrow> True
      | Some f \<Rightarrow> \<not> frame_is_response f \<or> frame_subtype f \<noteq> subtype \<or> frame_seq f \<noteq> seq)"

partial_function (option) drain ::
  "'t transport \<Rightarrow> 'd crc_engine \<Rightarrow> byte \<Rightarrow> u32 \<Rightarrow> 't \<Rightarrow> (drain_end \<times> 't) option" where
  "drain T E subtype seq t =
     (case tr_recv T t RX_BUF_SIZE of
        (Inl WouldBlock, t') \<Rightarrow> Some (TimedOut, t')
      | (Inl e, t') \<Rightarrow> Some (RecvFailed e, t')
      | (Inr data, t') \<Rightarrow>
          if RX_BUF_SIZE < length data then Some (RecvOverran, t')
          else if skipped subtype seq data then drain T E subtype seq t'
          else if verify_checksum E data \<noteq> Some True then Some (BadChecksum, t')
          else Some (Matched (frame_payload data), t'))"

text \<open>\<open>for attempt in 0..=retries\<close>: the attempts left are one more than the retries left.\<close>

primrec attempts ::
  "'t transport \<Rightarrow> 'd crc_engine \<Rightarrow> byte \<Rightarrow> u32 \<Rightarrow> bytes \<Rightarrow> nat \<Rightarrow> 't \<Rightarrow>
     ((board_error + bytes) \<times> 't) outcome" where
  "attempts T E subtype seq tx 0 t = Returns (Inl Timeout, t)"
| "attempts T E subtype seq tx (Suc n) t =
     (case tr_send T t tx of
        (Inl e, t') \<Rightarrow> Returns (Inl (Io e), t')
      | (Inr _, t') \<Rightarrow>
          (case drain T E subtype seq t' of
             None \<Rightarrow> Diverges
           | Some (Matched p, t'') \<Rightarrow> Returns (Inr p, t'')
           | Some (BadChecksum, t'') \<Rightarrow> Returns (Inl (BadFrame ''checksum mismatch''), t'')
           | Some (RecvFailed e, t'') \<Rightarrow> Returns (Inl (Io e), t'')
           | Some (RecvOverran, t'') \<Rightarrow> Panics
           | Some (TimedOut, t'') \<Rightarrow> attempts T E subtype seq tx n t''))"

definition tx_frame :: "'d crc_engine \<Rightarrow> 't board \<Rightarrow> byte \<Rightarrow> u32 \<Rightarrow> bytes \<Rightarrow> bytes option" where
  "tx_frame E b subtype seq payload =
     (case build_command_frame E (replicate TX_BUF_SIZE 0) subtype seq (b_mac b) payload of
        None \<Rightarrow> None
      | Some (tx_buf, n) \<Rightarrow> Some (take (max n MIN_FRAME) tx_buf))"

definition request ::
  "'t transport \<Rightarrow> 'd crc_engine \<Rightarrow> 't board \<Rightarrow> byte \<Rightarrow> bytes \<Rightarrow> (bytes, 't) board_result" where
  "request T E b subtype payload =
     (let (seq, ctr) = SeqCounter_next (b_seq b);
          b = b\<lparr>b_seq := ctr\<rparr> in
      case tx_frame E b subtype seq payload of
        None \<Rightarrow> Panics
      | Some tx \<Rightarrow>
          bind_outcome (attempts T E subtype seq tx (Suc (unat (b_retries b))) (b_sock b))
            (\<lambda>(r, t). Returns (r, b\<lparr>b_sock := t\<rparr>)))"

section \<open>The opcodes\<close>

definition strip_echo :: "bytes \<Rightarrow> byte \<Rightarrow> bytes" where
  "strip_echo payload opcode =
     (case payload of [] \<Rightarrow> [] | x # xs \<Rightarrow> if x = opcode then xs else payload)"

text \<open>The \<open>?\<close> of Rust after a request: continue with the reply, or return the error.\<close>

definition then_reply ::
  "(bytes, 't) board_result \<Rightarrow> (bytes \<Rightarrow> board_error + 'a) \<Rightarrow> ('a, 't) board_result" where
  "then_reply m f =
     bind_outcome m (\<lambda>(r, b). case r of Inl e \<Rightarrow> Returns (Inl e, b) | Inr p \<Rightarrow> Returns (f p, b))"

definition status_zero :: "bytes \<Rightarrow> board_error + unit" where
  "status_zero data =
     (if data \<noteq> [] \<and> data ! 0 \<noteq> 0 then Inl (BadResponse ''status != 0'') else Inr ())"

definition line_config_up ::
  "'t transport \<Rightarrow> 'd crc_engine \<Rightarrow> modulation \<Rightarrow> annex \<Rightarrow> vdsl2_profiles \<Rightarrow> bool \<Rightarrow> bool \<Rightarrow> 't board \<Rightarrow>
     (unit, 't) board_result" where
  "line_config_up T E md an profiles bitswap sra b =
     (let pl = [0x01] @ pack_dsl_line md an bitswap sra profiles
      in then_reply (request T E b 1 pl) (\<lambda>r. status_zero (strip_echo r 0x01)))"

definition line_config_down ::
  "'t transport \<Rightarrow> 'd crc_engine \<Rightarrow> 't board \<Rightarrow> (unit, 't) board_result" where
  "line_config_down T E b =
     then_reply (request T E b 3 [0x03]) (\<lambda>r. status_zero (strip_echo r 0x03))"

definition get_line_obj ::
  "'t transport \<Rightarrow> 'd crc_engine \<Rightarrow> 't board \<Rightarrow> (line_obj, 't) board_result" where
  "get_line_obj T E b =
     then_reply (request T E b 2 [0x02])
       (\<lambda>r. let data = strip_echo r 0x02 in
            if length data < 63 then Inl (BadResponse ''line obj reply too short'')
            else case parse_line_obj data of Inl m \<Rightarrow> Inl (BadResponse m) | Inr l \<Rightarrow> Inr l)"

definition get_channel_stats ::
  "'t transport \<Rightarrow> 'd crc_engine \<Rightarrow> 't board \<Rightarrow> (channel_stats, 't) board_result" where
  "get_channel_stats T E b =
     then_reply (request T E b 4 [0x04])
       (\<lambda>r. let data = strip_echo r 0x04 in
            if length data < 28 then Inl (BadResponse ''channel stats reply too short'')
            else case parse_channel_stats data of Inl m \<Rightarrow> Inl (BadResponse m) | Inr s \<Rightarrow> Inr s)"

definition atm_link_add ::
  "'t transport \<Rightarrow> 'd crc_engine \<Rightarrow> atm_link_params \<Rightarrow> 't board \<Rightarrow> (u16, 't) board_result" where
  "atm_link_add T E params b =
     (let pl = [0x05] @ pack_atm_link params
      in then_reply (request T E b 5 pl)
           (\<lambda>r. let data = strip_echo r 0x05 in
                if 0x14 \<le> length data then Inr (from_be16 [data ! 0x12, data ! 0x13])
                else Inr (alp_vlan_id params)))"

definition atm_link_del ::
  "'t transport \<Rightarrow> 'd crc_engine \<Rightarrow> u16 \<Rightarrow> 't board \<Rightarrow> (unit, 't) board_result" where
  "atm_link_del T E vlan_id b =
     (let pl = [0x06] @ pack_link_del vlan_id 3
      in then_reply (request T E b 6 pl) (\<lambda>_. Inr ()))"

definition ptm_link_add ::
  "'t transport \<Rightarrow> 'd crc_engine \<Rightarrow> byte \<Rightarrow> u16 \<Rightarrow> u16 \<Rightarrow> u16 \<Rightarrow> 't board \<Rightarrow> (u16, 't) board_result" where
  "ptm_link_add T E tag_enable tag_vid tag_pri vlan_id b =
     (let pl = [0x0F] @ pack_ptm_link tag_enable tag_vid tag_pri vlan_id
      in then_reply (request T E b 15 pl)
           (\<lambda>r. let data = strip_echo r 0x0F in
                if 8 \<le> length data then Inr (from_be16 [data ! 6, data ! 7])
                else Inr vlan_id))"

definition ptm_link_del ::
  "'t transport \<Rightarrow> 'd crc_engine \<Rightarrow> u16 \<Rightarrow> 't board \<Rightarrow> (unit, 't) board_result" where
  "ptm_link_del T E vlan_id b =
     (let pl = [0x10] @ pack_link_del vlan_id 3
      in then_reply (request T E b 16 pl) (\<lambda>_. Inr ()))"

definition line_status ::
  "'t transport \<Rightarrow> 'd crc_engine \<Rightarrow> 't board \<Rightarrow> (link_status, 't) board_result" where
  "line_status T E b =
     bind_outcome (get_line_obj T E b)
       (\<lambda>(r, b). case r of Inl e \<Rightarrow> Returns (Inl e, b) | Inr l \<Rightarrow> Returns (Inr (lo_link_status l), b))"

section \<open>The transmitted frame\<close>

lemma verify_append:
  assumes "verify_checksum E f = Some True"
  shows "verify_checksum E (f @ pad) = Some True"
proof -
  have len: "24 + payload_len_of f \<le> length f"
    using assms by (simp add: verify_checksum_eq)
  then have "payload_len_of (f @ pad) = payload_len_of f" and "be16_at (f @ pad) 22 = be16_at f 22"
    by (simp_all add: payload_len_of_def be16_at_def subslice_append_left)
  moreover from this have "digest_in_parts E (f @ pad) = digest_in_parts E f"
    using len by (simp add: digest_in_parts_def subslice_append_left)
  ultimately show ?thesis using assms by (simp add: verify_checksum_eq)
qed

lemma tx_frame_panics: "length (b_mac b) = 6 \<Longrightarrow> tx_frame E b s q pl = None \<longleftrightarrow> 188 < length pl"
  using build_command_frame_panics [of "b_mac b" E "replicate 212 0" s q pl]
  by (cases "build_command_frame E (replicate 212 0) s q (b_mac b) pl")
    (auto simp: tx_frame_def board_consts)

lemma tx_frame_shape:
  assumes "tx_frame E b s q pl = Some tx" and mac: "length (b_mac b) = 6"
  obtains crc pad where "tx = command_header s q (b_mac b) (of_nat (length pl)) crc @ pl @ pad"
    and "verify_checksum E tx = Some True" and "60 \<le> length tx" and "length tx \<le> 212"
    and "length pl \<le> 188" and "set pad \<subseteq> {0}"
proof -
  obtain r where r: "build_command_frame E (replicate 212 0) s q (b_mac b) pl = Some r"
    and tx: "tx = take (max (snd r) 60) (fst r)"
    using assms(1) by (auto simp: tx_frame_def board_consts split: option.splits)
  obtain crc where built: "built_frame r = command_header s q (b_mac b) (of_nat (length pl)) crc @ pl"
    and len: "length (fst r) = length (replicate 212 (0 :: byte))" and n: "snd r = 24 + length pl"
    and rest: "drop (snd r) (fst r) = drop (snd r) (replicate 212 0)"
    and ok: "verify_checksum E (built_frame r) = Some True"
    using r mac by (rule built_frame_fields)
  have room: "length pl \<le> 188"
    using r mac by (auto simp: build_command_frame_eq split: if_splits)
  define pad where "pad = take (max (snd r) 60 - snd r) (drop (snd r) (fst r))"
  have "tx = built_frame r @ pad"
    using take_add [of "snd r" "max (snd r) 60 - snd r" "fst r"]
    by (simp add: tx built_frame_def pad_def)
  moreover have lengths: "60 \<le> length tx" "length tx \<le> 212"
    using room len n by (simp_all add: tx)
  moreover have "set pad \<subseteq> {0}"
    by (auto simp: pad_def rest dest: in_set_takeD)
  ultimately show thesis
    using that [of crc pad] verify_append [OF ok, of pad] built room lengths
    by simp
qed

section \<open>What the receive loop does\<close>

text \<open>\<open>passes\<close> is a run of buffers that are passed over, \<open>stops\<close> the receive that ends it.\<close>

inductive passes :: "'t transport \<Rightarrow> byte \<Rightarrow> u32 \<Rightarrow> 't \<Rightarrow> 't \<Rightarrow> bool"
  for T :: "'t transport" and subtype :: byte and seq :: u32 where
  passes_refl: "passes T subtype seq t t"
| passes_step: "tr_recv T t RX_BUF_SIZE = (Inr data, t1) \<Longrightarrow> length data \<le> RX_BUF_SIZE \<Longrightarrow>
    skipped subtype seq data \<Longrightarrow> passes T subtype seq t1 t2 \<Longrightarrow> passes T subtype seq t t2"

definition accepted :: "'d crc_engine \<Rightarrow> byte \<Rightarrow> u32 \<Rightarrow> bytes \<Rightarrow> bool" where
  "accepted E subtype seq data \<longleftrightarrow>
     length data \<le> RX_BUF_SIZE \<and> verify_checksum E data = Some True \<and>
     frame_is_response data \<and> frame_subtype data = subtype \<and> frame_seq data = seq"

definition stops ::
  "'t transport \<Rightarrow> 'd crc_engine \<Rightarrow> byte \<Rightarrow> u32 \<Rightarrow> 't \<Rightarrow> drain_end \<Rightarrow> 't \<Rightarrow> bool" where
  "stops T E subtype seq t r t' \<longleftrightarrow>
     (case tr_recv T t RX_BUF_SIZE of
        (Inl e, t1) \<Rightarrow> t1 = t' \<and> r = (if e = WouldBlock then TimedOut else RecvFailed e)
      | (Inr data, t1) \<Rightarrow> t1 = t' \<and>
          (if RX_BUF_SIZE < length data then r = RecvOverran
           else \<not> skipped subtype seq data \<and>
             (if verify_checksum E data = Some True then r = Matched (frame_payload data)
              else r = BadChecksum)))"

lemma drain_step: "stops T E s q t r t' \<Longrightarrow> drain T E s q t = Some (r, t')"
  by (subst drain.simps) (auto simp: stops_def split: prod.splits sum.splits io_error.splits if_splits)

lemma drain_pass:
  "tr_recv T t RX_BUF_SIZE = (Inr data, t1) \<Longrightarrow> length data \<le> RX_BUF_SIZE \<Longrightarrow>
   skipped s q data \<Longrightarrow> drain T E s q t = drain T E s q t1"
  by (subst drain.simps) simp

lemma drain_passes: "passes T s q t t1 \<Longrightarrow> drain T E s q t = drain T E s q t1"
  by (induction rule: passes.induct) (simp_all add: drain_pass)

lemma drain_sound_pair:
  "drain T E s q t = Some y \<Longrightarrow> \<exists>t1. passes T s q t t1 \<and> stops T E s q t1 (fst y) (snd y)"
proof (erule drain.raw_induct [where P = "\<lambda>T E s q t y.
    \<exists>t1. passes T s q t t1 \<and> stops T E s q t1 (fst y) (snd y)", rotated])
  fix drain' :: "'a transport \<Rightarrow> 'b crc_engine \<Rightarrow> byte \<Rightarrow> u32 \<Rightarrow> 'a \<Rightarrow> (drain_end \<times> 'a) option"
  fix T :: "'a transport" and E :: "'b crc_engine" and s q t y
  assume IH: "\<And>T E s q t y. drain' T E s q t = Some y \<Longrightarrow>
      \<exists>t1. passes T s q t t1 \<and> stops T E s q t1 (fst y) (snd y)"
    and step: "(case tr_recv T t RX_BUF_SIZE of
        (Inl WouldBlock, t') \<Rightarrow> Some (TimedOut, t')
      | (Inl (OtherIo x), t') \<Rightarrow> Some (RecvFailed (OtherIo x), t')
      | (Inr data, t') \<Rightarrow>
          if RX_BUF_SIZE < length data then Some (RecvOverran, t')
          else if skipped s q data then drain' T E s q t'
          else if verify_checksum E data \<noteq> Some True then Some (BadChecksum, t')
          else Some (Matched (frame_payload data), t')) = Some y"
  show "\<exists>t1. passes T s q t t1 \<and> stops T E s q t1 (fst y) (snd y)"
  proof (cases "tr_recv T t RX_BUF_SIZE")
    case (Pair res t')
    show ?thesis
    proof (cases "\<exists>data. res = Inr data \<and> length data \<le> RX_BUF_SIZE \<and> skipped s q data")
      case True
      then obtain data where recv: "tr_recv T t RX_BUF_SIZE = (Inr data, t')"
          and "length data \<le> RX_BUF_SIZE" and "skipped s q data"
        using Pair by blast
      moreover from this step have "drain' T E s q t' = Some y" by simp
      then obtain t1 where "passes T s q t' t1" "stops T E s q t1 (fst y) (snd y)"
        using IH by blast
      ultimately show ?thesis using passes_step by metis
    next
      case False
      then have "stops T E s q t (fst y) (snd y)"
        using step Pair by (auto simp: stops_def split: sum.splits io_error.splits if_splits)
      with passes_refl show ?thesis by (intro exI [of _ t] conjI)
    qed
  qed
qed

lemma drain_sound:
  "drain T E s q t = Some (r, t') \<Longrightarrow> \<exists>t1. passes T s q t t1 \<and> stops T E s q t1 r t'"
  using drain_sound_pair by fastforce

lemma drain_iff:
  "drain T E s q t = Some (r, t') \<longleftrightarrow> (\<exists>t1. passes T s q t t1 \<and> stops T E s q t1 r t')"
  using drain_sound drain_passes drain_step by metis

lemma skipped_iff:
  "skipped s q data \<longleftrightarrow>
     \<not> (24 + payload_len_of data \<le> length data \<and> frame_is_response data \<and>
        frame_subtype data = s \<and> frame_seq data = q)"
  by (auto simp: skipped_def frame_parse_eq)

lemma stops_Matched:
  "stops T E s q t (Matched p) t' \<longleftrightarrow>
     (\<exists>data. tr_recv T t RX_BUF_SIZE = (Inr data, t') \<and> accepted E s q data \<and>
        p = frame_payload data)"
  by (auto simp: stops_def accepted_def skipped_iff verify_checksum_eq
      split: prod.splits sum.splits if_splits)

section \<open>What the attempts do\<close>

definition silent_attempt ::
  "'t transport \<Rightarrow> 'd crc_engine \<Rightarrow> byte \<Rightarrow> u32 \<Rightarrow> bytes \<Rightarrow> 't \<Rightarrow> 't \<Rightarrow> bool" where
  "silent_attempt T E s q tx t t' \<longleftrightarrow>
     (\<exists>t1 t2. tr_send T t tx = (Inr (), t1) \<and> passes T s q t1 t2 \<and>
        tr_recv T t2 RX_BUF_SIZE = (Inl WouldBlock, t'))"

definition deciding_attempt ::
  "'t transport \<Rightarrow> 'd crc_engine \<Rightarrow> byte \<Rightarrow> u32 \<Rightarrow> bytes \<Rightarrow> 't \<Rightarrow> board_error + bytes \<Rightarrow> 't \<Rightarrow> bool" where
  "deciding_attempt T E s q tx t r t' \<longleftrightarrow>
     (\<exists>e. tr_send T t tx = (Inl e, t') \<and> r = Inl (Io e)) \<or>
     (\<exists>t1 t2. tr_send T t tx = (Inr (), t1) \<and> passes T s q t1 t2 \<and>
        ((\<exists>p. stops T E s q t2 (Matched p) t' \<and> r = Inr p) \<or>
         (stops T E s q t2 BadChecksum t' \<and> r = Inl (BadFrame ''checksum mismatch'')) \<or>
         (\<exists>e. stops T E s q t2 (RecvFailed e) t' \<and> r = Inl (Io e))))"

lemma stops_TimedOut:
  "stops T E s q t TimedOut t' \<longleftrightarrow> tr_recv T t RX_BUF_SIZE = (Inl WouldBlock, t')"
  by (auto simp: stops_def split: prod.splits sum.splits if_splits)

lemma silent_attempt_drain:
  "silent_attempt T E s q tx t t' \<longleftrightarrow>
     (\<exists>t1. tr_send T t tx = (Inr (), t1) \<and> drain T E s q t1 = Some (TimedOut, t'))"
  by (auto simp: silent_attempt_def drain_iff stops_TimedOut)

lemma deciding_attempt_drain:
  "deciding_attempt T E s q tx t r t' \<longleftrightarrow>
     (\<exists>e. tr_send T t tx = (Inl e, t') \<and> r = Inl (Io e)) \<or>
     (\<exists>t1. tr_send T t tx = (Inr (), t1) \<and>
        ((\<exists>p. drain T E s q t1 = Some (Matched p, t') \<and> r = Inr p) \<or>
         (drain T E s q t1 = Some (BadChecksum, t') \<and> r = Inl (BadFrame ''checksum mismatch'')) \<or>
         (\<exists>e. drain T E s q t1 = Some (RecvFailed e, t') \<and> r = Inl (Io e))))"
  by (auto simp: deciding_attempt_def drain_iff)

lemma attempts_Suc_returns:
  "attempts T E s q tx (Suc n) t = Returns (r, t') \<longleftrightarrow>
     deciding_attempt T E s q tx t r t' \<or>
     (\<exists>t1. silent_attempt T E s q tx t t1 \<and> attempts T E s q tx n t1 = Returns (r, t'))"
  by (auto simp: deciding_attempt_drain silent_attempt_drain
      split: prod.splits sum.splits option.splits drain_end.splits)

text \<open>So many silent attempts, then the deciding one or the last retry used up.\<close>

lemma attempts_returns:
  "attempts T E s q tx n t = Returns (r, t') \<longleftrightarrow>
     (\<exists>k \<le> n. \<exists>t1. (silent_attempt T E s q tx ^^ k) t t1 \<and>
        (if k = n then r = Inl Timeout \<and> t' = t1 else deciding_attempt T E s q tx t1 r t'))"
proof (induction n arbitrary: t)
  case (Suc n)
  have "attempts T E s q tx (Suc n) t = Returns (r, t') \<longleftrightarrow>
      deciding_attempt T E s q tx t r t' \<or>
      (\<exists>t0. silent_attempt T E s q tx t t0 \<and>
        (\<exists>k \<le> n. \<exists>t1. (silent_attempt T E s q tx ^^ k) t0 t1 \<and>
          (if k = n then r = Inl Timeout \<and> t' = t1 else deciding_attempt T E s q tx t1 r t')))"
    unfolding attempts_Suc_returns Suc ..
  also have "\<dots> \<longleftrightarrow> (\<exists>k \<le> Suc n. \<exists>t1. (silent_attempt T E s q tx ^^ k) t t1 \<and>
        (if k = Suc n then r = Inl Timeout \<and> t' = t1 else deciding_attempt T E s q tx t1 r t'))"
    (is "?L \<longleftrightarrow> (\<exists>k \<le> Suc n. ?R k)")
  proof
    assume ?L
    then show "\<exists>k \<le> Suc n. ?R k"
    proof (elim disjE exE conjE)
      assume "deciding_attempt T E s q tx t r t'"
      then have "?R 0" by auto
      then show ?thesis by blast
    next
      fix t0 k t1
      assume first: "silent_attempt T E s q tx t t0" and k: "k \<le> n"
        and rest: "(silent_attempt T E s q tx ^^ k) t0 t1"
        and last: "if k = n then r = Inl Timeout \<and> t' = t1 else deciding_attempt T E s q tx t1 r t'"
      have "(silent_attempt T E s q tx ^^ Suc k) t t1"
        using first rest by (rule relpowp_Suc_I2)
      moreover have "if Suc k = Suc n then r = Inl Timeout \<and> t' = t1
          else deciding_attempt T E s q tx t1 r t'" using last by simp
      ultimately have "?R (Suc k)" and "Suc k \<le> Suc n" using k by blast+
      then show ?thesis by blast
    qed
  next
    assume "\<exists>k \<le> Suc n. ?R k"
    then obtain k where k: "k \<le> Suc n" "?R k" by blast
    show ?L
    proof (cases k)
      case 0
      then show ?thesis using k by auto
    next
      case (Suc j)
      with k(2) obtain t1 where "(silent_attempt T E s q tx ^^ Suc j) t t1"
        and last: "if Suc j = Suc n then r = Inl Timeout \<and> t' = t1
          else deciding_attempt T E s q tx t1 r t'" by blast
      then obtain t0 where "silent_attempt T E s q tx t t0" "(silent_attempt T E s q tx ^^ j) t0 t1"
        by (auto elim: relpowp_Suc_E2 simp del: relpowp.simps)
      moreover have "if j = n then r = Inl Timeout \<and> t' = t1 else deciding_attempt T E s q tx t1 r t'"
        using last by simp
      ultimately show ?thesis using k(1) Suc by blast
    qed
  qed
  finally show ?case .
qed auto

lemma request_eq:
  "tx_frame E (b\<lparr>b_seq := b_seq b + 1\<rparr>) s (b_seq b + 1) pl = Some tx \<Longrightarrow>
   request T E b s pl =
     bind_outcome (attempts T E s (b_seq b + 1) tx (Suc (unat (b_retries b))) (b_sock b))
       (\<lambda>(r, t). Returns (r, b\<lparr>b_seq := b_seq b + 1, b_sock := t\<rparr>))"
  by (simp add: request_def SeqCounter_next_def Let_def)

lemma tx_frame_seq: "tx_frame E (b\<lparr>b_seq := n\<rparr>) s q pl = tx_frame E b s q pl"
  by (simp add: tx_frame_def)

lemma request_returns_iff:
  "request T E b s pl = Returns (r, b') \<longleftrightarrow>
     (\<exists>tx t. tx_frame E b s (b_seq b + 1) pl = Some tx \<and>
        attempts T E s (b_seq b + 1) tx (Suc (unat (b_retries b))) (b_sock b) = Returns (r, t) \<and>
        b' = b\<lparr>b_seq := b_seq b + 1, b_sock := t\<rparr>)"
  by (auto simp: request_def SeqCounter_next_def Let_def tx_frame_seq bind_outcome_Returns
      split: option.splits)

end
