(* ===== verification/BoardSpec.thy ===== *)
theory BoardSpec
  imports Board
begin

text \<open>
  What the board controller promises: the request as a protocol of silent attempts and one
  deciding attempt, soundness of the accepted reply, the echo and stale replies passed
  over, the number of transmissions, termination on quiet networks and its absence on busy
  ones, and the contract every opcode keeps (locale \<open>board_op\<close>).
\<close>

section \<open>A scripted transport\<close>

text \<open>What each receive will return, in order; an empty script is a silent network.  It is
  the mock of the code's tests, and instantiates the hypotheses of the properties.\<close>

type_synonym script = "(io_error + bytes) list"

definition script_transport :: "bytes \<Rightarrow> script transport" where
  "script_transport mac =
     \<lparr>tr_send = (\<lambda>t d. (Inr (), t)),
      tr_recv = (\<lambda>t n. case t of [] \<Rightarrow> (Inl WouldBlock, []) | x # xs \<Rightarrow> (x, xs)),
      tr_local_mac = (\<lambda>_. mac),
      tr_set_timeout = (\<lambda>t ms. (Inr (), t))\<rparr>"

text \<open>A CRC whose value is always zero, for instances that do not depend on the CRC.\<close>

definition null_engine :: "unit crc_engine" where
  "null_engine = \<lparr>crc_digest = (), crc_update = (\<lambda>_ _. ()), crc_finalize = (\<lambda>_. 0)\<rparr>"

text \<open>A transport with a record of everything sent.\<close>

definition logged :: "'t transport \<Rightarrow> ('t \<times> bytes list) transport" where
  "logged T =
     \<lparr>tr_send = (\<lambda>(t, l) d. let (r, t') = tr_send T t d in (r, (t', l @ [d]))),
      tr_recv = (\<lambda>(t, l) n. let (r, t') = tr_recv T t n in (r, (t', l))),
      tr_local_mac = (\<lambda>(t, l). tr_local_mac T t),
      tr_set_timeout = (\<lambda>(t, l) ms. let (r, t') = tr_set_timeout T t ms in (r, (t', l)))\<rparr>"

definition sample_board :: "script \<Rightarrow> script board" where
  "sample_board t = \<lparr>b_sock = t, b_mac = [0, 17, 34, 51, 68, 85], b_seq = 0, b_timeout = 2000,
     b_retries = 2\<rparr>"

text \<open>A reply with a null checksum: opcode 3, sequence number 1, status 0.\<close>

definition sample_reply :: bytes where
  "sample_reply = replicate 14 0 @ [0x10, 3, 0, 0, 0, 1, 0, 2, 0, 0, 3, 0]"

lemma sample_reply_accepted: "accepted null_engine 3 1 sample_reply"
  by (simp add: accepted_def sample_reply_def verify_checksum_eq digest_in_parts_def null_engine_def
      payload_len_of_def frame_accessors frame_consts board_consts be16_at_def be32_at_def
      from_be16_def from_be32_def subslice_def nth_append)

lemma sample_reply_payload: "frame_payload sample_reply = [3, 0]"
  by (simp add: sample_reply_def frame_accessors frame_consts be16_at_def from_be16_def
      subslice_def nth_append)

lemma accepted_stops:
  "tr_recv T t RX_BUF_SIZE = (Inr data, t') \<Longrightarrow> accepted E s q data \<Longrightarrow>
   drain T E s q t = Some (Matched (frame_payload data), t')"
  by (rule drain_step) (auto simp: stops_Matched)

lemma sample_request:
  "request (script_transport m) null_engine (sample_board [Inl WouldBlock, Inr [], Inr sample_reply]) 3 [3]
     = Returns (Inr [3, 0], (sample_board [])\<lparr>b_seq := 1\<rparr>)"
proof -
  let ?b = "sample_board [Inl WouldBlock, Inr [], Inr sample_reply]"
  have mac: "length (b_mac ?b) = 6" by (simp add: sample_board_def)
  then obtain tx where tx: "tx_frame null_engine ?b 3 (b_seq ?b + 1) [3] = Some tx"
    using tx_frame_panics [of ?b null_engine 3 "b_seq ?b + 1" "[3]"] by fastforce
  let ?T = "script_transport m"
  have d1: "drain ?T null_engine 3 1 [Inl WouldBlock, Inr [], Inr sample_reply]
      = Some (TimedOut, [Inr [], Inr sample_reply])"
    by (rule drain_step) (simp add: stops_def script_transport_def)
  have "drain ?T null_engine 3 1 [Inr [], Inr sample_reply] = drain ?T null_engine 3 1 [Inr sample_reply]"
    by (rule drain_pass [where data = "[]"]) (simp_all add: script_transport_def skipped_def frame_parse_def frame_consts)
  also have "\<dots> = Some (Matched [3, 0], [])"
    using accepted_stops [of ?T "[Inr sample_reply]" sample_reply "[]", OF _ sample_reply_accepted]
    by (simp add: script_transport_def sample_reply_payload)
  finally have d2: "drain ?T null_engine 3 1 [Inr [], Inr sample_reply] = Some (Matched [3, 0], [])" .
  have send: "tr_send ?T t d = (Inr (), t)" for t d by (simp add: script_transport_def)
  have three: "Suc (unat (b_retries ?b)) = Suc (Suc (Suc 0))"
    by (simp add: sample_board_def)
  have "attempts ?T null_engine 3 1 tx (Suc (Suc (Suc 0))) [Inl WouldBlock, Inr [], Inr sample_reply]
      = Returns (Inr [3, 0], [])"
    by (simp add: send d1 d2)
  then show ?thesis
    using tx unfolding request_returns_iff three
    by (simp add: sample_board_def)
qed

section \<open>The contract of the opcodes\<close>

text \<open>One returned call of an operation, and one returned request of any opcode.\<close>

definition op_step :: "('t board \<Rightarrow> ('a, 't) board_result) \<Rightarrow> 't board \<Rightarrow> 't board \<Rightarrow> bool" where
  "op_step op b b' \<longleftrightarrow> (\<exists>r. op b = Returns (r, b'))"

definition any_request :: "'t transport \<Rightarrow> 'd crc_engine \<Rightarrow> 't board \<Rightarrow> 't board \<Rightarrow> bool" where
  "any_request T E b b' \<longleftrightarrow> (\<exists>s pl. op_step (\<lambda>b. request T E b s pl) b b')"

locale board_op =
  fixes step :: "'t board \<Rightarrow> 't board \<Rightarrow> bool"
  assumes step_keeps: "step b b' \<Longrightarrow>
    b_seq b' = b_seq b + 1 \<and> b_mac b' = b_mac b \<and> b_timeout b' = b_timeout b \<and>
    b_retries b' = b_retries b"
begin

lemma steps_keep:
  "(step ^^ n) b b' \<Longrightarrow> b_seq b' = b_seq b + of_nat n \<and> b_mac b' = b_mac b \<and>
     b_timeout b' = b_timeout b \<and> b_retries b' = b_retries b"
  by (induction n arbitrary: b') (auto dest!: step_keeps)

lemma steps_seq_fresh:
  assumes "(step ^^ n) b b'" and "0 < n" and "n < 2 ^ 32"
  shows "b_seq b' \<noteq> b_seq b"
proof -
  have "unat (of_nat n :: u32) = n" using assms(3) by (simp add: unsigned_of_nat take_bit_nat_eq_self)
  then have "(of_nat n :: u32) \<noteq> 0" using assms(2) by auto
  then show ?thesis using steps_keep [OF assms(1)] by simp
qed

end

lemma request_keeps:
  "request T E b s pl = Returns (r, b') \<Longrightarrow>
    b_seq b' = b_seq b + 1 \<and> b_mac b' = b_mac b \<and> b_timeout b' = b_timeout b \<and>
    b_retries b' = b_retries b"
  by (auto simp: request_returns_iff)

lemma then_reply_returns:
  "then_reply m f = Returns (r, b') \<longleftrightarrow>
     (\<exists>e. m = Returns (Inl e, b') \<and> r = Inl e) \<or> (\<exists>p. m = Returns (Inr p, b') \<and> r = f p)"
  by (cases m) (auto simp: then_reply_def split: sum.splits sum.split_asm)

lemma then_reply_keeps:
  "then_reply (request T E b s pl) f = Returns (r, b') \<Longrightarrow>
    b_seq b' = b_seq b + 1 \<and> b_mac b' = b_mac b \<and> b_timeout b' = b_timeout b \<and>
    b_retries b' = b_retries b"
  by (auto simp: then_reply_returns dest: request_keeps)

interpretation op_any: board_op "any_request T E" for T E
  by unfold_locales (auto simp: any_request_def op_step_def dest: request_keeps)

interpretation op_request: board_op "op_step (\<lambda>b. request T E b s pl)" for T E s pl
  by unfold_locales (auto simp: op_step_def dest: request_keeps)

interpretation op_up: board_op "op_step (line_config_up T E md an pr bs sra)" for T E md an pr bs sra
  by unfold_locales (auto simp: op_step_def line_config_up_def dest: then_reply_keeps)

interpretation op_down: board_op "op_step (line_config_down T E)" for T E
  by unfold_locales (auto simp: op_step_def line_config_down_def dest: then_reply_keeps)

interpretation op_line: board_op "op_step (get_line_obj T E)" for T E
  by unfold_locales (auto simp: op_step_def get_line_obj_def dest: then_reply_keeps)

interpretation op_stats: board_op "op_step (get_channel_stats T E)" for T E
  by unfold_locales (auto simp: op_step_def get_channel_stats_def dest: then_reply_keeps)

interpretation op_atm_add: board_op "op_step (atm_link_add T E p)" for T E p
  by unfold_locales (auto simp: op_step_def atm_link_add_def Let_def dest: then_reply_keeps)

interpretation op_atm_del: board_op "op_step (atm_link_del T E v)" for T E v
  by unfold_locales (auto simp: op_step_def atm_link_del_def Let_def dest: then_reply_keeps)

interpretation op_ptm_add: board_op "op_step (ptm_link_add T E en vid pri v)" for T E en vid pri v
  by unfold_locales (auto simp: op_step_def ptm_link_add_def Let_def dest: then_reply_keeps)

interpretation op_ptm_del: board_op "op_step (ptm_link_del T E v)" for T E v
  by unfold_locales (auto simp: op_step_def ptm_link_del_def Let_def dest: then_reply_keeps)

section \<open>A quiet network\<close>

text \<open>On a network that delivers finitely many more frames before a timeout, every request
  comes back.\<close>

locale quiet_transport =
  fixes T :: "'t transport"
    and pending :: "'t \<Rightarrow> nat"
  assumes recv_less: "tr_recv T t n = (Inr data, t') \<Longrightarrow> pending t' < pending t"
    and recv_fits: "tr_recv T t n = (Inr data, t') \<Longrightarrow> length data \<le> n"
begin

lemma drain_returns: "\<exists>r t'. drain T E s q t = Some (r, t') \<and> r \<noteq> RecvOverran"
proof (induction "pending t" arbitrary: t rule: less_induct)
  case less
  obtain res t1 where recv: "tr_recv T t RX_BUF_SIZE = (res, t1)" by fastforce
  show ?case
  proof (cases "\<exists>data. res = Inr data \<and> skipped s q data")
    case True
    then obtain data where "res = Inr data" "skipped s q data" by blast
    then show ?thesis
      using less [of t1] recv_less recv_fits recv drain_pass [of T t data t1 s q E] by metis
  next
    case False
    then obtain r where "stops T E s q t r t1" "r \<noteq> RecvOverran"
      using recv recv_fits [of t RX_BUF_SIZE _ t1]
      by (cases res; cases "verify_checksum E (projr res) = Some True")
        (auto simp: stops_def not_less split: if_splits)
    then show ?thesis using drain_step by metis
  qed
qed

lemma attempts_return: "\<exists>r t'. attempts T E s q tx n t = Returns (r, t')"
proof (induction n arbitrary: t)
  case (Suc n)
  obtain d t1 where "tr_send T t tx = (d, t1)" by fastforce
  moreover obtain r t2 where "drain T E s q t1 = Some (r, t2)" "r \<noteq> RecvOverran"
    using drain_returns by blast
  ultimately show ?case using Suc [of t2] by (cases d; cases r) auto
qed simp

lemma request_total:
  assumes "length (b_mac b) = 6" and "length pl \<le> 188"
  shows "\<exists>r b'. request T E b s pl = Returns (r, b')"
proof -
  obtain tx where "tx_frame E b s (b_seq b + 1) pl = Some tx"
    using assms tx_frame_panics [of b E s "b_seq b + 1" pl] by fastforce
  then show ?thesis
    using attempts_return by (auto simp: request_returns_iff simp del: attempts.simps) blast
qed

end

text \<open>The scripted network is quiet when its frames fit the buffer; here the script is cut.\<close>

definition cut_transport :: "bytes \<Rightarrow> script transport" where
  "cut_transport mac =
     (script_transport mac)\<lparr>tr_recv := (\<lambda>t n. case t of [] \<Rightarrow> (Inl WouldBlock, [])
        | x # xs \<Rightarrow> (map_sum id (take n) x, xs))\<rparr>"

interpretation cut: quiet_transport "cut_transport mac" length for mac
  by unfold_locales
    (auto simp: cut_transport_def map_sum_def split: list.splits sum.splits)

section \<open>Properties of the request\<close>

text \<open>C1. A request is what the protocol says: it returns exactly when the frame can be built
  and, after \<open>k\<close> attempts that each sent the frame, passed over unrelated traffic and timed
  out, either the \<open>retries + 1\<close> attempts are used up and the result is a timeout, or the next
  attempt decides it by a matching reply, a matching reply with a bad checksum or an I/O
  error; only the counter and the socket of the controller change.\<close>

theorem request_protocol:
  "request T E b s pl = Returns (r, b') \<longleftrightarrow>
     (\<exists>tx k t1. tx_frame E b s (b_seq b + 1) pl = Some tx \<and> k \<le> Suc (unat (b_retries b)) \<and>
        (silent_attempt T E s (b_seq b + 1) tx ^^ k) (b_sock b) t1 \<and>
        (if k = Suc (unat (b_retries b)) then r = Inl Timeout \<and> b_sock b' = t1
         else deciding_attempt T E s (b_seq b + 1) tx t1 r (b_sock b')) \<and>
        b' = b\<lparr>b_seq := b_seq b + 1, b_sock := b_sock b'\<rparr>)"
    (is "_ \<longleftrightarrow> ?R")
proof -
  have "request T E b s pl = Returns (r, b') \<longleftrightarrow>
     (\<exists>tx t. tx_frame E b s (b_seq b + 1) pl = Some tx \<and>
        (\<exists>k \<le> Suc (unat (b_retries b)). \<exists>t1. (silent_attempt T E s (b_seq b + 1) tx ^^ k) (b_sock b) t1 \<and>
          (if k = Suc (unat (b_retries b)) then r = Inl Timeout \<and> t = t1
           else deciding_attempt T E s (b_seq b + 1) tx t1 r t)) \<and>
        b' = b\<lparr>b_seq := b_seq b + 1, b_sock := t\<rparr>)"
    unfolding request_returns_iff attempts_returns ..
  also have "\<dots> \<longleftrightarrow> ?R" (is "?M \<longleftrightarrow> _")
  proof
    assume ?M
    then obtain tx t k t1 where tx: "tx_frame E b s (b_seq b + 1) pl = Some tx"
      and k: "k \<le> Suc (unat (b_retries b))"
      and run: "(silent_attempt T E s (b_seq b + 1) tx ^^ k) (b_sock b) t1"
      and last: "if k = Suc (unat (b_retries b)) then r = Inl Timeout \<and> t = t1
           else deciding_attempt T E s (b_seq b + 1) tx t1 r t"
      and b': "b' = b\<lparr>b_seq := b_seq b + 1, b_sock := t\<rparr>" by (elim exE conjE)
    from b' have t: "t = b_sock b'" by simp
    from b' have upd: "b' = b\<lparr>b_seq := b_seq b + 1, b_sock := b_sock b'\<rparr>" by simp
    show ?R
      by (rule exI [of _ tx], rule exI [of _ k], rule exI [of _ t1])
        (insert upd, intro conjI tx k run last [unfolded t], simp)
  next
    assume ?R
    then obtain tx k t1 where tx: "tx_frame E b s (b_seq b + 1) pl = Some tx"
      and k: "k \<le> Suc (unat (b_retries b))"
      and run: "(silent_attempt T E s (b_seq b + 1) tx ^^ k) (b_sock b) t1"
      and last: "if k = Suc (unat (b_retries b)) then r = Inl Timeout \<and> b_sock b' = t1
           else deciding_attempt T E s (b_seq b + 1) tx t1 r (b_sock b')"
      and b': "b' = b\<lparr>b_seq := b_seq b + 1, b_sock := b_sock b'\<rparr>" by (elim exE conjE)
    show ?M
      by (rule exI [of _ tx], rule exI [of _ "b_sock b'"], intro conjI, rule tx,
          rule exI [of _ k], intro conjI, rule k, rule exI [of _ t1], intro conjI run last)
        (rule b')
  qed
  finally show ?thesis .
qed

lemma request_accepts:
  assumes "request T E b s pl = Returns (Inr p, b')"
  shows "\<exists>t data. tr_recv T t RX_BUF_SIZE = (Inr data, b_sock b') \<and>
    accepted E s (b_seq b + 1) data \<and> p = frame_payload data"
proof -
  obtain tx t k t1 where "attempts T E s (b_seq b + 1) tx (Suc (unat (b_retries b))) (b_sock b)
      = Returns (Inr p, t)" and b': "b' = b\<lparr>b_seq := b_seq b + 1, b_sock := t\<rparr>"
    using assms unfolding request_returns_iff by blast
  then obtain t1 where "deciding_attempt T E s (b_seq b + 1) tx t1 (Inr p) t"
    unfolding attempts_returns by (auto split: if_splits)
  then show ?thesis
    unfolding deciding_attempt_def stops_Matched by (auto simp: b')
qed

text \<open>C2. A reply is handed to the caller only if it came out of the last receive, carries the
  response magic, the opcode asked for and this request's sequence number, and its checksum
  verifies; the caller gets its payload.\<close>

theorem accepted_reply_sound:
  assumes "request T E b s pl = Returns (Inr p, b')"
  shows "\<exists>t data. tr_recv T t RX_BUF_SIZE = (Inr data, b_sock b') \<and>
    verify_checksum E data = Some True \<and> frame_is_response data \<and> frame_subtype data = s \<and>
    frame_seq data = b_seq b + 1 \<and> p = frame_payload data"
  using request_accepts [OF assms] by (auto simp: accepted_def)

theorem accepted_reply_sound_witness:
  "\<exists>t data. tr_recv (script_transport [0, 17, 34, 51, 68, 85]) t RX_BUF_SIZE =
      (Inr data, [] :: script) \<and> verify_checksum null_engine data = Some True \<and>
      frame_is_response data \<and> frame_subtype data = 3 \<and> frame_seq data = 1 \<and>
      [3, 0] = frame_payload data"
  using accepted_reply_sound [OF sample_request [of "[0, 17, 34, 51, 68, 85]"]]
  by (simp add: sample_board_def)

text \<open>The transmitted frame exists for every payload of at most 188 bytes (a longer one
  panics), is padded to the Ethernet minimum, verifies, carries the request, and is passed
  over when the kernel loops it back, whatever request is waiting.\<close>

lemma transmitted_frame_and_echo:
  assumes mac: "length (b_mac b) = 6"
  shows "case tx_frame E b s q pl of
      None \<Rightarrow> 188 < length pl
    | Some tx \<Rightarrow>
        length pl \<le> 188 \<and> 60 \<le> length tx \<and> length tx \<le> 212 \<and>
        verify_checksum E tx = Some True \<and> frame_is_command tx \<and> frame_subtype tx = s \<and>
        frame_seq tx = q \<and> frame_payload tx = pl \<and> frame_src_mac tx = b_mac b \<and>
        skipped s' q' tx"
proof (cases "tx_frame E b s q pl")
  case None
  with mac have "188 < length pl" by (metis tx_frame_panics)
  with None show ?thesis by simp
next
  case (Some tx)
  then obtain crc pad where tx: "tx = command_header s q (b_mac b) (of_nat (length pl)) crc @ (pl @ pad)"
    and facts: "verify_checksum E tx = Some True" "60 \<le> length tx" "length tx \<le> 212" "length pl \<le> 188"
    using mac by (rule tx_frame_shape) auto
  then have "unat (of_nat (length pl) :: u16) = length pl"
    by (simp add: unsigned_of_nat take_bit_nat_eq_self)
  then show ?thesis
    using Some facts
    by (simp add: skipped_iff frame_accessors frame_consts header_field_in_frame [OF mac tx])
qed

lemma transmitted_frame_and_echo_witness:
  "case tx_frame null_engine (sample_board []) 3 7 [3] of None \<Rightarrow> False
   | Some tx \<Rightarrow> skipped 3 7 tx \<and> frame_payload tx = [3]"
  using transmitted_frame_and_echo [where b = "sample_board []" and E = null_engine and s = 3
      and q = 7 and pl = "[3]" and s' = 3 and q' = 7]
  by (auto simp: sample_board_def split: option.splits)

section \<open>Counting transmissions\<close>

lemma logged_recv: "tr_recv (logged T) (t, l) n = (fst (tr_recv T t n), (snd (tr_recv T t n), l))"
  by (simp add: logged_def split_beta)

lemma logged_send: "tr_send (logged T) (t, l) d = (fst (tr_send T t d), (snd (tr_send T t d), l @ [d]))"
  by (simp add: logged_def split_beta)

lemma passes_log: "passes (logged T) s q u u' \<Longrightarrow> snd u' = snd u"
  by (induction rule: passes.induct) (auto simp: logged_def split_beta)

lemma drain_log: "drain (logged T) E s q u = Some (r, u') \<Longrightarrow> snd u' = snd u"
  by (auto simp: drain_iff stops_def dest!: passes_log)
    (auto simp: logged_def split_beta split: prod.splits sum.splits if_splits)

lemma attempts_log:
  "attempts (logged T) E s q tx n u = Returns (r, u') \<Longrightarrow>
     \<exists>k \<le> n. snd u' = snd u @ replicate k tx \<and> (k < n \<longrightarrow> k \<noteq> 0) \<and> (r = Inl Timeout \<longrightarrow> k = n)"
proof (induction n arbitrary: u)
  case (Suc n)
  from Suc.prems consider
      "deciding_attempt (logged T) E s q tx u r u'"
    | u1 where "silent_attempt (logged T) E s q tx u u1" "attempts (logged T) E s q tx n u1 = Returns (r, u')"
    unfolding attempts_Suc_returns by blast
  then show ?case
  proof cases
    case 1
    then have "snd u' = snd u @ [tx]" and "r \<noteq> Inl Timeout"
      by (cases u, auto simp: deciding_attempt_drain logged_send dest!: drain_log)+
    then show ?thesis by (intro exI [of _ 1]) auto
  next
    case 2
    have u1: "snd u1 = snd u @ [tx]"
      using 2(1) by (cases u) (auto simp: silent_attempt_drain logged_send dest!: drain_log)
    obtain k where "k \<le> n" "snd u' = snd u1 @ replicate k tx" "r = Inl Timeout \<longrightarrow> k = n"
      using Suc.IH [OF 2(2)] by blast
    then show ?thesis by (intro exI [of _ "Suc k"]) (auto simp: u1)
  qed
qed auto

text \<open>C9. Between one and \<open>retries + 1\<close> copies of the same frame go out per request, and a
  timeout is reported only after all of them.\<close>

theorem transmissions_bounded:
  assumes "request (logged T) E b s pl = Returns (r, b')"
  shows "\<exists>tx k. tx_frame E b s (b_seq b + 1) pl = Some tx \<and>
     snd (b_sock b') = snd (b_sock b) @ replicate k tx \<and>
     1 \<le> k \<and> k \<le> Suc (unat (b_retries b)) \<and>
     (r = Inl Timeout \<longrightarrow> k = Suc (unat (b_retries b)))"
proof -
  obtain tx t where tx: "tx_frame E b s (b_seq b + 1) pl = Some tx"
    and run: "attempts (logged T) E s (b_seq b + 1) tx (Suc (unat (b_retries b))) (b_sock b) = Returns (r, t)"
    and b': "b' = b\<lparr>b_seq := b_seq b + 1, b_sock := t\<rparr>"
    using assms unfolding request_returns_iff by blast
  from attempts_log [OF run] show ?thesis
    using tx b' by (auto simp: Suc_le_eq intro!: exI [of _ tx])
qed

lemma sample_mac: "length (b_mac (sample_board t)) = 6"
  by (simp add: sample_board_def)

lemma sample_tx: "length pl \<le> 188 \<Longrightarrow> \<exists>tx. tx_frame E (sample_board t) s q pl = Some tx"
  using tx_frame_panics [OF sample_mac, of E t s q pl] by fastforce

lemma tx_frame_sock: "tx_frame E (b\<lparr>b_sock := t\<rparr>) s q pl = tx_frame E b s q pl"
  by (simp add: tx_frame_def)

definition logged_board :: "(script \<times> bytes list) board" where
  "logged_board = \<lparr>b_sock = ([], []), b_mac = [0, 17, 34, 51, 68, 85], b_seq = 0, b_timeout = 2000,
     b_retries = 2\<rparr>"

theorem transmissions_bounded_witness:
  "\<exists>b' tx. request (logged (script_transport [])) null_engine logged_board 3 [3] =
      Returns (Inl Timeout, b') \<and> snd (b_sock b') = replicate 3 tx"
proof -
  obtain tx where tx: "tx_frame null_engine logged_board 3 1 [3] = Some tx"
    using tx_frame_panics [of logged_board null_engine 3 1 "[3]"] by (fastforce simp: logged_board_def)
  let ?T = "logged (script_transport [])"
  have silent: "drain ?T null_engine 3 1 ([], l) = Some (TimedOut, ([], l))" for l
    by (rule drain_step) (simp add: stops_def logged_recv, simp add: script_transport_def)
  have send: "tr_send ?T ([], l) d = (Inr (), ([], l @ [d]))" for l d
    by (simp add: logged_send) (simp add: script_transport_def)
  have three: "Suc (unat (b_retries logged_board)) = Suc (Suc (Suc 0))" by (simp add: logged_board_def)
  have run: "request ?T null_engine logged_board 3 [3] =
      Returns (Inl Timeout, logged_board\<lparr>b_seq := 1, b_sock := ([], [tx, tx, tx])\<rparr>)"
    using tx unfolding request_returns_iff three
    by (simp add: send silent logged_board_def)
  from transmissions_bounded [OF this] run show ?thesis
    by (auto simp: logged_board_def)
qed

section \<open>Termination\<close>

text \<open>C7. On a network that delivers only finitely many frames before the next receive times
  out, none longer than the buffer, every request within the payload limit returns; it
  neither panics nor blocks for ever, whatever the frames contain.\<close>

theorem request_returns_on_quiet_network:
  assumes "\<forall>t n data t'. tr_recv T t n = (Inr data, t') \<longrightarrow> (pending t' :: nat) < pending t \<and> length data \<le> n"
    and "length (b_mac b) = 6" and "length pl \<le> 188"
  shows "\<exists>r b'. request T E b s pl = Returns (r, b')"
proof -
  have "quiet_transport T pending" using assms(1) by unfold_locales blast+
  then show ?thesis using assms(2,3) by (rule quiet_transport.request_total)
qed

theorem request_returns_on_quiet_network_witness:
  "\<exists>r b'. request (cut_transport []) arc_engine (sample_board [Inr [1, 2], Inl WouldBlock]) 3 [3] =
     Returns (r, b')"
  by (rule request_returns_on_quiet_network [where pending = length])
    (auto simp: sample_mac cut_transport_def map_sum_def split: list.splits sum.splits)

lemma drain_busy:
  assumes busy: "\<And>t. P t \<Longrightarrow> \<exists>data t'. tr_recv T t RX_BUF_SIZE = (Inr data, t') \<and>
      length data \<le> RX_BUF_SIZE \<and> skipped s q data \<and> P t'"
    and "P t"
  shows "drain T E s q t = None"
proof -
  have still: "P u'" if "passes T s q u u'" "P u" for u u'
    using that busy by (induction rule: passes.induct) fastforce+
  have "\<not> stops T E s q u r t'" if "P u" for u r t'
    using busy [OF that] by (auto simp: stops_def)
  then show ?thesis
    using still [OF _ \<open>P t\<close>] by (cases "drain T E s q t") (auto simp: drain_iff)
qed

text \<open>C8. The receive loop has no deadline of its own: as long as unrelated or malformed
  frames keep arriving before the socket's receive timeout, a request whose frame was sent
  never returns, whatever the retry budget.\<close>

theorem request_blocks_on_busy_network:
  assumes "\<forall>t. P t \<longrightarrow> (\<exists>data t'. tr_recv T t RX_BUF_SIZE = (Inr data, t') \<and>
      length data \<le> RX_BUF_SIZE \<and> skipped s (b_seq b + 1) data \<and> P t')"
    and "\<forall>tx. \<exists>t'. tr_send T (b_sock b) tx = (Inr (), t') \<and> P t'"
    and "length (b_mac b) = 6" and "length pl \<le> 188"
  shows "request T E b s pl = Diverges"
proof -
  obtain tx where tx: "tx_frame E (b\<lparr>b_seq := b_seq b + 1\<rparr>) s (b_seq b + 1) pl = Some tx"
    using assms(3,4) tx_frame_panics [of b E s "b_seq b + 1" pl]
    by (fastforce simp: tx_frame_seq)
  obtain t' where "tr_send T (b_sock b) tx = (Inr (), t')" "P t'" using assms(2) by blast
  moreover have "drain T E s (b_seq b + 1) t' = None"
    using assms(1) \<open>P t'\<close> by (intro drain_busy [where P = P]) blast+
  ultimately show ?thesis using request_eq [OF tx] by simp
qed

definition flood_transport :: "unit transport" where
  "flood_transport =
     \<lparr>tr_send = (\<lambda>t d. (Inr (), t)), tr_recv = (\<lambda>t n. (Inr (replicate (min n 60) 0), t)),
      tr_local_mac = (\<lambda>_. replicate 6 0), tr_set_timeout = (\<lambda>t ms. (Inr (), t))\<rparr>"

lemma zero_frame_skipped: "skipped s q (replicate 60 0)"
  by (simp add: skipped_iff frame_accessors frame_consts)

theorem request_blocks_on_busy_network_witness:
  "request flood_transport arc_engine (Board_new flood_transport ()) 2 [2] = Diverges"
  by (rule request_blocks_on_busy_network [where P = "\<lambda>_. True"])
    (auto simp: flood_transport_def Board_new_def board_consts zero_frame_skipped)

section \<open>Stale replies\<close>

lemma accepted_not_skipped: "accepted E s q data \<Longrightarrow> \<not> skipped s q data"
  by (simp add: accepted_def skipped_iff verify_checksum_eq)

text \<open>A late reply to a request is passed over by the next 4294967294 requests of the same
  controller: each request takes a new sequence number, whatever its result.\<close>

lemma stale_reply_skipped:
  assumes "(any_request T E ^^ n) b b'" and "0 < n" and "n < 2 ^ 32 - 1"
    and "accepted E s' (b_seq b) data"
  shows "skipped s'' (b_seq b') data \<and> skipped s'' (b_seq b' + 1) data"
proof -
  have fresh: "of_nat k \<noteq> (0 :: u32)" if "0 < k" "k < 2 ^ 32" for k
  proof -
    have "unat (of_nat k :: u32) = k" using that by (simp add: unsigned_of_nat take_bit_nat_eq_self)
    then show ?thesis using that by auto
  qed
  have "b_seq b' = b_seq b + of_nat n" using op_any.steps_keep [OF assms(1)] by simp
  moreover have "b_seq b + of_nat n \<noteq> b_seq b" and "b_seq b + of_nat (Suc n) \<noteq> b_seq b"
    using fresh [of n] fresh [of "Suc n"] assms(2,3) by auto
  ultimately show ?thesis using assms(4) by (auto simp: accepted_def skipped_iff add_ac)
qed

lemma script_silent:
  assumes "length pl \<le> 188"
  shows "request (script_transport m) null_engine ((sample_board [])\<lparr>b_seq := n\<rparr>) s pl =
    Returns (Inl Timeout, (sample_board [])\<lparr>b_seq := n + 1\<rparr>)"
proof -
  obtain tx where tx: "tx_frame null_engine (sample_board []) s (n + 1) pl = Some tx"
    using sample_tx [OF assms] by blast
  have silent: "drain (script_transport m) null_engine s (n + 1) [] = Some (TimedOut, [])"
    by (rule drain_step) (simp add: stops_def script_transport_def)
  have send: "tr_send (script_transport m) t d = (Inr (), t)" for t d by (simp add: script_transport_def)
  have three: "Suc (unat (b_retries ((sample_board [])\<lparr>b_seq := n\<rparr>))) = Suc (Suc (Suc 0))"
    by (simp add: sample_board_def)
  show ?thesis
    using tx unfolding request_returns_iff three
    by (simp add: send silent tx_frame_seq) (simp add: silent sample_board_def send)
qed

lemma stale_reply_skipped_witness:
  "skipped 3 (2 :: u32) sample_reply \<and> skipped 3 (2 + 1 :: u32) sample_reply"
proof -
  have "(any_request (script_transport []) null_engine ^^ 1)
      ((sample_board [])\<lparr>b_seq := 1\<rparr>) ((sample_board [])\<lparr>b_seq := 2\<rparr>)"
    using script_silent [of "[3]" "[]" 1 3] unfolding relpowp_1 by (auto simp: any_request_def op_step_def)
  from stale_reply_skipped [OF this, of 3 sample_reply 3] sample_reply_accepted
  show ?thesis by simp
qed

section \<open>The opcodes\<close>

lemma script_first_reply:
  assumes "accepted null_engine s 1 data" and "length pl \<le> 188"
  shows "request (script_transport m) null_engine (sample_board (Inr data # rest)) s pl =
    Returns (Inr (frame_payload data), (sample_board rest)\<lparr>b_seq := 1\<rparr>)"
proof -
  obtain tx where tx: "tx_frame null_engine (sample_board (Inr data # rest)) s 1 pl = Some tx"
    using sample_tx [OF assms(2)] by blast
  have "drain (script_transport m) null_engine s 1 (Inr data # rest) = Some (Matched (frame_payload data), rest)"
    using assms(1) by (intro accepted_stops) (simp add: script_transport_def)
  moreover have "tr_send (script_transport m) t d = (Inr (), t)" for t d
    by (simp add: script_transport_def)
  ultimately have "attempts (script_transport m) null_engine s 1 tx (Suc k) (Inr data # rest) =
      Returns (Inr (frame_payload data), rest)" for k
    by simp
  from this [of 2] show ?thesis
    using tx unfolding request_returns_iff
    by (simp add: sample_board_def numeral_3_eq_3 del: attempts.simps)
qed

text \<open>C11. The line object reaches the caller as the board laid it out, whether or not the
  board echoed the opcode before it (without the echo, provided the first status byte is
  not the opcode); a transport error, a timeout or a bad checksum reaches the caller
  unchanged.\<close>

theorem get_line_obj_end_to_end:
  assumes "request T E b 2 [2] = Returns (q, b')"
    and "q = Inl e \<or> q = Inr (2 # line_reply status link md path an m atm profiles uptime @ pad) \<or>
      q = Inr (line_reply status link md path an m atm profiles uptime @ pad) \<and>
        drop_bit 24 status \<noteq> 2"
  shows "get_line_obj T E b = Returns
     (case q of Inl e \<Rightarrow> Inl e | Inr _ \<Rightarrow> Inr
        \<lparr>lo_status = status, lo_link_status = LinkStatus_from_code link, lo_modulation_code = md,
         lo_data_path = DataPath_from_code path, lo_annex_code = an,
         lo_vdsl2_profile_bitmask = profiles, lo_is_atm = (atm \<noteq> 0), lo_uptime_secs = uptime,
         lo_metrics = m\<rparr>, b')"
proof -
  define reply where "reply = line_reply status link md path an m atm profiles uptime @ pad"
  have len: "63 \<le> length reply" by (simp add: reply_def line_reply_def)
  have parse: "parse_line_obj reply = Inr
      \<lparr>lo_status = status, lo_link_status = LinkStatus_from_code link, lo_modulation_code = md,
         lo_data_path = DataPath_from_code path, lo_annex_code = an,
         lo_vdsl2_profile_bitmask = profiles, lo_is_atm = (atm \<noteq> 0), lo_uptime_secs = uptime,
         lo_metrics = m\<rparr>"
    unfolding reply_def by (rule parse_line_obj_built)
  have hd: "hd reply = ucast (drop_bit 24 status)" and "reply \<noteq> []"
    by (simp_all add: reply_def line_reply_def to_be32_def)
  then have raw: "strip_echo reply 2 = reply" if "drop_bit 24 status \<noteq> 2"
    using that top_byte_eq [of status 2] by (cases reply) (simp_all add: strip_echo_def)
  have result: "get_line_obj T E b = Returns (Inr (projr (parse_line_obj reply)), b')"
    if "q = Inr p" "strip_echo p 2 = reply" for p
    using assms(1) that len by (simp add: get_line_obj_def then_reply_def Let_def parse)
  from assms(2) [folded reply_def] show ?thesis
  proof (elim disjE conjE)
    assume "q = Inl e"
    then show ?thesis using assms(1) by (simp add: get_line_obj_def then_reply_def)
  next
    assume q: "q = Inr (2 # reply)"
    with result [OF q] show ?thesis by (simp add: strip_echo_def parse)
  next
    assume q: "q = Inr reply" and "drop_bit 24 status \<noteq> 2"
    with result [OF q raw] show ?thesis by (simp add: parse)
  qed
qed

text \<open>A line-object reply frame: opcode 2, sequence number 1, 64 bytes of payload.\<close>

definition line_frame :: "bytes \<Rightarrow> bytes" where
  "line_frame payload =
     replicate 14 0 @ [0x10, 2, 0, 0, 0, 1, 0, of_nat (length payload), 0, 0] @ payload"

lemma line_frame_ok:
  assumes "length payload \<le> 188"
  shows "accepted null_engine 2 1 (line_frame payload)" and "frame_payload (line_frame payload) = payload"
proof -
  have "unat (ucast (of_nat (length payload) :: byte) :: u16) = length payload"
    using assms by (simp add: unsigned_ucast_eq unsigned_of_nat take_bit_nat_eq_self)
  moreover have "be16_at (line_frame payload) 20 = ucast (of_nat (length payload) :: byte)"
    by (simp add: line_frame_def be16_at_def subslice_def from_be16_def)
  ultimately have len: "unat (be16_at (line_frame payload) 20) = length payload"
    by simp
  then show "frame_payload (line_frame payload) = payload"
    by (simp add: frame_accessors frame_consts) (simp add: line_frame_def subslice_def)
  show "accepted null_engine 2 1 (line_frame payload)"
    using len assms
    by (simp add: accepted_def verify_checksum_eq payload_len_of_def digest_in_parts_def
        null_engine_def frame_accessors frame_consts board_consts)
      (simp add: line_frame_def be16_at_def be32_at_def from_be16_def from_be32_def subslice_def nth_append)
qed

definition zero_metrics :: line_metrics where
  "zero_metrics = \<lparr>down_rate = 0, up_rate = 0, up_output_power = 0, down_output_power = 0,
     up_noise_margin = 0, down_noise_margin = 0, up_attenuation = 0, down_attenuation = 0,
     up_attainable_rate = 0, down_attainable_rate = 0, up_crc_errors = 0, down_crc_errors = 0\<rparr>"

theorem get_line_obj_end_to_end_witness:
  "\<exists>l b'. get_line_obj (script_transport []) null_engine
      (sample_board [Inr (line_frame (2 # line_reply 0 1 6 1 1 zero_metrics 0 0x40 3600))]) =
      Returns (Inr l, b') \<and> lo_link_status l = Up \<and> lo_uptime_secs l = 3600 \<and>
      line_vdsl2_profiles l = Some SEVENTEEN_A"
proof -
  let ?p = "2 # line_reply 0 1 6 1 1 zero_metrics 0 0x40 3600"
  have len: "length ?p \<le> 188" by (simp add: line_reply_def)
  have "request (script_transport []) null_engine (sample_board [Inr (line_frame ?p)]) 2 [2] =
      Returns (Inr ?p, (sample_board [])\<lparr>b_seq := 1\<rparr>)"
    using script_first_reply [OF line_frame_ok(1) [OF len], of "[2]" "[]" "[]"]
    by (simp add: line_frame_ok(2) [OF len])
  from get_line_obj_end_to_end [OF this, of "Timeout" 0 1 6 1 1 zero_metrics 0 "0x40" 3600 "[]"]
  show ?thesis
    by (simp add: LinkStatus_from_code_def line_vdsl2_profiles_def profile_defs)
qed

text \<open>The statistics reply is decoded when it is at least 29 bytes long, or exactly 28
  bytes not starting with 4: the 28-byte reply without an echo whose status word starts with
  the byte 4 is mistaken for an echoed one and reported as too short.\<close>

lemma unechoed_stats_reply:
  assumes "request T E b 4 [4] = Returns (Inr p, b')"
  shows "get_channel_stats T E b = Returns
     (if length p < 28 \<or> (length p = 28 \<and> hd p = 4)
      then Inl (BadResponse ''channel stats reply too short'')
      else Inr (projr (parse_channel_stats (if hd p = 4 then tl p else p))), b')"
proof (cases p)
  case Nil
  then show ?thesis
    using assms by (simp add: get_channel_stats_def then_reply_def strip_echo_def)
next
  case (Cons x xs)
  then show ?thesis
    using assms
    by (simp add: get_channel_stats_def then_reply_def strip_echo_def Let_def parse_channel_stats_def)
      arith
qed

lemma unechoed_stats_reply_witness:
  "\<exists>b'. get_channel_stats
      \<lparr>tr_send = (\<lambda>t d. (Inr (), t)), tr_recv = (\<lambda>t n. (Inr t, t)),
       tr_local_mac = (\<lambda>_. []), tr_set_timeout = (\<lambda>t ms. (Inr (), t))\<rparr> null_engine
      \<lparr>b_sock = replicate 14 0 @ [0x10, 4, 0, 0, 0, 1, 0, 28, 0, 0] @ 4 # replicate 27 0,
       b_mac = replicate 6 0, b_seq = 0, b_timeout = 2000, b_retries = 3\<rparr> =
     Returns (Inl (BadResponse ''channel stats reply too short''), b')"
proof -
  define T :: "bytes transport" where "T = \<lparr>tr_send = (\<lambda>t d. (Inr (), t)), tr_recv = (\<lambda>t n. (Inr t, t)),
       tr_local_mac = (\<lambda>_. []), tr_set_timeout = (\<lambda>t ms. (Inr (), t))\<rparr>"
  define f :: bytes where "f = replicate 14 0 @ [0x10, 4, 0, 0, 0, 1, 0, 28, 0, 0] @ 4 # replicate 27 0"
  define b where "b = \<lparr>b_sock = f, b_mac = replicate 6 0, b_seq = 0, b_timeout = 2000, b_retries = 3\<rparr>"
  have acc: "accepted null_engine 4 1 f"
    by (simp add: accepted_def verify_checksum_eq payload_len_of_def digest_in_parts_def
        null_engine_def frame_accessors frame_consts board_consts f_def be16_at_def be32_at_def
        from_be16_def from_be32_def subslice_def nth_append)
  have pay: "frame_payload f = 4 # replicate 27 0"
    by (simp add: frame_accessors frame_consts f_def be16_at_def from_be16_def subslice_def)
  obtain tx where tx: "tx_frame null_engine b 4 1 [4] = Some tx"
    using tx_frame_panics [of b null_engine 4 1 "[4]"] by (fastforce simp: b_def)
  have "drain T null_engine 4 1 f = Some (Matched (frame_payload f), f)"
    using acc by (intro accepted_stops) (simp add: T_def)
  moreover have "tr_send T t d = (Inr (), t)" for t d by (simp add: T_def)
  ultimately have "attempts T null_engine 4 1 tx (Suc k) f = Returns (Inr (frame_payload f), f)" for k
    by simp
  from this [of 3] have "request T null_engine b 4 [4] = Returns (Inr (frame_payload f), b\<lparr>b_seq := 1\<rparr>)"
    using tx unfolding request_returns_iff by (simp add: b_def del: attempts.simps)
  from unechoed_stats_reply [OF this]
  have "get_channel_stats T null_engine b =
      Returns (Inl (BadResponse ''channel stats reply too short''), b\<lparr>b_seq := 1\<rparr>)"
    by (simp add: pay)
  then show ?thesis unfolding T_def b_def f_def by blast
qed

end
