(* ===== verification/BoardFw.thy ===== *)
theory BoardFw
  imports BoardSpec
begin

text \<open>
  The four-stage firmware upload of the board controller (\<open>Board::firmware_upgrade\<close> in
  \<open>rbctl_dsl/src/board.rs\<close>).  The progress callback has no influence on the upload; the
  model returns the list of its calls.  The streaming loop advances by what the board
  acknowledges and has no bound of its own, so it is a partial function.
\<close>

record fw_progress =
  fp_stage :: byte
  fp_pct :: byte

definition FwProgress_stage :: "byte \<Rightarrow> fw_progress" where
  "FwProgress_stage stage = \<lparr>fp_stage = stage, fp_pct = 0\<rparr>"

definition FwProgress_streaming :: "byte \<Rightarrow> fw_progress" where
  "FwProgress_streaming pct = \<lparr>fp_stage = STAGE_STREAM, fp_pct = pct\<rparr>"

record fw_upgrade_result =
  fr_version :: u32
  fr_status :: byte

type_synonym ('a, 't) fw_outcome = "((board_error + 'a) \<times> fw_progress list \<times> 't board) outcome"

text \<open>Setting the stage's timeout and retry budget, then the request of opcode 8.  Only the
  fields of the controller are set: the socket keeps its own timeout.\<close>

definition fw_request ::
  "'t transport \<Rightarrow> 'd crc_engine \<Rightarrow> nat \<Rightarrow> byte \<Rightarrow> bytes \<Rightarrow> 't board \<Rightarrow> (bytes, 't) board_result" where
  "fw_request T E timeout retries payload b =
     (let b = b\<lparr>b_timeout := timeout\<rparr>;
          b = b\<lparr>b_retries := retries\<rparr>
      in request T E b 8 payload)"

definition fw_status_of :: "bytes \<Rightarrow> u32" where
  "fw_status_of data = (if 5 \<le> length data then be32_at data 1 else 0)"

definition fw_next_chunk :: "u32 \<Rightarrow> bytes \<Rightarrow> u32" where
  "fw_next_chunk chunk_idx data =
     (let chunk_idx =
        (if 5 \<le> length data then
           (let last_good = be32_at data 1 in
            if chunk_idx < last_good then last_good else chunk_idx)
         else chunk_idx)
      in chunk_idx + 1)"

definition fw_percent :: "u32 \<Rightarrow> u32 \<Rightarrow> byte" where
  "fw_percent chunk_idx total_chunks = ucast ((chunk_idx * 100) div max total_chunks 1)"

partial_function (option) fw_stream ::
  "'t transport \<Rightarrow> 'd crc_engine \<Rightarrow> bytes \<Rightarrow> u32 \<Rightarrow> u32 \<Rightarrow> byte \<Rightarrow> fw_progress list \<Rightarrow> 't board \<Rightarrow>
     (unit, 't) fw_outcome option" where
  "fw_stream T E img total_chunks chunk_idx last_pct evs b =
     (if \<not> chunk_idx < total_chunks then Some (Returns (Inr (), evs, b))
      else
        let offset = 0x100 + unat chunk_idx * CHUNK_SIZE;
            fin = min (offset + CHUNK_SIZE) (length img) in
        if fin < offset then Some Panics
        else
          let chunk = subslice offset (fin - offset) img;
              payload = [STAGE_STREAM] @ to_be16 (ucast chunk_idx) @ chunk in
          (case request T E b 8 payload of
             Diverges \<Rightarrow> Some Diverges
           | Panics \<Rightarrow> Some Panics
           | Returns (Inl e, b) \<Rightarrow> Some (Returns (Inl e, evs, b))
           | Returns (Inr resp, b) \<Rightarrow>
               let data = strip_echo resp 0x08;
                   chunk_idx = fw_next_chunk chunk_idx data;
                   pct = fw_percent chunk_idx total_chunks in
               if last_pct + 10 \<le> pct \<or> chunk_idx = total_chunks then
                 fw_stream T E img total_chunks chunk_idx pct
                   (evs @ [FwProgress_streaming pct]) b
               else fw_stream T E img total_chunks chunk_idx last_pct evs b))"

definition fw_total_chunks :: "bytes \<Rightarrow> u32" where
  "fw_total_chunks img =
     (let content_len = length img - 0x100
      in of_nat ((content_len + CHUNK_SIZE - 1) div CHUNK_SIZE))"

definition fw_restore :: "'t board \<Rightarrow> 't board \<Rightarrow> 't board" where
  "fw_restore saved b = b\<lparr>b_timeout := b_timeout saved, b_retries := b_retries saved\<rparr>"

definition fw_complete ::
  "'t transport \<Rightarrow> 'd crc_engine \<Rightarrow> 't board \<Rightarrow> fw_progress list \<Rightarrow> 't board \<Rightarrow>
     (fw_upgrade_result, 't) fw_outcome" where
  "fw_complete T E saved evs b =
     bind_outcome (fw_request T E TIMEOUT_COMPLETE_MS RETRIES_COMPLETE complete_payload b)
       (\<lambda>(r, b). case r of
          Inl e \<Rightarrow> Returns (Inl e, evs, b)
        | Inr resp \<Rightarrow>
            let data = strip_echo resp 0x08;
                version = (if 5 \<le> length data then be32_at data 1 else 0);
                status = (if 6 \<le> length data then data ! 5 else 0)
            in Returns (Inr \<lparr>fr_version = version, fr_status = status\<rparr>,
                 evs @ [FwProgress_stage STAGE_COMPLETE], fw_restore saved b))"

definition fw_verify ::
  "'t transport \<Rightarrow> 'd crc_engine \<Rightarrow> 't board \<Rightarrow> fw_progress list \<Rightarrow> 't board \<Rightarrow>
     (fw_upgrade_result, 't) fw_outcome" where
  "fw_verify T E saved evs b =
     bind_outcome (fw_request T E TIMEOUT_VERIFY_MS RETRIES_VERIFY verify_payload b)
       (\<lambda>(r, b). case r of
          Inl e \<Rightarrow> Returns (Inl e, evs, b)
        | Inr resp \<Rightarrow>
            if fw_status_of (strip_echo resp 0x08) \<noteq> 0 then
              Returns (Inl (BadResponse ''board firmware verification failed''), evs,
                fw_restore saved b)
            else fw_complete T E saved (evs @ [FwProgress_stage STAGE_VERIFY]) b)"

definition firmware_upgrade ::
  "'t transport \<Rightarrow> 'd crc_engine \<Rightarrow> bytes \<Rightarrow> 't board \<Rightarrow> (fw_upgrade_result, 't) fw_outcome" where
  "firmware_upgrade T E img saved =
     bind_outcome
       (fw_request T E TIMEOUT_ANNOUNCE_MS RETRIES_ANNOUNCE
          (announce_payload (of_nat (length img))) saved)
       (\<lambda>(r, b). case r of
          Inl e \<Rightarrow> Returns (Inl e, [], b)
        | Inr resp \<Rightarrow>
            if fw_status_of (strip_echo resp 0x08) \<noteq> 0 then
              Returns (Inl (BadResponse ''announce rejected by board''), [], fw_restore saved b)
            else
              let evs = [FwProgress_stage STAGE_ANNOUNCE];
                  b = b\<lparr>b_timeout := TIMEOUT_STREAM_MS\<rparr>;
                  b = b\<lparr>b_retries := RETRIES_STREAM\<rparr> in
              (case fw_stream T E img (fw_total_chunks img) 0 0 evs b of
                 None \<Rightarrow> Diverges
               | Some m \<Rightarrow>
                   bind_outcome m (\<lambda>(r, evs, b).
                     case r of Inl e \<Rightarrow> Returns (Inl e, evs, b)
                     | Inr _ \<Rightarrow> fw_verify T E saved evs b)))"

section \<open>What the upload does\<close>

lemma fw_request_keeps:
  "fw_request T E ms n pl b = Returns (r, b') \<Longrightarrow>
     b_timeout b' = ms \<and> b_retries b' = n \<and> b_mac b' = b_mac b \<and> b_seq b' = b_seq b + 1"
  by (auto simp: fw_request_def Let_def dest!: request_keeps)

lemma request_too_long:
  "length (b_mac b) = 6 \<Longrightarrow> 188 < length pl \<Longrightarrow> request T E b s pl = Panics"
  using tx_frame_panics [of b E s "b_seq b + 1" pl]
  by (simp add: request_def SeqCounter_next_def Let_def tx_frame_seq)

lemma first_chunk_panics:
  assumes "0x200000 \<le> length img" "length img \<le> 0x800000" and mac: "length (b_mac b) = 6"
  shows "fw_stream T E img (fw_total_chunks img) 0 pct evs b = Some Panics"
proof -
  have chunks: "(length img - 256 + 1023) div 1024 < 2 ^ 32" "0 < (length img - 256 + 1023) div 1024"
    using assms(1,2) by simp_all
  then have "unat (fw_total_chunks img) = (length img - 256 + 1023) div 1024"
    by (simp add: fw_total_chunks_def CHUNK_SIZE_def Let_def unsigned_of_nat take_bit_nat_eq_self)
  then have pos: "0 < fw_total_chunks img"
    using chunks(2) by (simp add: word_less_nat_alt)
  have "request T E b 8 ([STAGE_STREAM] @ to_be16 (ucast (0 :: u32)) @ subslice 256 1024 img) = Panics"
    using assms by (intro request_too_long) simp_all
  then show ?thesis
    using pos assms by (subst fw_stream.simps) (simp add: CHUNK_SIZE_def Let_def min_def)
qed


text \<open>C13. The announcement: a board that rejects it leaves the controller's timeout and
  retry budget as they were; a failure of the request itself (timeout, bad checksum, I/O)
  does not, it leaves those of the announcement stage behind.\<close>

theorem announce_failure_modes:
  assumes "fw_request T E 1500 5 (announce_payload (of_nat (length img))) b = Returns (r, b1)"
  shows "case r of
      Inl e \<Rightarrow> firmware_upgrade T E img b = Returns (Inl e, [], b1) \<and>
        b_timeout b1 = 1500 \<and> b_retries b1 = 5
    | Inr resp \<Rightarrow> fw_status_of (strip_echo resp 8) \<noteq> 0 \<longrightarrow>
        (\<exists>b'. firmware_upgrade T E img b =
           Returns (Inl (BadResponse ''announce rejected by board''), [], b') \<and>
           b_timeout b' = b_timeout b \<and> b_retries b' = b_retries b)"
  using assms fw_request_keeps [OF assms]
  by (auto simp: firmware_upgrade_def TIMEOUT_ANNOUNCE_MS_def RETRIES_ANNOUNCE_def fw_restore_def
      split: sum.splits)

lemma script_announce_silent:
  assumes "length pl \<le> 188"
  shows "\<exists>b'. fw_request (script_transport m) null_engine 1500 5 pl (sample_board []) =
    Returns (Inl Timeout, b') \<and> b_retries b' = 5"
proof -
  obtain tx where tx: "tx_frame null_engine (sample_board []) 8 1 pl = Some tx"
    using sample_tx [OF assms] by blast
  have silent: "drain (script_transport m) null_engine 8 1 [] = Some (TimedOut, [])"
    by (rule drain_step) (simp add: stops_def script_transport_def)
  have send: "tr_send (script_transport m) t d = (Inr (), t)" for t d by (simp add: script_transport_def)
  have all: "attempts (script_transport m) null_engine 8 1 tx n [] = Returns (Inl Timeout, [])" for n
    by (induction n) (simp_all add: send silent)
  show ?thesis
    using tx unfolding fw_request_def Let_def request_returns_iff
    by (simp add: all sample_board_def tx_frame_def del: attempts.simps)
qed

theorem announce_failure_modes_witness:
  "\<exists>b'. firmware_upgrade (script_transport []) null_engine [1, 2, 3] (sample_board []) =
     Returns (Inl Timeout, [], b') \<and> b_retries b' = 5 \<and> b_timeout b' = 1500"
proof -
  have "length (announce_payload (of_nat (length [1 :: byte, 2, 3]))) \<le> 188"
    by (simp add: announce_payload_def)
  then obtain b' where "fw_request (script_transport []) null_engine 1500 5
      (announce_payload (of_nat (length [1 :: byte, 2, 3]))) (sample_board []) = Returns (Inl Timeout, b')"
    using script_announce_silent by blast
  from announce_failure_modes [OF this] show ?thesis by auto
qed

definition sample_image :: bytes where
  "sample_image = header_bytes sample_header (replicate 33 0) (replicate 36 0) (replicate 128 0)
     @ replicate 0x1FFF00 0"

lemma sample_image_accepted: "validate_image sample_image = Inr sample_header"
proof -
  have "parse_header sample_image = Inr sample_header"
    by (simp add: sample_image_def sample_header_def parse_header_built)
  moreover have "length sample_image = 0x200000"
    by (simp add: sample_image_def header_bytes_def MAGIC_2RDH_def sample_header_def)
  ultimately show ?thesis
    by (simp add: validate_image_def image_size_defs) (simp add: sample_header_def)
qed


text \<open>The streaming index moves forward past whatever the board acknowledges, except that
  an acknowledgement of the largest index wraps it to zero, so that the upload starts
  again.\<close>

lemma stream_index_progress:
  "chunk_idx < fw_next_chunk chunk_idx data \<or>
   fw_next_chunk chunk_idx data = 0 \<and>
     (chunk_idx = 0xFFFFFFFF \<or> 5 \<le> length data \<and> be32_at data 1 = 0xFFFFFFFF)"
proof -
  have step: "a < a + 1 \<or> a + 1 = 0 \<and> a = 0xFFFFFFFF" for a :: u32
  proof (cases "1 + a = 0")
    case True
    then have "a = - 1" using max_word_wrap [of a] by (simp add: add.commute)
    then show ?thesis by simp
  next
    case False
    then show ?thesis using unatSuc [of a] by (simp add: word_less_nat_alt add.commute)
  qed
  show ?thesis
    using step [of chunk_idx] step [of "be32_at data 1"]
    by (auto simp: fw_next_chunk_def Let_def)
qed

end
