(* ===== verification/AfPacket.thy ===== *)
theory AfPacket
  imports BoardSpec RustStr
begin

text \<open>
  The raw socket crate (\<open>af_packet/src/lib.rs\<close>) and the transport the board controller gets
  from it: MAC parsing, the BPF filter, opening, sending and receiving.  The kernel is the
  record of system calls \<open>K\<close>, over a kernel state of any type; what the code relies on of
  packet reception and of the BPF interpreter are the locales \<open>kernel_rx\<close> and
  \<open>bpf_machine\<close>.  \<open>errno\<close> values are the I/O errors of the controller.
\<close>

section \<open>MAC addresses\<close>

datatype mac_error = BadOctet string | OctetCount nat

primrec parse_octets :: "string list \<Rightarrow> mac_error + bytes" where
  "parse_octets [] = Inr []"
| "parse_octets (s # ss) =
     (case parse_u8_hex s of
        None \<Rightarrow> Inl (BadOctet s)
      | Some b \<Rightarrow> (case parse_octets ss of Inl e \<Rightarrow> Inl e | Inr bs \<Rightarrow> Inr (b # bs)))"

definition parse_mac :: "string \<Rightarrow> mac_error + bytes" where
  "parse_mac s =
     (case parse_octets (split_char (CHR '':'') (trim s)) of
        Inl e \<Rightarrow> Inl e
      | Inr mac \<Rightarrow> if length mac \<noteq> 6 then Inl (OctetCount (length mac)) else Inr mac)"

section \<open>The packet filter\<close>

definition BPF_LD_H_ABS :: u16 where "BPF_LD_H_ABS = 0x28"
definition BPF_JEQ_K :: u16 where "BPF_JEQ_K = 0x15"
definition BPF_RET_K :: u16 where "BPF_RET_K = 0x06"
definition ETH_P_ALL :: u16 where "ETH_P_ALL = 0x0003"

lemmas bpf_codes = BPF_LD_H_ABS_def BPF_JEQ_K_def BPF_RET_K_def

record sock_filter =
  sf_code :: u16
  sf_jt :: byte
  sf_jf :: byte
  sf_k :: u32

definition ethertype_bpf_k :: "u16 \<Rightarrow> u32" where
  "ethertype_bpf_k ethertype = ucast ethertype"

definition build_bpf :: "u16 \<Rightarrow> sock_filter list" where
  "build_bpf ethertype =
     [\<lparr>sf_code = BPF_LD_H_ABS, sf_jt = 0, sf_jf = 0, sf_k = 12\<rparr>,
      \<lparr>sf_code = BPF_JEQ_K, sf_jt = 1, sf_jf = 0, sf_k = ethertype_bpf_k ethertype\<rparr>,
      \<lparr>sf_code = BPF_RET_K, sf_jt = 0, sf_jf = 0, sf_k = 0\<rparr>,
      \<lparr>sf_code = BPF_RET_K, sf_jt = 0, sf_jf = 0, sf_k = 0xFFFF\<rparr>]"

text \<open>The classic BPF interpreter on the three instructions used: \<open>run prog pkt pc acc\<close> is the
  number of bytes it lets through from program counter \<open>pc\<close> with accumulator \<open>acc\<close>.\<close>

locale bpf_machine =
  fixes run :: "sock_filter list \<Rightarrow> bytes \<Rightarrow> nat \<Rightarrow> u32 \<Rightarrow> nat"
  assumes run_ld_h_abs: "pc < length prog \<Longrightarrow> sf_code (prog ! pc) = 0x28 \<Longrightarrow>
      run prog pkt pc acc =
        (let k = unat (sf_k (prog ! pc)) in
         if k + 2 \<le> length pkt then run prog pkt (pc + 1) (ucast (be16_at pkt k)) else 0)"
    and run_jeq_k: "pc < length prog \<Longrightarrow> sf_code (prog ! pc) = 0x15 \<Longrightarrow>
      run prog pkt pc acc =
        run prog pkt (pc + 1 + unat (if acc = sf_k (prog ! pc) then sf_jt (prog ! pc)
          else sf_jf (prog ! pc))) acc"
    and run_ret_k: "pc < length prog \<Longrightarrow> sf_code (prog ! pc) = 0x06 \<Longrightarrow>
      run prog pkt pc acc = unat (sf_k (prog ! pc))"
begin

lemma filter_ethertype:
  "run (build_bpf et) pkt 0 0 = (if 14 \<le> length pkt \<and> be16_at pkt 12 = et then 0xFFFF else 0)"
proof (cases "14 \<le> length pkt")
  case True
  let ?p = "build_bpf et"
  have "run ?p pkt 0 0 = run ?p pkt 1 (ucast (be16_at pkt 12))"
    using True by (subst run_ld_h_abs) (simp_all add: build_bpf_def bpf_codes)
  also have "\<dots> = run ?p pkt (if be16_at pkt 12 = et then 3 else 2) (ucast (be16_at pkt 12))"
    by (subst run_jeq_k) (simp_all add: build_bpf_def bpf_codes ethertype_bpf_k_def
        ucast_16_32_inject numeral_2_eq_2 numeral_3_eq_3)
  also have "\<dots> = (if be16_at pkt 12 = et then 0xFFFF else 0)"
    by (subst run_ret_k) (simp_all add: build_bpf_def bpf_codes)
  finally show ?thesis using True by simp
next
  case False
  then show ?thesis by (subst run_ld_h_abs) (simp_all add: build_bpf_def bpf_codes)
qed

end

section \<open>The socket\<close>

record 'k kernel =
  k_socket :: "'k \<Rightarrow> u16 \<Rightarrow> (io_error + unit) \<times> 'k"
  k_broadcast :: "'k \<Rightarrow> (io_error + unit) \<times> 'k"
  k_read_address :: "'k \<Rightarrow> string \<Rightarrow> io_error + string"
  k_if_nametoindex :: "'k \<Rightarrow> string \<Rightarrow> nat"
  k_last_error :: "'k \<Rightarrow> io_error"
  k_attach_filter :: "'k \<Rightarrow> sock_filter list \<Rightarrow> (io_error + unit) \<times> 'k"
  k_bind :: "'k \<Rightarrow> u16 \<Rightarrow> nat \<Rightarrow> (io_error + unit) \<times> 'k"
  k_rcvtimeo :: "'k \<Rightarrow> nat \<Rightarrow> nat \<Rightarrow> (io_error + unit) \<times> 'k"
  k_sendto :: "'k \<Rightarrow> u16 \<Rightarrow> nat \<Rightarrow> bytes \<Rightarrow> (io_error + nat) \<times> 'k"
  k_recvfrom :: "'k \<Rightarrow> nat \<Rightarrow> (io_error + bytes) \<times> 'k"

record 'k raw_socket =
  rs_kernel :: 'k
  rs_ifindex :: nat
  rs_local_mac :: bytes
  rs_ethertype :: u16

text \<open>\<open>open_inner\<close>: each step's error is returned at once.  A MAC that does not parse is an
  invalid-data error.\<close>

definition open_inner ::
  "'k kernel \<Rightarrow> 'k \<Rightarrow> string \<Rightarrow> u16 option \<Rightarrow> (io_error + 'k raw_socket) \<times> 'k" where
  "open_inner K k iface filt =
     (let proto = (case filt of None \<Rightarrow> ETH_P_ALL | Some et \<Rightarrow> et) in
      case k_socket K k proto of
        (Inl e, k) \<Rightarrow> (Inl e, k)
      | (Inr _, k) \<Rightarrow>
      (case k_broadcast K k of
        (Inl e, k) \<Rightarrow> (Inl e, k)
      | (Inr _, k) \<Rightarrow>
      (case k_read_address K k iface of
        Inl e \<Rightarrow> (Inl e, k)
      | Inr s \<Rightarrow>
      (case parse_mac s of
        Inl _ \<Rightarrow> (Inl (OtherIo ''invalid data''), k)
      | Inr mac \<Rightarrow>
        let ifindex = k_if_nametoindex K k iface in
        if ifindex = 0 then (Inl (k_last_error K k), k)
        else
          (case (case filt of None \<Rightarrow> (Inr (), k) | Some et \<Rightarrow> k_attach_filter K k (build_bpf et)) of
             (Inl e, k) \<Rightarrow> (Inl e, k)
           | (Inr _, k) \<Rightarrow>
             (case k_bind K k proto ifindex of
                (Inl e, k) \<Rightarrow> (Inl e, k)
              | (Inr _, k) \<Rightarrow>
                  (Inr \<lparr>rs_kernel = k, rs_ifindex = ifindex, rs_local_mac = mac,
                        rs_ethertype = proto\<rparr>, k)))))))"

definition raw_open :: "'k kernel \<Rightarrow> 'k \<Rightarrow> string \<Rightarrow> u16 \<Rightarrow> (io_error + 'k raw_socket) \<times> 'k" where
  "raw_open K k iface ethertype = open_inner K k iface (Some ethertype)"

definition raw_open_unfiltered :: "'k kernel \<Rightarrow> 'k \<Rightarrow> string \<Rightarrow> (io_error + 'k raw_socket) \<times> 'k" where
  "raw_open_unfiltered K k iface = open_inner K k iface None"

text \<open>The timeout in milliseconds, split into seconds and microseconds.\<close>

definition raw_set_timeout :: "'k kernel \<Rightarrow> 'k raw_socket \<Rightarrow> nat \<Rightarrow> (io_error + unit) \<times> 'k raw_socket" where
  "raw_set_timeout K s ms =
     (let (r, k) = k_rcvtimeo K (rs_kernel s) (ms div 1000) (ms mod 1000 * 1000)
      in (r, s\<lparr>rs_kernel := k\<rparr>))"

definition raw_send :: "'k kernel \<Rightarrow> 'k raw_socket \<Rightarrow> bytes \<Rightarrow> (io_error + nat) \<times> 'k raw_socket" where
  "raw_send K s frame =
     (let (r, k) = k_sendto K (rs_kernel s) (rs_ethertype s) (rs_ifindex s) frame
      in (r, s\<lparr>rs_kernel := k\<rparr>))"

definition raw_recv :: "'k kernel \<Rightarrow> 'k raw_socket \<Rightarrow> nat \<Rightarrow> (io_error + bytes) \<times> 'k raw_socket" where
  "raw_recv K s n =
     (let (r, k) = k_recvfrom K (rs_kernel s) n
      in (r, s\<lparr>rs_kernel := k\<rparr>))"

text \<open>The controller's transport over the raw socket.\<close>

definition raw_transport :: "'k kernel \<Rightarrow> 'k raw_socket transport" where
  "raw_transport K =
     \<lparr>tr_send = (\<lambda>s data. let (r, s) = raw_send K s data in (map_sum id (\<lambda>_. ()) r, s)),
      tr_recv = (\<lambda>s n. raw_recv K s n),
      tr_local_mac = rs_local_mac,
      tr_set_timeout = (\<lambda>s ms. raw_set_timeout K s ms)\<rparr>"

section \<open>What the controller relies on of packet reception\<close>

locale kernel_rx =
  fixes K :: "'k kernel"
    and queued :: "'k \<Rightarrow> nat"
  assumes recvfrom_fits: "k_recvfrom K k n = (Inr data, k') \<Longrightarrow> length data \<le> n"
    and recvfrom_dequeues: "k_recvfrom K k n = (Inr data, k') \<Longrightarrow> queued k' < queued k"

lemma kernel_rx_quiet:
  assumes "kernel_rx K queued"
  shows "quiet_transport (raw_transport K) (\<lambda>s. queued (rs_kernel s))"
  using kernel_rx.recvfrom_fits [OF assms] kernel_rx.recvfrom_dequeues [OF assms]
  by unfold_locales (auto simp: raw_transport_def raw_recv_def split: prod.splits)

sublocale kernel_rx \<subseteq> raw: quiet_transport "raw_transport K" "\<lambda>s. queued (rs_kernel s)"
  by (rule kernel_rx_quiet) (rule kernel_rx_axioms)

text \<open>A kernel that queues what arrives, cut to the caller's buffer.\<close>

record queue_state =
  qs_rx :: "bytes list"
  qs_tx :: "bytes list"
  qs_filter :: "sock_filter list option"

definition queue_kernel :: "queue_state kernel" where
  "queue_kernel =
     \<lparr>k_socket = (\<lambda>k _. (Inr (), k)), k_broadcast = (\<lambda>k. (Inr (), k)),
      k_read_address = (\<lambda>_ _. Inr ''02:00:00:00:00:01''), k_if_nametoindex = (\<lambda>_ _. 7),
      k_last_error = (\<lambda>_. OtherIo ''ENODEV''),
      k_attach_filter = (\<lambda>k p. (Inr (), k\<lparr>qs_filter := Some p\<rparr>)),
      k_bind = (\<lambda>k _ _. (Inr (), k)), k_rcvtimeo = (\<lambda>k _ _. (Inr (), k)),
      k_sendto = (\<lambda>k _ _ d. (Inr (length d), k\<lparr>qs_tx := qs_tx k @ [d]\<rparr>)),
      k_recvfrom = (\<lambda>k n. case qs_rx k of [] \<Rightarrow> (Inl WouldBlock, k)
        | d # ds \<Rightarrow> (Inr (take n d), k\<lparr>qs_rx := ds\<rparr>))\<rparr>"

interpretation queue: kernel_rx queue_kernel "\<lambda>k. length (qs_rx k)"
  by unfold_locales (auto simp: queue_kernel_def split: list.splits)

text \<open>The interpreter of classic BPF, cut to programs whose jumps go forward.\<close>

fun bpf_from :: "sock_filter list \<Rightarrow> bytes \<Rightarrow> nat \<Rightarrow> u32 \<Rightarrow> nat" where
  "bpf_from [] pkt skip acc = 0"
| "bpf_from (i # rest) pkt (Suc skip) acc = bpf_from rest pkt skip acc"
| "bpf_from (i # rest) pkt 0 acc =
     (if sf_code i = 0x28 then
        (let k = unat (sf_k i) in
         if k + 2 \<le> length pkt then bpf_from rest pkt 0 (ucast (be16_at pkt k)) else 0)
      else if sf_code i = 0x15 then
        bpf_from rest pkt (unat (if acc = sf_k i then sf_jt i else sf_jf i)) acc
      else if sf_code i = 0x06 then unat (sf_k i)
      else 0)"

definition bpf_run :: "sock_filter list \<Rightarrow> bytes \<Rightarrow> nat \<Rightarrow> u32 \<Rightarrow> nat" where
  "bpf_run prog pkt pc acc = bpf_from prog pkt pc acc"

lemma bpf_from_drop: "bpf_from prog pkt (pc + n) acc = bpf_from (drop pc prog) pkt n acc"
proof (induction prog arbitrary: pc)
  case (Cons i prog)
  then show ?case by (cases pc) simp_all
qed simp

lemma bpf_from_at:
  assumes "pc < length prog"
  shows "bpf_from prog pkt pc acc = bpf_from (prog ! pc # drop (pc + 1) prog) pkt 0 acc"
proof -
  have "bpf_from prog pkt pc acc = bpf_from (drop pc prog) pkt 0 acc"
    using bpf_from_drop [of prog pkt pc 0 acc] by simp
  with assms show ?thesis by (simp add: Cons_nth_drop_Suc)
qed

interpretation bpf: bpf_machine bpf_run
proof
  fix pc :: nat and prog :: "sock_filter list" and pkt acc
  assume pc: "pc < length prog"
  note at = bpf_from_at [OF pc, of pkt acc]
  have next_pc: "bpf_from prog pkt (pc + 1) a = bpf_from (drop (pc + 1) prog) pkt 0 a" for a
    using bpf_from_drop [of prog pkt "pc + 1" 0 a] by simp
  show "sf_code (prog ! pc) = 0x28 \<Longrightarrow> bpf_run prog pkt pc acc =
      (let k = unat (sf_k (prog ! pc)) in
       if k + 2 \<le> length pkt then bpf_run prog pkt (pc + 1) (ucast (be16_at pkt k)) else 0)"
    unfolding bpf_run_def at next_pc by (simp add: Let_def)
  show "sf_code (prog ! pc) = 0x15 \<Longrightarrow> bpf_run prog pkt pc acc =
      bpf_run prog pkt (pc + 1 + unat (if acc = sf_k (prog ! pc) then sf_jt (prog ! pc)
        else sf_jf (prog ! pc))) acc"
    unfolding bpf_run_def at bpf_from_drop [of prog pkt "pc + 1"] by simp
  show "sf_code (prog ! pc) = 0x06 \<Longrightarrow> bpf_run prog pkt pc acc = unat (sf_k (prog ! pc))"
    unfolding bpf_run_def at by simp
qed

section \<open>Properties of the raw socket\<close>

text \<open>C16. On every machine that runs the three instructions as documented, the filter lets
  65535 bytes of a frame of the given ethertype through and nothing of any other frame,
  short ones included.\<close>

theorem filter_passes_only_ethertype:
  assumes "bpf_machine run"
  shows "run (build_bpf et) pkt 0 0 = (if 14 \<le> length pkt \<and> be16_at pkt 12 = et then 0xFFFF else 0)"
  using assms by (rule bpf_machine.filter_ethertype)

theorem filter_passes_only_ethertype_witness:
  "bpf_run (build_bpf 0x88B5) sample_frame 0 0 = 0xFFFF \<and> bpf_run (build_bpf 0x0800) sample_frame 0 0 = 0"
  unfolding filter_passes_only_ethertype [OF bpf.bpf_machine_axioms]
  by (simp add: sample_frame_def be16_at_def subslice_def from_be16_def)

definition hex_digit :: "bool \<Rightarrow> nat \<Rightarrow> char" where
  "hex_digit upper n =
     (if n < 10 then char_of (48 + n) else char_of ((if upper then 55 else 87) + n))"

definition hex_octet :: "bool \<Rightarrow> byte \<Rightarrow> string" where
  "hex_octet upper b = [hex_digit upper (unat b div 16), hex_digit upper (unat b mod 16)]"

definition show_mac :: "bool \<Rightarrow> bytes \<Rightarrow> string" where
  "show_mac upper mac =
     concat (map (\<lambda>b. hex_octet upper b @ [CHR '':'']) (butlast mac)) @ hex_octet upper (last mac)"

lemma hex_digit_facts:
  assumes "n < 16"
  shows "digit_value 16 (hex_digit u n) = Some n" "solid (hex_digit u n)"
    "hex_digit u n \<noteq> CHR ''+''" "hex_digit u n \<noteq> CHR '':''"
proof -
  have c: "(of_char (hex_digit u n) :: nat) = (if n < 10 then 48 + n else (if u then 55 else 87) + n)"
    using assms by (simp add: hex_digit_def)
  show "digit_value 16 (hex_digit u n) = Some n" "solid (hex_digit u n)"
    using assms by (auto simp: digit_value_def solid_def Let_def c)
  show "hex_digit u n \<noteq> CHR ''+''" "hex_digit u n \<noteq> CHR '':''"
    using assms c by (auto split: if_splits)
qed

lemma octet_nibbles: "unat (b :: byte) div 16 < 16" "unat b mod 16 < 16"
  using unat_bounds(1) [of b] by simp_all

lemma parse_hex_octet: "parse_u8_hex (hex_octet u b) = Some b"
proof -
  have "parse_unsigned 16 (2 ^ 8) (hex_octet u b) = Some (unat b)"
    using hex_digit_facts(1,3) [OF octet_nibbles(1), of u b] hex_digit_facts(1) [OF octet_nibbles(2), of u b]
      unat_bounds(1) [of b]
    by (simp add: parse_unsigned_def hex_octet_def)
  then show ?thesis by (simp add: parse_u8_hex_def)
qed

lemma parse_octets_shown: "parse_octets (map (hex_octet u) bs) = Inr bs"
  by (induction bs) (simp_all add: parse_hex_octet)

lemma split_shown_mac:
  assumes "mac \<noteq> []"
  shows "split_char (CHR '':'') (show_mac u mac) = map (hex_octet u) mac"
proof -
  have colon: "CHR '':'' \<notin> set (hex_octet u b)" for b
    using hex_digit_facts(4) [OF octet_nibbles(1), of u b] hex_digit_facts(4) [OF octet_nibbles(2), of u b]
    by (auto simp: hex_octet_def)
  have "show_mac u mac = concat (map (\<lambda>x. x @ [CHR '':'']) (map (hex_octet u) (butlast mac))) @ hex_octet u (last mac)"
    by (simp add: show_mac_def comp_def)
  then have "split_char (CHR '':'') (show_mac u mac) = map (hex_octet u) (butlast mac) @ [hex_octet u (last mac)]"
    using colon by (simp only:) (intro split_char_concat, auto)
  then show ?thesis using assms by (metis append_butlast_last_id list.simps(8,9) map_append)
qed

lemma show_mac_ends:
  assumes "mac \<noteq> []"
  shows "show_mac u mac \<noteq> []" "solid (hd (show_mac u mac))" "solid (last (show_mac u mac))"
proof -
  show "show_mac u mac \<noteq> []" "solid (last (show_mac u mac))"
    using hex_digit_facts(2) [OF octet_nibbles(2)] by (simp_all add: show_mac_def hex_octet_def)
  show "solid (hd (show_mac u mac))"
    using hex_digit_facts(2) [OF octet_nibbles(1)]
    by (cases "butlast mac") (simp_all add: show_mac_def hex_octet_def)
qed

text \<open>\<open>parse_mac\<close> reads back an address printed as two-digit octets in either case, with or
  without the newline of the \<open>sysfs\<close> file, and whatever it accepts has six octets.\<close>

lemma parse_mac_roundtrip:
  assumes "length mac = 6"
  shows "parse_mac (show_mac upper mac) = Inr mac \<and> parse_mac (show_mac upper mac @ [nl]) = Inr mac \<and>
    (\<forall>s. case parse_mac s of Inr m \<Rightarrow> length m = 6 | Inl _ \<Rightarrow> True)"
proof -
  have "mac \<noteq> []" using assms by auto
  then have "trim (show_mac upper mac) = show_mac upper mac"
    and "trim (show_mac upper mac @ [nl]) = show_mac upper mac"
    using show_mac_ends [of mac upper] by (simp_all add: trim_solid trim_newline nl_def)
  with \<open>mac \<noteq> []\<close> assms show ?thesis
    by (auto simp: parse_mac_def split_shown_mac parse_octets_shown split: sum.splits)
qed

lemma parse_mac_roundtrip_witness:
  "parse_mac (show_mac False [0, 0x11, 0x22, 0x33, 0x44, 0xFF] @ [nl]) = Inr [0, 0x11, 0x22, 0x33, 0x44, 0xFF]"
  using parse_mac_roundtrip [of "[0, 0x11, 0x22, 0x33, 0x44, 0xFF]" False] by simp

text \<open>A controller on a raw socket, over any kernel whose receive dequeues a packet and
  respects the buffer, completes every request within the payload limit.\<close>

lemma raw_socket_request_total:
  assumes "kernel_rx K queued" and "length (b_mac b) = 6" and "length pl \<le> 188"
  shows "\<exists>r b'. request (raw_transport K) E b s pl = Returns (r, b')"
  using kernel_rx_quiet [OF assms(1)] assms(2,3) by (rule quiet_transport.request_total)

lemma raw_socket_request_total_witness:
  "\<exists>r b'. request (raw_transport queue_kernel) arc_engine
     (Board_new (raw_transport queue_kernel)
       \<lparr>rs_kernel = \<lparr>qs_rx = [sample_frame, [1, 2, 3]], qs_tx = [], qs_filter = None\<rparr>, rs_ifindex = 7,
        rs_local_mac = [2, 0, 0, 0, 0, 1], rs_ethertype = 0x88B5\<rparr>) 2 [2] = Returns (r, b')"
  by (rule raw_socket_request_total [OF queue.kernel_rx_axioms])
    (simp_all add: Board_new_def raw_transport_def)

end
