(* ===== verification/UciCfg.thy ===== *)
theory UciCfg
  imports RustStr Validate
begin

text \<open>
  The configuration loader (\<open>rbctl_dsl/src/uci_cfg.rs\<close>): the option parsers, the precedence
  of command-line overrides over UCI options over the defaults derived from the line mode,
  and the built configuration.  The UCI library is the parameter \<open>get_opt\<close>, which looks a
  key up and may fail.  The well-formedness of what \<open>build\<close> returns is what the daemon's
  startup checks rely on.
\<close>

datatype xfer_mode = Atm | Ptm

record atm_config =
  ac_vpi :: byte
  ac_vci :: u16
  ac_encap :: atm_encap
  ac_link_type :: atm_link_type
  ac_qos :: atm_qos
  ac_pcr :: u32

record dsl_config =
  dc_modulation :: modulation
  dc_annex :: annex
  dc_profiles :: vdsl2_profiles
  dc_xfer_mode :: xfer_mode
  dc_atm :: "atm_config option"
  dc_bitswap :: bool
  dc_sra :: bool
  dc_transport_vlan_base :: byte

type_synonym config_error = string

definition quoted_error :: "string \<Rightarrow> string \<Rightarrow> config_error" where
  "quoted_error what other = what @ [CHR 0x20, CHR 0x27] @ other @ [CHR 0x27]"

section \<open>The option parsers\<close>

definition parse_modulation :: "string \<Rightarrow> string \<Rightarrow> config_error + modulation" where
  "parse_modulation line_mode xfer_mode =
     (if line_mode = ''vdsl'' \<or> line_mode = [] then Inr Vdsl2
      else if line_mode = ''adsl'' then Inr Adsl2Plus
      else Inl (quoted_error ''bad line_mode'' line_mode))"

definition parse_annex :: "string \<Rightarrow> config_error + annex" where
  "parse_annex s =
     (let s = trim s in
      if s = ''a'' \<or> s = ''A'' then Inr Annex_A
      else if s = ''b'' \<or> s = ''B'' then Inr Annex_B
      else if s = ''i'' \<or> s = ''I'' then Inr Annex_I
      else if s = ''j'' \<or> s = ''J'' then Inr Annex_J
      else if s = ''m'' \<or> s = ''M'' then Inr Annex_M
      else Inl (quoted_error ''bad annex'' s))"

definition tone_profile :: "string \<Rightarrow> vdsl2_profiles option" where
  "tone_profile tok =
     (if tok = ''8a'' then Some EIGHT_A
      else if tok = ''8b'' then Some EIGHT_B
      else if tok = ''8c'' then Some EIGHT_C
      else if tok = ''8d'' then Some EIGHT_D
      else if tok = ''12a'' then Some TWELVE_A
      else if tok = ''12b'' then Some TWELVE_B
      else if tok = ''17a'' then Some SEVENTEEN_A
      else if tok = ''30a'' then Some THIRTY_A
      else if tok = ''35b'' then Some THIRTYFIVE_B
      else None)"

primrec tone_tokens :: "vdsl2_profiles \<Rightarrow> string list \<Rightarrow> config_error + vdsl2_profiles" where
  "tone_tokens profiles [] = Inr profiles"
| "tone_tokens profiles (tok # toks) =
     (case tone_profile tok of
        None \<Rightarrow> Inl (quoted_error ''bad tone profile'' tok)
      | Some p \<Rightarrow> tone_tokens (profiles_bitor profiles p) toks)"

definition all_profiles :: vdsl2_profiles where
  "all_profiles = foldl profiles_bitor EIGHT_A
     [EIGHT_B, EIGHT_C, EIGHT_D, TWELVE_A, TWELVE_B, SEVENTEEN_A, THIRTY_A, THIRTYFIVE_B]"

definition parse_tone :: "string \<Rightarrow> config_error + vdsl2_profiles" where
  "parse_tone s =
     (let s = trim s in
      if s = [] \<or> s = ''a'' then Inr 0
      else if s = ''av'' then Inr all_profiles
      else tone_tokens 0 (split_whitespace s))"

definition parse_xfer_mode :: "string \<Rightarrow> config_error + xfer_mode" where
  "parse_xfer_mode s =
     (let s = trim s in
      if s = ''ptm'' \<or> s = [] then Inr Ptm
      else if s = ''atm'' then Inr Atm
      else Inl (quoted_error ''bad xfer_mode'' s))"

definition parse_encaps :: "string \<Rightarrow> config_error + atm_encap" where
  "parse_encaps s =
     (let s = trim s in
      if s = ''llc'' then Inr Llc
      else if s = ''vcmux'' then Inr Vcmux
      else Inl (quoted_error ''bad encaps'' s))"

definition parse_payload :: "string \<Rightarrow> config_error + atm_link_type" where
  "parse_payload s =
     (let s = trim s in
      if s = ''bridged'' then Inr Eoa
      else if s = ''routed'' then Inr Ipoa
      else if s = ''pppoa'' then Inr Pppoa
      else Inl (quoted_error ''bad payload'' s))"

section \<open>Overrides and the loader\<close>

record cli_overrides =
  ov_annex :: "string option"
  ov_line_mode :: "string option"
  ov_tone :: "string option"
  ov_xfer_mode :: "string option"
  ov_vpi :: "string option"
  ov_vci :: "string option"
  ov_encaps :: "string option"
  ov_payload :: "string option"
  ov_bitswap :: "bool option"
  ov_sra :: "bool option"
  ov_transport_vlan :: "byte option"

definition no_overrides :: cli_overrides where
  "no_overrides =
     \<lparr>ov_annex = None, ov_line_mode = None, ov_tone = None, ov_xfer_mode = None, ov_vpi = None,
      ov_vci = None, ov_encaps = None, ov_payload = None, ov_bitswap = None, ov_sra = None,
      ov_transport_vlan = None\<rparr>"

type_synonym uci = "string \<Rightarrow> string + string option"

definition uci_get :: "uci \<Rightarrow> string \<Rightarrow> string" where
  "uci_get get_opt key =
     (case get_opt key of Inl _ \<Rightarrow> [] | Inr None \<Rightarrow> [] | Inr (Some v) \<Rightarrow> v)"

definition nonempty :: "string option \<Rightarrow> string option" where
  "nonempty s = (case s of None \<Rightarrow> None | Some v \<Rightarrow> if v = [] then None else Some v)"

definition or_else :: "'a option \<Rightarrow> 'a option \<Rightarrow> 'a option" where
  "or_else a b = (case a of None \<Rightarrow> b | Some x \<Rightarrow> Some x)"

definition unwrap_or :: "'a option \<Rightarrow> 'a \<Rightarrow> 'a" where
  "unwrap_or a d = (case a of None \<Rightarrow> d | Some x \<Rightarrow> x)"

definition uci_nonempty :: "uci \<Rightarrow> string \<Rightarrow> string option" where
  "uci_nonempty get_opt key = (let v = uci_get get_opt key in if v = [] then None else Some v)"

definition resolve_line_mode :: "uci \<Rightarrow> cli_overrides \<Rightarrow> string" where
  "resolve_line_mode get_opt ov =
     unwrap_or
       (or_else (or_else (nonempty (ov_line_mode ov)) (uci_nonempty get_opt ''network.dsl.line_mode''))
          (case or_else (nonempty (ov_xfer_mode ov)) (uci_nonempty get_opt ''network.dsl.xfer_mode'') of
             None \<Rightarrow> None
           | Some xfer \<Rightarrow>
               if xfer = ''atm'' then Some ''adsl''
               else if xfer = ''ptm'' then Some ''vdsl''
               else None))
       ''vdsl''"

definition smart_defaults :: "string \<Rightarrow> string \<times> string" where
  "smart_defaults line_mode = (if line_mode = ''adsl'' then (''atm'', []) else (''ptm'', ''av''))"

definition resolve :: "uci \<Rightarrow> string option \<Rightarrow> string \<Rightarrow> string \<Rightarrow> string" where
  "resolve get_opt over key fallback =
     unwrap_or (or_else (nonempty over) (uci_nonempty get_opt key)) fallback"

definition uci_flag :: "uci \<Rightarrow> string \<Rightarrow> bool" where
  "uci_flag get_opt key = unwrap_or (map_option (\<lambda>v. v \<noteq> 0) (parse_u32 (uci_get get_opt key))) True"

definition build_atm :: "uci \<Rightarrow> cli_overrides \<Rightarrow> config_error + atm_config" where
  "build_atm get_opt ov =
     (let vpi_s = resolve get_opt (ov_vpi ov) ''network.@atm-bridge[0].vpi'' ''8'';
          vci_s = resolve get_opt (ov_vci ov) ''network.@atm-bridge[0].vci'' ''35'';
          encap = resolve get_opt (ov_encaps ov) ''network.@atm-bridge[0].encaps'' ''llc'';
          payload = resolve get_opt (ov_payload ov) ''network.@atm-bridge[0].payload'' ''bridged'' in
      case parse_encaps encap of
        Inl e \<Rightarrow> Inl e
      | Inr en \<Rightarrow>
          (case parse_payload payload of
             Inl e \<Rightarrow> Inl e
           | Inr ty \<Rightarrow> Inr
               \<lparr>ac_vpi = unwrap_or (parse_u8 vpi_s) 8, ac_vci = unwrap_or (parse_u16 vci_s) 35,
                ac_encap = en, ac_link_type = ty, ac_qos = Ubr, ac_pcr = 0\<rparr>))"

definition build_config :: "uci \<Rightarrow> cli_overrides \<Rightarrow> config_error + dsl_config" where
  "build_config get_opt ov =
     (let line_mode = resolve_line_mode get_opt ov;
          (default_xfer, default_tone) = smart_defaults line_mode;
          annex_str = resolve get_opt (ov_annex ov) ''network.dsl.annex'' ''b'';
          xfer_str = resolve get_opt (ov_xfer_mode ov) ''network.dsl.xfer_mode'' default_xfer;
          tone = resolve get_opt (ov_tone ov) ''network.dsl.tone'' default_tone in
      case parse_modulation line_mode xfer_str of
        Inl e \<Rightarrow> Inl e
      | Inr md \<Rightarrow>
      (case parse_annex annex_str of
        Inl e \<Rightarrow> Inl e
      | Inr an \<Rightarrow>
      (case parse_tone tone of
        Inl e \<Rightarrow> Inl e
      | Inr profiles \<Rightarrow>
      (case parse_xfer_mode xfer_str of
        Inl e \<Rightarrow> Inl e
      | Inr xfer \<Rightarrow>
        let profiles = (if md \<noteq> Vdsl2 \<and> md \<noteq> Multimode then 0 else profiles) in
        (case (if xfer = Atm then map_sum id Some (build_atm get_opt ov) else Inr None) of
           Inl e \<Rightarrow> Inl e
         | Inr atm \<Rightarrow> Inr
             \<lparr>dc_modulation = md, dc_annex = an, dc_profiles = profiles, dc_xfer_mode = xfer,
              dc_atm = atm,
              dc_bitswap = unwrap_or (ov_bitswap ov) (uci_flag get_opt ''network.dsl.bitswap''),
              dc_sra = unwrap_or (ov_sra ov) (uci_flag get_opt ''network.dsl.sra''),
              dc_transport_vlan_base = min (unwrap_or (ov_transport_vlan ov)
                (unwrap_or (parse_u8 (uci_get get_opt ''network.dsl.transport_vlan'')) 0)) 7\<rparr>)))))"

text \<open>\<open>DslConfig::load\<close>: opening UCI may fail.\<close>

definition load_config :: "(string + uci) \<Rightarrow> cli_overrides \<Rightarrow> config_error + dsl_config" where
  "load_config opened ov = (case opened of Inl e \<Rightarrow> Inl e | Inr get_opt \<Rightarrow> build_config get_opt ov)"

definition DslConfig_default :: dsl_config where
  "DslConfig_default =
     \<lparr>dc_modulation = Vdsl2, dc_annex = Annex_B, dc_profiles = projr (parse_tone ''av''),
      dc_xfer_mode = Ptm, dc_atm = None, dc_bitswap = True, dc_sra = True,
      dc_transport_vlan_base = 0\<rparr>"

section \<open>What the loader promises\<close>

definition hint_of :: "xfer_mode \<Rightarrow> transport_hint" where
  "hint_of m = (case m of Ptm \<Rightarrow> HintPtm | Atm \<Rightarrow> HintAtm)"

definition config_ok :: "dsl_config \<Rightarrow> bool" where
  "config_ok c \<longleftrightarrow>
     (dc_modulation c = Vdsl2 \<or> dc_modulation c = Adsl2Plus) \<and>
     (dc_modulation c = Adsl2Plus \<longrightarrow> dc_profiles c = 0) \<and>
     dc_annex c \<in> {Annex_A, Annex_B, Annex_I, Annex_J, Annex_M} \<and>
     (dc_atm c \<noteq> None \<longleftrightarrow> dc_xfer_mode c = Atm) \<and>
     dc_transport_vlan_base c \<le> 7"

lemma config_ok_validates: "config_ok c \<Longrightarrow> validate_line_config (dc_modulation c) (dc_annex c) (dc_profiles c) = Inr ()"
  by (auto simp: validate_line_config_ok config_ok_def profile_rule_def annex_rule_def)

lemma parse_annex_range: "parse_annex s = Inr a \<Longrightarrow> a \<in> {Annex_A, Annex_B, Annex_I, Annex_J, Annex_M}"
  by (auto simp: parse_annex_def Let_def split: if_splits)

lemma parse_modulation_range: "parse_modulation s x = Inr m \<Longrightarrow> m = Vdsl2 \<or> m = Adsl2Plus"
  by (auto simp: parse_modulation_def split: if_splits)

abbreviation built_xfer :: "uci \<Rightarrow> cli_overrides \<Rightarrow> string" where
  "built_xfer get_opt ov \<equiv> resolve get_opt (ov_xfer_mode ov) ''network.dsl.xfer_mode''
     (fst (smart_defaults (resolve_line_mode get_opt ov)))"

lemma build_config_cases:
  assumes "build_config get_opt ov = Inr c"
  obtains md an pr x atm where
    "parse_modulation (resolve_line_mode get_opt ov) (built_xfer get_opt ov) = Inr md"
    "parse_annex (resolve get_opt (ov_annex ov) ''network.dsl.annex'' ''b'') = Inr an"
    "parse_tone (resolve get_opt (ov_tone ov) ''network.dsl.tone''
       (snd (smart_defaults (resolve_line_mode get_opt ov)))) = Inr pr"
    "parse_xfer_mode (built_xfer get_opt ov) = Inr x"
    "(if x = Atm then map_sum id Some (build_atm get_opt ov) else Inr None) = Inr atm"
    "dc_modulation c = md" "dc_annex c = an" "dc_xfer_mode c = x" "dc_atm c = atm"
    "dc_profiles c = (if md \<noteq> Vdsl2 \<and> md \<noteq> Multimode then 0 else pr)"
    "dc_transport_vlan_base c \<le> 7"
proof -
  let ?m = "parse_modulation (resolve_line_mode get_opt ov) (built_xfer get_opt ov)"
  let ?a = "parse_annex (resolve get_opt (ov_annex ov) ''network.dsl.annex'' ''b'')"
  let ?t = "parse_tone (resolve get_opt (ov_tone ov) ''network.dsl.tone''
       (snd (smart_defaults (resolve_line_mode get_opt ov))))"
  let ?x = "parse_xfer_mode (built_xfer get_opt ov)"
  note b = assms [unfolded build_config_def Let_def split_beta]
  obtain md where md: "?m = Inr md" using b by (cases ?m) auto
  obtain an where an: "?a = Inr an" using b by (cases ?a) (auto simp: md)
  obtain pr where pr: "?t = Inr pr" using b by (cases ?t) (auto simp: md an)
  obtain x where x: "?x = Inr x" using b by (cases ?x) (auto simp: md an pr)
  obtain atm where atm: "(if x = Atm then map_sum id Some (build_atm get_opt ov) else Inr None) = Inr atm"
    using b by (cases "if x = Atm then map_sum id Some (build_atm get_opt ov) else Inr None")
      (auto simp: md an pr x)
  show thesis
    using b by (intro that [OF md an pr x atm]) (auto simp: md an pr x atm)
qed

lemma build_config_ok:
  assumes "build_config get_opt ov = Inr c"
  shows "config_ok c"
  using assms
proof (rule build_config_cases)
  fix md an pr x atm
  assume m: "parse_modulation (resolve_line_mode get_opt ov) (built_xfer get_opt ov) = Inr md"
    and a: "parse_annex (resolve get_opt (ov_annex ov) ''network.dsl.annex'' ''b'') = Inr an"
    and atm: "(if x = Atm then map_sum id Some (build_atm get_opt ov) else Inr None) = Inr atm"
    and c: "dc_modulation c = md" "dc_annex c = an" "dc_xfer_mode c = x" "dc_atm c = atm"
      "dc_profiles c = (if md \<noteq> Vdsl2 \<and> md \<noteq> Multimode then 0 else pr)"
      "dc_transport_vlan_base c \<le> 7"
  have "(atm \<noteq> None) = (x = Atm)"
    using atm by (cases "build_atm get_opt ov") (auto split: if_splits)
  then show "config_ok c"
    using parse_modulation_range [OF m] parse_annex_range [OF a] c by (auto simp: config_ok_def)
qed

lemma DslConfig_default_ok: "config_ok DslConfig_default"
  by (simp add: config_ok_def DslConfig_default_def)

text \<open>C10. Every configuration the loader returns, and the built-in default, passes the
  daemon's check of profile and annex: the profiles of an ADSL line are cleared, the annex
  is one the modulation defines, the ATM parameters are present exactly for ATM, and the
  transport VLAN index is at most 7.\<close>

theorem loaded_config_valid:
  assumes "load_config opened ov = Inr c \<or> c = DslConfig_default"
  shows "validate_line_config (dc_modulation c) (dc_annex c) (dc_profiles c) = Inr () \<and>
    (dc_atm c \<noteq> None \<longleftrightarrow> dc_xfer_mode c = Atm) \<and> dc_transport_vlan_base c \<le> 7 \<and>
    (dc_modulation c = Adsl2Plus \<longrightarrow> dc_profiles c = 0)"
proof -
  have "config_ok c"
    using assms build_config_ok DslConfig_default_ok
    by (auto simp: load_config_def split: sum.splits)
  then show ?thesis
    using config_ok_validates by (auto simp: config_ok_def)
qed

lemma trim_words [simp]: "trim ''atm'' = ''atm''" "trim ''ptm'' = ''ptm''" "trim ''av'' = ''av''"
    "trim ''b'' = ''b''" "trim ''llc'' = ''llc''" "trim ''bridged'' = ''bridged''" "trim [] = []"
  by (rule trim_solid, simp add: solid_def)+

definition sample_uci :: uci where
  "sample_uci key = (if key = ''network.dsl.xfer_mode'' then Inr (Some ''atm'') else Inr None)"

definition sample_config :: dsl_config where
  "sample_config =
     \<lparr>dc_modulation = Adsl2Plus, dc_annex = Annex_B, dc_profiles = 0, dc_xfer_mode = Atm,
      dc_atm = Some \<lparr>ac_vpi = 8, ac_vci = 35, ac_encap = Llc, ac_link_type = Eoa, ac_qos = Ubr,
        ac_pcr = 0\<rparr>,
      dc_bitswap = True, dc_sra = True, dc_transport_vlan_base = 0\<rparr>"

lemmas build_simps = build_config_def resolve_line_mode_def resolve_def smart_defaults_def
  or_else_def unwrap_or_def nonempty_def uci_nonempty_def uci_get_def build_atm_def uci_flag_def
  parse_modulation_def parse_annex_def parse_tone_def parse_xfer_mode_def parse_encaps_def
  parse_payload_def parse_u8_def parse_u16_def parse_u32_def parse_unsigned_def digit_value_def

lemma sample_config_built: "build_config sample_uci no_overrides = Inr sample_config"
  by (simp add: build_simps sample_uci_def no_overrides_def sample_config_def)

theorem loaded_config_valid_witness:
  "validate_line_config Adsl2Plus Annex_B 0 = Inr () \<and> dc_transport_vlan_base sample_config \<le> 7"
  using loaded_config_valid [of "Inr sample_uci" no_overrides sample_config]
  by (simp add: load_config_def sample_config_built) (simp add: sample_config_def)

lemma smart_defaults_match:
  assumes build: "build_config get_opt ov = Inr c"
    and lm: "ov_line_mode ov = None" "uci_get get_opt ''network.dsl.line_mode'' = []"
    and xf: "or_else (nonempty (ov_xfer_mode ov)) (uci_nonempty get_opt ''network.dsl.xfer_mode'')
      \<in> {None, Some ''atm'', Some ''ptm''}"
  shows "validate_xfer_mode (dc_modulation c) (hint_of (dc_xfer_mode c)) = Inr ()"
  using build
proof (rule build_config_cases)
  fix md x
  assume m: "parse_modulation (resolve_line_mode get_opt ov) (built_xfer get_opt ov) = Inr md"
    and x: "parse_xfer_mode (built_xfer get_opt ov) = Inr x"
    and c: "dc_modulation c = md" "dc_xfer_mode c = x"
  have none: "or_else (nonempty (ov_line_mode ov)) (uci_nonempty get_opt ''network.dsl.line_mode'') = None"
    using lm by (simp add: or_else_def nonempty_def uci_nonempty_def)
  show ?thesis
    using xf m x none
    by (auto simp: c resolve_line_mode_def resolve_def smart_defaults_def or_else_def unwrap_or_def
        parse_modulation_def parse_xfer_mode_def validate_xfer_mode_def is_vdsl2_def is_adsl_def
        hint_of_def split: if_splits option.splits)
qed

text \<open>When the line mode is set nowhere and the transfer mode is unset, \<open>atm\<close> or \<open>ptm\<close>,
  the defaults derived from it give a modulation the transport check accepts.\<close>

lemma smart_defaults_consistent:
  assumes "build_config get_opt ov = Inr c"
    and "ov_line_mode ov = None" and "uci_get get_opt ''network.dsl.line_mode'' = []"
    and "or_else (nonempty (ov_xfer_mode ov)) (uci_nonempty get_opt ''network.dsl.xfer_mode'')
      \<in> {None, Some ''atm'', Some ''ptm''}"
  shows "validate_xfer_mode (dc_modulation c) (hint_of (dc_xfer_mode c)) = Inr ()"
  using assms by (rule smart_defaults_match)

lemma smart_defaults_consistent_witness:
  "validate_xfer_mode (dc_modulation sample_config) (hint_of (dc_xfer_mode sample_config)) = Inr ()"
  by (rule smart_defaults_consistent [OF sample_config_built])
    (simp_all add: no_overrides_def sample_uci_def uci_get_def or_else_def nonempty_def
      uci_nonempty_def)

end
