(* ===== verification/UbusObj.thy ===== *)
theory UbusObj
  imports UciCfg Unpack
begin

text \<open>
  The shared state, the \<open>metrics\<close> reply of the ubus object (\<open>rbctl_dsl/src/ubus_obj.rs\<close>)
  and the notifications (\<open>rbctl_dsl/src/hotplug.rs\<close>).  The blob encoder is a third-party
  builder; the reply is the sequence of its calls.  A notification is the script that is
  spawned with the two variables added to its environment.
\<close>

section \<open>Notifications\<close>

datatype line_event = EvDown | EvHandshake | EvTraining | EvUp

primrec line_event_str :: "line_event \<Rightarrow> string" where
  "line_event_str EvDown = ''DOWN''"
| "line_event_str EvHandshake = ''HANDSHAKE''"
| "line_event_str EvTraining = ''TRAINING''"
| "line_event_str EvUp = ''UP''"

primrec tc_layer_status :: "xfer_mode \<Rightarrow> string" where
  "tc_layer_status Atm = ''ATM''"
| "tc_layer_status Ptm = ''EFM''"

record spawned =
  sp_script :: string
  sp_env :: "(string \<times> string) list"

definition emit_status :: "string \<Rightarrow> line_event \<Rightarrow> spawned" where
  "emit_status notify_script event =
     \<lparr>sp_script = notify_script,
      sp_env = [(''DSL_NOTIFICATION_TYPE'', ''DSL_INTERFACE_STATUS''),
                (''DSL_INTERFACE_STATUS'', line_event_str event)]\<rparr>"

definition emit_tc_layer :: "string \<Rightarrow> xfer_mode \<Rightarrow> spawned" where
  "emit_tc_layer notify_script xfer_mode =
     \<lparr>sp_script = notify_script,
      sp_env = [(''DSL_NOTIFICATION_TYPE'', ''DSL_STATUS''),
                (''DSL_TC_LAYER_STATUS'', tc_layer_status xfer_mode)]\<rparr>"

section \<open>The shared state\<close>

datatype fw_status = FwIdle | FwUpgrading | FwProgressing byte byte | FwDone | FwFailed string

definition fw_status_str :: "fw_status \<Rightarrow> string" where
  "fw_status_str s =
     (case s of
        FwIdle \<Rightarrow> ''idle''
      | FwUpgrading \<Rightarrow> ''upgrading''
      | FwProgressing stage pct \<Rightarrow>
          ''upgrading (stage='' @ show_nat (unat stage) @ '', pct='' @ show_nat (unat pct) @ ''%)''
      | FwDone \<Rightarrow> ''done''
      | FwFailed msg \<Rightarrow> ''failed: '' @ msg)"

record dsl_state =
  ds_line_obj :: "line_obj option"
  ds_uptime_secs :: u64
  ds_xfer_mode :: "xfer_mode option"
  ds_modulation :: modulation
  ds_annex :: annex
  ds_fw_status :: fw_status

definition DslState_default :: dsl_state where
  "DslState_default =
     \<lparr>ds_line_obj = None, ds_uptime_secs = 0, ds_xfer_mode = None, ds_modulation = Vdsl2,
      ds_annex = Annex_B, ds_fw_status = FwIdle\<rparr>"

section \<open>The metrics reply\<close>

definition map_link_status :: "link_status \<Rightarrow> string \<times> int \<times> bool" where
  "map_link_status status =
     (case status of
        NoSignal \<Rightarrow> (''Silent'', 3, False)
      | EstablishingLink \<Rightarrow> (''Handshake'', 4, False)
      | Initializing \<Rightarrow> (''Full init'', 5, False)
      | Up \<Rightarrow> (''Showtime with TC-Layer sync'', 7, True)
      | LinkUnknown _ \<Rightarrow> (''Unknown'', - 1, False))"

definition mode_string :: "line_obj \<Rightarrow> string" where
  "mode_string line =
     (if lo_modulation_code line = 6 then ''G.993.2 (VDSL2)''
      else if lo_modulation_code line = 4 then ''G.992.5 (ADSL2+)''
      else ''G.992.x (modulation '' @ show_nat (unat (lo_modulation_code line)) @ '')'')"

definition annex_string :: "byte \<Rightarrow> string" where
  "annex_string code =
     (if code = 0 then ''A'' else if code = 1 then ''B'' else if code = 2 then ''I''
      else if code = 3 then ''M'' else if code = 6 then ''J'' else ''?'')"

definition profile_names :: "(vdsl2_profiles \<times> string) list" where
  "profile_names =
     [(EIGHT_A, ''8a''), (EIGHT_B, ''8b''), (EIGHT_C, ''8c''), (EIGHT_D, ''8d''),
      (TWELVE_A, ''12a''), (TWELVE_B, ''12b''), (SEVENTEEN_A, ''17a''), (THIRTY_A, ''30a''),
      (THIRTYFIVE_B, ''35b'')]"

primrec join_words :: "string list \<Rightarrow> string" where
  "join_words [] = []"
| "join_words (w # ws) = (if ws = [] then w else w @ CHR '' '' # join_words ws)"

definition profile_string :: "vdsl2_profiles \<Rightarrow> string" where
  "profile_string profiles =
     join_words (map snd (filter (\<lambda>(p, n). and profiles p \<noteq> 0) profile_names))"

datatype blob_call =
    OpenTable "string option"
  | CloseTable
  | PutStr string string
  | PutI32 string int
  | PutI64 string int
  | PutBool string bool

text \<open>\<open>as i32\<close> and \<open>as i64\<close> keep the bits.\<close>

definition as_i32 :: "u32 \<Rightarrow> int" where "as_i32 w = sint w"
definition as_i64 :: "u64 \<Rightarrow> int" where "as_i64 w = sint w"

definition add_direction :: "string \<Rightarrow> line_metrics \<Rightarrow> bool \<Rightarrow> blob_call list" where
  "add_direction name m upstream =
     (let (rate, attndr, snr, attn, power) =
        (if upstream
         then (up_rate m, up_attainable_rate m, up_noise_margin m, up_attenuation m, up_output_power m)
         else (down_rate m, down_attainable_rate m, down_noise_margin m, down_attenuation m,
               down_output_power m))
      in [OpenTable (Some name),
          PutI32 ''data_rate'' (as_i32 rate),
          PutI32 ''attndr'' (as_i32 attndr),
          PutI32 ''snr'' (as_i32 snr),
          PutI32 ''latn'' (as_i32 attn),
          PutI32 ''satn'' (as_i32 attn),
          PutI32 ''actatp'' (as_i32 power),
          PutI32 ''interleave_delay'' 0,
          PutI32 ''inp'' 0,
          CloseTable])"

definition build_metrics_reply :: "dsl_state \<Rightarrow> blob_call list" where
  "build_metrics_reply st =
     [OpenTable None] @
     (case ds_line_obj st of
        Some line \<Rightarrow>
          (let (state_str, state_num, up) = map_link_status (lo_link_status line) in
           [PutStr ''state'' state_str,
            PutI32 ''state_num'' state_num,
            PutBool ''up'' up,
            PutI64 ''uptime'' (as_i64 (ds_uptime_secs st)),
            PutStr ''mode'' (mode_string line),
            PutStr ''annex'' (annex_string (lo_annex_code line))] @
           (case line_vdsl2_profiles line of
              None \<Rightarrow> []
            | Some profiles \<Rightarrow> [PutStr ''profile'' (profile_string profiles)]) @
           add_direction ''upstream'' (lo_metrics line) True @
           add_direction ''downstream'' (lo_metrics line) False @
           [PutStr ''api_version'' ''4.0'', PutStr ''chipset'' ''EcoNet EN75xx''])
      | None \<Rightarrow>
          [PutStr ''state'' ''Not initialized'',
           PutI32 ''state_num'' 0,
           PutBool ''up'' False,
           PutI64 ''uptime'' 0]) @
     [CloseTable]"

section \<open>Properties\<close>

text \<open>Where the call list leaves the nesting: \<open>None\<close> if a table is closed that is not open.\<close>

fun nesting :: "nat \<Rightarrow> blob_call list \<Rightarrow> nat option" where
  "nesting d [] = Some d"
| "nesting d (OpenTable _ # cs) = nesting (Suc d) cs"
| "nesting d (CloseTable # cs) = (case d of 0 \<Rightarrow> None | Suc e \<Rightarrow> nesting e cs)"
| "nesting d (_ # cs) = nesting d cs"

fun top_keys :: "nat \<Rightarrow> blob_call list \<Rightarrow> string list" where
  "top_keys d [] = []"
| "top_keys d (OpenTable n # cs) =
     (if d = 1 then (case n of None \<Rightarrow> [] | Some k \<Rightarrow> [k]) else []) @ top_keys (Suc d) cs"
| "top_keys d (CloseTable # cs) = top_keys (d - 1) cs"
| "top_keys d (PutStr k _ # cs) = (if d = 1 then [k] else []) @ top_keys d cs"
| "top_keys d (PutI32 k _ # cs) = (if d = 1 then [k] else []) @ top_keys d cs"
| "top_keys d (PutI64 k _ # cs) = (if d = 1 then [k] else []) @ top_keys d cs"
| "top_keys d (PutBool k _ # cs) = (if d = 1 then [k] else []) @ top_keys d cs"


section \<open>Profile names and profile bits\<close>

lemma split_ws_word:
  assumes "w \<noteq> []" and "\<forall>c \<in> set w. solid c"
  shows "split_ws_from acc (w @ rest) = split_ws_from (rev w @ acc) rest"
  using assms
proof (induction w arbitrary: acc)
  case (Cons c w)
  have "split_ws_from acc (c # w @ rest) = split_ws_from (c # acc) (w @ rest)"
    using Cons.prems by (subst split_ws_from.simps) (simp add: solid_no_ws)
  then show ?case using Cons by (cases w) simp_all
qed simp

lemma split_ws_space: "split_ws_from acc (CHR '' '' # rest) =
    (if acc = [] then [] else [rev acc]) @ split_ws_from [] rest"
  by (subst split_ws_from.simps) (simp add: strip_ws_def ws_encodings_def)

lemma split_ws_end: "split_ws_from acc [] = (if acc = [] then [] else [rev acc])"
  by (subst split_ws_from.simps) simp

lemma split_join_words:
  "\<forall>w \<in> set ws. w \<noteq> [] \<and> (\<forall>c \<in> set w. solid c) \<Longrightarrow> split_whitespace (join_words ws) = ws"
proof (induction ws)
  case Nil
  then show ?case by (simp add: split_whitespace_def split_ws_end)
next
  case (Cons w ws)
  then show ?case
    using split_ws_word [of w "[]" "[]"] split_ws_word [of w "[]" "CHR '' '' # join_words ws"]
    by (cases ws) (simp_all add: split_whitespace_def split_ws_end split_ws_space)
qed

lemma join_words_ends:
  assumes "\<forall>w \<in> set ws. w \<noteq> [] \<and> (\<forall>c \<in> set w. solid c)" and "ws \<noteq> []"
  shows "join_words ws \<noteq> [] \<and> solid (hd (join_words ws)) \<and> solid (last (join_words ws))"
  using assms by (induction ws) (auto simp: hd_append)

lemma profile_names_solid:
  "\<forall>w \<in> snd ` set profile_names. w \<noteq> [] \<and> (\<forall>c \<in> set w. solid c) \<and> w \<noteq> ''a'' \<and> w \<noteq> ''av''"
  by (simp add: profile_names_def solid_def)

definition one_bit :: "u16 \<Rightarrow> bool" where
  "one_bit q \<longleftrightarrow> (\<exists>k. \<forall>n. bit q n \<longleftrightarrow> n = k)"

lemma one_bit_and: "one_bit q \<Longrightarrow> and x q = 0 \<or> and x q = q"
proof -
  assume "one_bit q"
  then obtain k where q: "\<And>n. bit q n \<longleftrightarrow> n = k" by (auto simp: one_bit_def)
  show ?thesis
  proof (cases "bit x k")
    case True
    then have "and x q = q" by (intro bit_word_eqI) (auto simp: bit_simps q)
    then show ?thesis ..
  next
    case False
    then have "and x q = 0" by (intro bit_word_eqI) (auto simp: bit_simps q)
    then show ?thesis ..
  qed
qed

lemma one_bit_exp: "k < 16 \<Longrightarrow> one_bit (push_bit k 1)"
  by (auto simp: one_bit_def bit_simps)

lemma tone_tokens_filter:
  assumes "\<forall>(p, n) \<in> set ps. tone_profile n = Some p \<and> one_bit p"
  shows "tone_tokens acc (map snd (filter (\<lambda>(p, n). and x p \<noteq> 0) ps)) =
    Inr (foldl (\<lambda>a p. or a (and x p)) acc (map fst ps))"
  using assms
proof (induction ps arbitrary: acc)
  case (Cons pn ps)
  obtain p n where pn: "pn = (p, n)" by fastforce
  then have n: "tone_profile n = Some p" and "and x p = 0 \<or> and x p = p"
    using Cons.prems one_bit_and by auto
  then show ?case
    using Cons by (auto simp: pn profiles_bitor_def)
qed simp

lemma profile_names_tokens: "\<forall>(p, n) \<in> set profile_names. tone_profile n = Some p \<and> one_bit p"
proof -
  have fst_bits: "map fst profile_names = map (\<lambda>k. push_bit k 1) [0, 1, 2, 3, 4, 5, 6, 7, 8]"
    by (simp add: profile_names_def profile_defs)
  have "\<forall>p \<in> set (map (\<lambda>k. push_bit k 1) ks). one_bit p" if "\<forall>k \<in> set ks. k < 16" for ks
    using that one_bit_exp by auto
  from this [of "[0, 1, 2, 3, 4, 5, 6, 7, 8]"] fst_bits
  have "\<forall>p \<in> set (map fst profile_names). one_bit p" by (simp only:) simp
  moreover have "\<forall>(p, n) \<in> set profile_names. tone_profile n = Some p"
    by (simp add: profile_names_def tone_profile_def)
  ultimately show ?thesis by fastforce
qed

lemma profile_masks_or:
  "foldl (\<lambda>a p. or a (and x p)) 0 (map fst profile_names) = and x 0x1FF"
  by (simp add: profile_names_def profile_defs flip: bit.conj_disj_distrib)

text \<open>The profile names the metrics show, given back as the \<open>tone\<close> option, select exactly
  the nine profiles of the mask they were made from.\<close>

lemma profile_string_roundtrip: "parse_tone (profile_string p) = Inr (and p 0x1FF)"
proof -
  define ws where "ws = map snd (filter (\<lambda>(q, n). and p q \<noteq> 0) profile_names)"
  have "set ws \<subseteq> snd ` set profile_names" by (auto simp: ws_def)
  then have ok: "\<forall>w \<in> set ws. w \<noteq> [] \<and> (\<forall>c \<in> set w. solid c) \<and> w \<noteq> ''a'' \<and> w \<noteq> ''av''"
    using profile_names_solid by blast
  then have split: "split_whitespace (join_words ws) = ws" by (intro split_join_words) blast
  have tokens: "tone_tokens 0 ws = Inr (and p 0x1FF)"
    unfolding ws_def tone_tokens_filter [OF profile_names_tokens] profile_masks_or ..
  have str: "profile_string p = join_words ws" by (simp add: profile_string_def ws_def)
  show ?thesis
  proof (cases "ws = []")
    case True
    then show ?thesis using tokens by (simp add: str parse_tone_def)
  next
    case False
    then have ends: "join_words ws \<noteq> []" "solid (hd (join_words ws))" "solid (last (join_words ws))"
      using join_words_ends ok by blast+
    have "split_whitespace ''a'' = [''a'']" and "split_whitespace ''av'' = [''av'']"
      using split_join_words [of "[''a'']"] split_join_words [of "[''av'']"] by (simp_all add: solid_def)
    then have "join_words ws \<noteq> ''a''" and "join_words ws \<noteq> ''av''"
      using ok split by (metis list.set_intros(1))+
    then show ?thesis
      using ends tokens split by (simp add: str parse_tone_def Let_def trim_solid)
  qed
qed

end
