(* ===== verification/Worker.thy ===== *)
theory Worker
  imports UbusObj BoardFw
begin

text \<open>
  The board worker (\<open>rbctl_dsl/src/board_worker.rs\<close>): the thread that owns the controller,
  polls the line once a second, publishes what it sees in the shared state, spawns the
  notifications and serves the commands of the control loop.  The shared state is part of the
  worker's record, next to the notifications it has spawned and the firmware events it has
  sent so far, newest last.  What \<open>Instant::now\<close> reads, in nanoseconds, what opening UCI
  yields and what arrives on the command channel are inputs of a loop iteration.
\<close>

section \<open>State\<close>

datatype worker_cmd = Reload | RestartLine | FirmwareUpgrade bytes

datatype fw_event = FwEvProgress fw_progress | FwEvDone "string + fw_upgrade_result"

record 't worker =
  w_board :: "'t board"
  w_cfg :: dsl_config
  w_overrides :: cli_overrides
  w_state :: dsl_state
  w_notify_script :: "string option"
  w_poll_interval :: nat
  w_last_poll :: "nat option"
  w_last_status :: "link_status option"
  w_up_since :: "nat option"
  w_tc_emitted :: bool
  w_spawned :: "spawned list"
  w_events :: "fw_event list"

definition NANOS_PER_SEC :: nat where "NANOS_PER_SEC = 1000000000"

definition BoardWorker_new ::
  "'t board \<Rightarrow> dsl_config \<Rightarrow> cli_overrides \<Rightarrow> dsl_state \<Rightarrow> string option \<Rightarrow> 't worker" where
  "BoardWorker_new board cfg overrides state notify_script =
     \<lparr>w_board = board, w_cfg = cfg, w_overrides = overrides, w_state = state,
      w_notify_script = notify_script, w_poll_interval = NANOS_PER_SEC, w_last_poll = None,
      w_last_status = None, w_up_since = None, w_tc_emitted = False, w_spawned = [], w_events = []\<rparr>"

section \<open>Helpers\<close>

definition link_status_to_event :: "link_status \<Rightarrow> line_event" where
  "link_status_to_event status =
     (case status of
        Up \<Rightarrow> EvUp
      | Initializing \<Rightarrow> EvTraining
      | EstablishingLink \<Rightarrow> EvHandshake
      | NoSignal \<Rightarrow> EvDown
      | LinkUnknown _ \<Rightarrow> EvDown)"

definition config_changed :: "dsl_config \<Rightarrow> dsl_config \<Rightarrow> bool" where
  "config_changed old new \<longleftrightarrow>
     dc_modulation old \<noteq> dc_modulation new \<or> dc_annex old \<noteq> dc_annex new \<or>
     profiles_bitmask (dc_profiles old) \<noteq> profiles_bitmask (dc_profiles new) \<or>
     dc_xfer_mode old \<noteq> dc_xfer_mode new"

text \<open>\<open>board_error_text\<close> is the \<open>Display\<close> of an error; \<open>show_io\<close> that of the operating
  system's error.\<close>

definition board_error_text :: "(io_error \<Rightarrow> string) \<Rightarrow> board_error \<Rightarrow> string" where
  "board_error_text show_io e =
     (case e of
        Timeout \<Rightarrow> ''board did not respond after retries''
      | BadFrame s \<Rightarrow> ''bad frame: '' @ s
      | BadResponse s \<Rightarrow> ''bad response: '' @ s
      | Io io \<Rightarrow> show_io io)"

definition spawn_if :: "string option \<Rightarrow> (string \<Rightarrow> spawned) \<Rightarrow> spawned list" where
  "spawn_if script f = (case script of None \<Rightarrow> [] | Some s \<Rightarrow> [f s])"

text \<open>\<open>let _ = board.op()\<close>: the result is dropped, the controller's new state is kept.\<close>

definition on_board ::
  "('t board \<Rightarrow> ('a, 't) board_result) \<Rightarrow> 't worker \<Rightarrow> 't worker outcome" where
  "on_board m w = bind_outcome (m (w_board w)) (\<lambda>(r, b). Returns (w\<lparr>w_board := b\<rparr>))"

section \<open>Commands\<close>

definition publish_config :: "'t worker \<Rightarrow> 't worker" where
  "publish_config w = w\<lparr>w_state := (w_state w)
     \<lparr>ds_xfer_mode := Some (dc_xfer_mode (w_cfg w)), ds_modulation := dc_modulation (w_cfg w),
      ds_annex := dc_annex (w_cfg w)\<rparr>\<rparr>"

definition up_with :: "'t transport \<Rightarrow> 'd crc_engine \<Rightarrow> dsl_config \<Rightarrow> 't board \<Rightarrow> (unit, 't) board_result" where
  "up_with T E c =
     line_config_up T E (dc_modulation c) (dc_annex c) (dc_profiles c) (dc_bitswap c) (dc_sra c)"

definition handle_reload ::
  "'t transport \<Rightarrow> 'd crc_engine \<Rightarrow> string + uci \<Rightarrow> 't worker \<Rightarrow> 't worker outcome" where
  "handle_reload T E opened w =
     (case load_config opened (w_overrides w) of
        Inl _ \<Rightarrow> Returns w
      | Inr new_cfg \<Rightarrow>
          if config_changed (w_cfg w) new_cfg then
            bind_outcome (on_board (line_config_down T E) w) (\<lambda>w.
            bind_outcome (on_board (up_with T E new_cfg) w) (\<lambda>w.
              let w = publish_config (w\<lparr>w_cfg := new_cfg\<rparr>)
              in Returns (w\<lparr>w_tc_emitted := False\<rparr>)))
          else Returns w)"

definition handle_restart :: "'t transport \<Rightarrow> 'd crc_engine \<Rightarrow> 't worker \<Rightarrow> 't worker outcome" where
  "handle_restart T E w =
     bind_outcome (on_board (line_config_down T E) w) (\<lambda>w.
     bind_outcome (on_board (up_with T E (w_cfg w)) w) (\<lambda>w.
       Returns (w\<lparr>w_tc_emitted := False\<rparr>)))"

definition set_fw_status :: "fw_status \<Rightarrow> 't worker \<Rightarrow> 't worker" where
  "set_fw_status s w = w\<lparr>w_state := (w_state w)\<lparr>ds_fw_status := s\<rparr>\<rparr>"

definition send_event :: "fw_event \<Rightarrow> 't worker \<Rightarrow> 't worker" where
  "send_event ev w = w\<lparr>w_events := w_events w @ [ev]\<rparr>"

text \<open>The progress callback of \<open>firmware_upgrade\<close>.\<close>

definition on_progress :: "fw_progress \<Rightarrow> 't worker \<Rightarrow> 't worker" where
  "on_progress p w = set_fw_status (FwProgressing (fp_stage p) (fp_pct p)) (send_event (FwEvProgress p) w)"

definition handle_firmware_upgrade ::
  "'t transport \<Rightarrow> 'd crc_engine \<Rightarrow> (io_error \<Rightarrow> string) \<Rightarrow> bytes \<Rightarrow> 't worker \<Rightarrow> 't worker outcome" where
  "handle_firmware_upgrade T E show_io img w =
     (let w = set_fw_status FwUpgrading w in
      bind_outcome (firmware_upgrade T E img (w_board w)) (\<lambda>(r, evs, b).
        let w = fold on_progress evs w;
            w = w\<lparr>w_board := b\<rparr>
        in case r of
             Inr res \<Rightarrow> Returns (send_event (FwEvDone (Inr res)) (set_fw_status FwDone w))
           | Inl e \<Rightarrow> Returns (send_event (FwEvDone (Inl (board_error_text show_io e)))
                        (set_fw_status (FwFailed (board_error_text show_io e)) w))))"

section \<open>The poll\<close>

text \<open>The four times the poll reads the clock: the due check, the new \<open>last_poll\<close>, the new
  \<open>up_since\<close> after the reply and the uptime.\<close>

record poll_clock =
  at_due :: nat
  at_poll :: nat
  at_up :: nat
  at_publish :: nat

text \<open>The branch of \<open>maybe_poll_board\<close> for a received line object.\<close>

definition observe_line :: "poll_clock \<Rightarrow> line_obj \<Rightarrow> 't worker \<Rightarrow> 't worker" where
  "observe_line clk line w =
     (let status = lo_link_status line;
          w = (if status = Up \<and> w_up_since w = None then w\<lparr>w_up_since := Some (at_up clk)\<rparr>
               else if status \<noteq> Up then w\<lparr>w_up_since := None\<rparr>
               else w);
          w = w\<lparr>w_state := (w_state w)
                 \<lparr>ds_line_obj := Some line,
                  ds_uptime_secs := (case w_up_since w of None \<Rightarrow> 0
                     | Some t \<Rightarrow> of_nat ((at_publish clk - t) div NANOS_PER_SEC)),
                  ds_xfer_mode := Some (dc_xfer_mode (w_cfg w)),
                  ds_modulation := dc_modulation (w_cfg w),
                  ds_annex := dc_annex (w_cfg w)\<rparr>\<rparr>
      in if Some status \<noteq> w_last_status w then
           (let w = w\<lparr>w_spawned := w_spawned w @
                  spawn_if (w_notify_script w) (\<lambda>s. emit_status s (link_status_to_event status))\<rparr>;
                w = (if status = Up \<and> \<not> w_tc_emitted w then
                       w\<lparr>w_spawned := w_spawned w @
                           spawn_if (w_notify_script w) (\<lambda>s. emit_tc_layer s (dc_xfer_mode (w_cfg w))),
                         w_tc_emitted := True\<rparr>
                     else w)
            in w\<lparr>w_last_status := Some status\<rparr>)
         else w)"

definition poll_due :: "poll_clock \<Rightarrow> 't worker \<Rightarrow> bool" where
  "poll_due clk w =
     (case w_last_poll w of None \<Rightarrow> True | Some t \<Rightarrow> w_poll_interval w \<le> at_due clk - t)"

definition maybe_poll_board ::
  "'t transport \<Rightarrow> 'd crc_engine \<Rightarrow> poll_clock \<Rightarrow> 't worker \<Rightarrow> 't worker outcome" where
  "maybe_poll_board T E clk w =
     (if \<not> poll_due clk w then Returns w
      else
        let w = w\<lparr>w_last_poll := Some (at_poll clk)\<rparr> in
        bind_outcome (get_line_obj T E (w_board w)) (\<lambda>(r, b).
          let w = w\<lparr>w_board := b\<rparr>
          in case r of Inr line \<Rightarrow> Returns (observe_line clk line w) | Inl e \<Rightarrow> Returns w))"

section \<open>The loop\<close>

text \<open>What \<open>recv_timeout\<close> on the command channel yields.\<close>

datatype worker_input = GotCmd worker_cmd | TickTimeout | ChannelClosed

record iteration =
  it_input :: worker_input
  it_opened :: "string + uci"
  it_clock :: poll_clock

definition dispatch ::
  "'t transport \<Rightarrow> 'd crc_engine \<Rightarrow> (io_error \<Rightarrow> string) \<Rightarrow> iteration \<Rightarrow> 't worker \<Rightarrow> 't worker outcome" where
  "dispatch T E show_io it w =
     (case it_input it of
        GotCmd Reload \<Rightarrow> handle_reload T E (it_opened it) w
      | GotCmd RestartLine \<Rightarrow> handle_restart T E w
      | GotCmd (FirmwareUpgrade img) \<Rightarrow> handle_firmware_upgrade T E show_io img w
      | TickTimeout \<Rightarrow> Returns w
      | ChannelClosed \<Rightarrow> Returns w)"

text \<open>The iterations the loop makes before it sees \<open>SHOULD_EXIT\<close>, then the line-down.\<close>

fun worker_loop ::
  "'t transport \<Rightarrow> 'd crc_engine \<Rightarrow> (io_error \<Rightarrow> string) \<Rightarrow> iteration list \<Rightarrow> 't worker \<Rightarrow> 't worker outcome" where
  "worker_loop T E show_io [] w = Returns w"
| "worker_loop T E show_io (it # its) w =
     (if it_input it = ChannelClosed then Returns w
      else bind_outcome (dispatch T E show_io it w) (\<lambda>w.
           bind_outcome (maybe_poll_board T E (it_clock it) w) (\<lambda>w.
             worker_loop T E show_io its w)))"

definition worker_run ::
  "'t transport \<Rightarrow> 'd crc_engine \<Rightarrow> (io_error \<Rightarrow> string) \<Rightarrow> iteration list \<Rightarrow> 't worker \<Rightarrow> 't worker outcome" where
  "worker_run T E show_io its w =
     bind_outcome (worker_loop T E show_io its w) (\<lambda>w.
       on_board (line_config_down T E) (w\<lparr>w_board := board_set_retries 0 (w_board w)\<rparr>))"

section \<open>Steps and the invariant\<close>

text \<open>One step of the worker: a command that was served or a poll.\<close>

inductive worker_step ::
  "'t transport \<Rightarrow> 'd crc_engine \<Rightarrow> (io_error \<Rightarrow> string) \<Rightarrow> 't worker \<Rightarrow> 't worker \<Rightarrow> bool"
  for T E show_io where
  step_reload: "handle_reload T E opened w = Returns w' \<Longrightarrow> worker_step T E show_io w w'"
| step_restart: "handle_restart T E w = Returns w' \<Longrightarrow> worker_step T E show_io w w'"
| step_upgrade: "handle_firmware_upgrade T E show_io img w = Returns w' \<Longrightarrow> worker_step T E show_io w w'"
| step_poll: "maybe_poll_board T E clk w = Returns w' \<Longrightarrow> worker_step T E show_io w w'"

inductive_cases worker_step_cases: "worker_step T E show_io w w'"

lemma dispatch_step:
  "dispatch T E show_io it w = Returns w' \<Longrightarrow> w' = w \<or> worker_step T E show_io w w'"
  by (auto simp: dispatch_def split: worker_input.splits worker_cmd.splits intro: worker_step.intros)

lemma worker_loop_steps:
  "worker_loop T E show_io its w = Returns w' \<Longrightarrow> (worker_step T E show_io)\<^sup>*\<^sup>* w w'"
proof (induction its arbitrary: w)
  case (Cons it its)
  show ?case
  proof (cases "it_input it = ChannelClosed")
    case True
    with Cons.prems show ?thesis by simp
  next
    case False
    with Cons.prems obtain a b where "dispatch T E show_io it w = Returns a"
      and "maybe_poll_board T E (it_clock it) a = Returns b" and "worker_loop T E show_io its b = Returns w'"
      by (auto simp: bind_outcome_Returns)
    then have "(worker_step T E show_io)\<^sup>*\<^sup>* w a" "worker_step T E show_io a b" "(worker_step T E show_io)\<^sup>*\<^sup>* b w'"
      using dispatch_step [of T E show_io it w a] Cons.IH by (auto intro: step_poll)
    then show ?thesis by (metis rtranclp.rtrancl_into_rtrancl rtranclp_trans)
  qed
qed simp

definition published :: "dsl_config \<Rightarrow> dsl_state \<Rightarrow> bool" where
  "published c s \<longleftrightarrow> ds_xfer_mode s = Some (dc_xfer_mode c) \<and> ds_modulation s = dc_modulation c \<and>
     ds_annex s = dc_annex c"

definition worker_inv :: "'t worker \<Rightarrow> bool" where
  "worker_inv w \<longleftrightarrow>
     config_ok (w_cfg w) \<and> published (w_cfg w) (w_state w) \<and>
     map_option lo_link_status (ds_line_obj (w_state w)) = w_last_status w \<and>
     (w_up_since w \<noteq> None \<longleftrightarrow> w_last_status w = Some Up) \<and>
     (ds_uptime_secs (w_state w) \<noteq> 0 \<longrightarrow> w_last_status w = Some Up)"

lemma on_board_fields:
  "on_board m w = Returns w' \<Longrightarrow> \<exists>b. w' = w\<lparr>w_board := b\<rparr>"
  by (auto simp: on_board_def bind_outcome_Returns)

lemma worker_inv_board [simp]: "worker_inv (w\<lparr>w_board := b\<rparr>) = worker_inv w"
  by (simp add: worker_inv_def)

lemma worker_inv_tc [simp]: "worker_inv (w\<lparr>w_tc_emitted := b\<rparr>) = worker_inv w"
  by (simp add: worker_inv_def)

lemma worker_inv_last_poll [simp]: "worker_inv (w\<lparr>w_last_poll := t\<rparr>) = worker_inv w"
  by (simp add: worker_inv_def)

lemma worker_inv_fw [simp]: "worker_inv (set_fw_status s w) = worker_inv w"
  by (simp add: worker_inv_def set_fw_status_def published_def)

lemma worker_inv_event [simp]: "worker_inv (send_event e w) = worker_inv w"
  by (simp add: worker_inv_def send_event_def)

lemma worker_inv_progress: "worker_inv (fold on_progress evs w) = worker_inv w"
  by (induction evs arbitrary: w) (simp_all add: on_progress_def)

lemma load_config_ok: "load_config opened ov = Inr c \<Longrightarrow> config_ok c"
  by (auto simp: load_config_def build_config_ok split: sum.splits)

lemma worker_inv_publish:
  "worker_inv w \<Longrightarrow> config_ok c \<Longrightarrow> worker_inv (publish_config (w\<lparr>w_cfg := c\<rparr>))"
  by (simp add: worker_inv_def publish_config_def published_def)

lemma handle_reload_inv:
  assumes "handle_reload T E opened w = Returns w'" and "worker_inv w"
  shows "worker_inv w'"
proof (cases "load_config opened (w_overrides w)")
  case (Inl e)
  with assms show ?thesis by (simp add: handle_reload_def)
next
  case (Inr c)
  show ?thesis
  proof (cases "config_changed (w_cfg w) c")
    case True
    with assms(1) Inr obtain a b where "on_board (line_config_down T E) w = Returns a"
      and "on_board (up_with T E c) a = Returns b"
      and w': "w' = (publish_config (b\<lparr>w_cfg := c\<rparr>))\<lparr>w_tc_emitted := False\<rparr>"
      by (auto simp: handle_reload_def bind_outcome_Returns Let_def)
    then have "worker_inv b"
      using assms(2) by (auto dest!: on_board_fields)
    then show ?thesis
      using worker_inv_publish [OF _ load_config_ok [OF Inr], of b] by (simp add: w')
  next
    case False
    with assms Inr show ?thesis by (simp add: handle_reload_def)
  qed
qed

lemma handle_restart_inv:
  "handle_restart T E w = Returns w' \<Longrightarrow> worker_inv w \<Longrightarrow> worker_inv w'"
  by (auto simp: handle_restart_def bind_outcome_Returns dest!: on_board_fields)

lemma handle_firmware_upgrade_result:
  assumes "handle_firmware_upgrade T E show_io img w = Returns w'"
  shows "\<exists>r evs b. firmware_upgrade T E img (w_board (set_fw_status FwUpgrading w)) = Returns (r, evs, b) \<and>
    w' = (let w = (fold on_progress evs (set_fw_status FwUpgrading w))\<lparr>w_board := b\<rparr> in
      case r of Inr res \<Rightarrow> send_event (FwEvDone (Inr res)) (set_fw_status FwDone w)
      | Inl e \<Rightarrow> send_event (FwEvDone (Inl (board_error_text show_io e)))
                 (set_fw_status (FwFailed (board_error_text show_io e)) w))"
proof -
  let ?w = "set_fw_status FwUpgrading w"
  obtain a where up: "firmware_upgrade T E img (w_board ?w) = Returns a"
    and rest: "(case a of (r, evs, b) \<Rightarrow>
        let w = (fold on_progress evs ?w)\<lparr>w_board := b\<rparr> in
        case r of Inr res \<Rightarrow> Returns (send_event (FwEvDone (Inr res)) (set_fw_status FwDone w))
        | Inl e \<Rightarrow> Returns (send_event (FwEvDone (Inl (board_error_text show_io e)))
                   (set_fw_status (FwFailed (board_error_text show_io e)) w))) = Returns w'"
    using assms unfolding handle_firmware_upgrade_def Let_def bind_outcome_Returns by blast
  obtain r evs b where a: "a = (r, evs, b)" by (cases a) auto
  show ?thesis
    using up rest by (intro exI [of _ r] exI [of _ evs] exI [of _ b]) (cases r; simp add: a Let_def)
qed

lemma handle_firmware_upgrade_inv:
  "handle_firmware_upgrade T E show_io img w = Returns w' \<Longrightarrow> worker_inv w \<Longrightarrow> worker_inv w'"
  by (drule handle_firmware_upgrade_result)
     (auto simp: Let_def worker_inv_progress split: sum.split)

lemma observe_line_inv: "worker_inv w \<Longrightarrow> worker_inv (observe_line clk line w)"
  by (auto simp: observe_line_def worker_inv_def Let_def published_def split: option.splits)

lemma maybe_poll_inv:
  "maybe_poll_board T E clk w = Returns w' \<Longrightarrow> worker_inv w \<Longrightarrow> worker_inv w'"
proof (cases "poll_due clk w")
  case True
  assume "maybe_poll_board T E clk w = Returns w'" and inv: "worker_inv w"
  then obtain r :: "board_error + line_obj" and b where
    "(let w = w\<lparr>w_last_poll := Some (at_poll clk), w_board := b\<rparr> in
       case r of Inr line \<Rightarrow> Returns (observe_line clk line w) | Inl e \<Rightarrow> Returns w) = Returns w'"
    using True by (simp add: maybe_poll_board_def Let_def bind_outcome_Returns) blast
  then show "worker_inv w'"
    using inv by (cases r) (auto simp: Let_def intro!: observe_line_inv)
qed (simp add: maybe_poll_board_def)

lemma worker_step_inv: "worker_step T E show_io w w' \<Longrightarrow> worker_inv w \<Longrightarrow> worker_inv w'"
  by (elim worker_step_cases)
     (simp_all add: handle_reload_inv handle_restart_inv handle_firmware_upgrade_inv maybe_poll_inv)

lemma worker_steps_inv: "(worker_step T E show_io)\<^sup>*\<^sup>* w w' \<Longrightarrow> worker_inv w \<Longrightarrow> worker_inv w'"
  by (induction rule: rtranclp_induct) (auto intro: worker_step_inv)

section \<open>Properties\<close>

definition published_state :: "dsl_config \<Rightarrow> dsl_state" where
  "published_state c = DslState_default
     \<lparr>ds_xfer_mode := Some (dc_xfer_mode c), ds_modulation := dc_modulation c, ds_annex := dc_annex c\<rparr>"

text \<open>C17. The worker keeps its state consistent for as long as it runs, whatever commands arrive
  and whatever the board answers: the running configuration stays one the guard accepts, the
  published configuration fields are those of the running configuration, the last notified
  status is the status of the published line object, and the uptime clock runs exactly while
  that status is up.\<close>

theorem worker_keeps_invariant:
  assumes "config_ok cfg"
    and "worker_run T E show_io its (BoardWorker_new b cfg ov (published_state cfg) script) = Returns w"
  shows "worker_inv w"
proof -
  let ?w0 = "BoardWorker_new b cfg ov (published_state cfg) script"
  obtain m where m: "worker_loop T E show_io its ?w0 = Returns m"
    and w: "on_board (line_config_down T E) (m\<lparr>w_board := board_set_retries 0 (w_board m)\<rparr>) = Returns w"
    using assms(2) by (auto simp: worker_run_def bind_outcome_Returns)
  have "worker_inv ?w0"
    using assms(1) by (simp add: worker_inv_def BoardWorker_new_def published_def published_state_def
        DslState_default_def)
  then have "worker_inv m"
    by (rule worker_steps_inv [OF worker_loop_steps [OF m]])
  then show ?thesis
    using on_board_fields [OF w] by auto
qed

lemma silent_request:
  assumes "length pl \<le> 188"
  shows "\<exists>b'. request (script_transport m) null_engine (sample_board []) op pl = Returns (Inl Timeout, b')"
proof -
  obtain tx where tx: "tx_frame null_engine (sample_board []) op 1 pl = Some tx"
    using sample_tx [OF assms] by blast
  have silent: "drain (script_transport m) null_engine op 1 [] = Some (TimedOut, [])"
    by (rule drain_step) (simp add: stops_def script_transport_def)
  have send: "tr_send (script_transport m) t d = (Inr (), t)" for t d by (simp add: script_transport_def)
  have all: "attempts (script_transport m) null_engine op 1 tx n [] = Returns (Inl Timeout, [])" for n
    by (induction n) (simp_all add: send silent)
  show ?thesis
    using tx unfolding request_returns_iff
    by (simp add: all sample_board_def del: attempts.simps)
qed

definition silent_transport :: "script transport" where
  "silent_transport = script_transport [0, 17, 34, 51, 68, 85]"

definition silent_board :: "script board" where
  "silent_board = sample_board []"

lemma worker_keeps_invariant_witness:
  "\<exists>w. worker_run silent_transport null_engine (\<lambda>e. []) []
     (BoardWorker_new silent_board DslConfig_default no_overrides (published_state DslConfig_default) None)
     = Returns w \<and> worker_inv w"
proof -
  let ?w0 = "BoardWorker_new silent_board DslConfig_default no_overrides (published_state DslConfig_default) None"
  have down: "\<exists>r b'. line_config_down silent_transport null_engine (board_set_retries 0 silent_board) = Returns (r, b')"
  proof -
    obtain tx where tx: "tx_frame null_engine (board_set_retries 0 silent_board) 3 1 [3] = Some tx"
      using sample_tx [of "[3]" null_engine "[]" 3 1]
      by (auto simp: tx_frame_def board_set_retries_def silent_board_def)
    have silent: "drain silent_transport null_engine 3 1 [] = Some (TimedOut, [])"
      by (rule drain_step) (simp add: stops_def script_transport_def silent_transport_def)
    have "tr_send silent_transport [] tx = (Inr (), [])"
      by (simp add: silent_transport_def script_transport_def)
    with silent have "attempts silent_transport null_engine 3 1 tx (Suc 0) [] = Returns (Inl Timeout, [])"
      by simp
    then have "\<exists>b'. request silent_transport null_engine (board_set_retries 0 silent_board) 3 [3]
        = Returns (Inl Timeout, b')"
      using tx unfolding request_returns_iff
      by (simp add: silent_board_def board_set_retries_def sample_board_def del: attempts.simps)
    then show ?thesis by (auto simp: line_config_down_def then_reply_def)
  qed
  then obtain w where w: "worker_run silent_transport null_engine (\<lambda>e. []) [] ?w0 = Returns w"
    by (auto simp: worker_run_def on_board_def BoardWorker_new_def)
  with worker_keeps_invariant [OF DslConfig_default_ok w] show ?thesis by blast
qed

fun changes :: "link_status option \<Rightarrow> link_status list \<Rightarrow> link_status list" where
  "changes prev [] = []"
| "changes prev (s # ss) = (if Some s = prev then changes prev ss else s # changes (Some s) ss)"

definition is_status :: "spawned \<Rightarrow> bool" where
  "is_status p \<longleftrightarrow> (''DSL_NOTIFICATION_TYPE'', ''DSL_INTERFACE_STATUS'') \<in> set (sp_env p)"

lemma is_status_simps [simp]: "is_status (emit_status s e)" "\<not> is_status (emit_tc_layer s x)"
  by (simp_all add: is_status_def emit_status_def emit_tc_layer_def)

lemma observe_line_fields:
  "w_notify_script (observe_line clk l w) = w_notify_script w"
  "w_cfg (observe_line clk l w) = w_cfg w"
  "w_last_status (observe_line clk l w) = Some (lo_link_status l)"
  "w_tc_emitted (observe_line clk l w) \<longleftrightarrow>
     w_tc_emitted w \<or> lo_link_status l = Up \<and> w_last_status w \<noteq> Some Up"
  by (auto simp: observe_line_def Let_def)

lemma observe_line_spawned:
  assumes "w_notify_script w = Some script"
  shows "w_spawned (observe_line clk l w) = w_spawned w @
    (if Some (lo_link_status l) = w_last_status w then []
     else emit_status script (link_status_to_event (lo_link_status l)) #
       (if lo_link_status l = Up \<and> \<not> w_tc_emitted w then [emit_tc_layer script (dc_xfer_mode (w_cfg w))] else []))"
  using assms by (simp add: observe_line_def Let_def spawn_if_def)

definition observe_all :: "(poll_clock \<times> line_obj) list \<Rightarrow> 't worker \<Rightarrow> 't worker" where
  "observe_all polls w = fold (\<lambda>(clk, l). observe_line clk l) polls w"

text \<open>C18. Notifications follow the status of the line: while a script is configured, the polls
  spawn one status notification for every change of status and none otherwise, in order, and
  the transport-layer notification once, at the first change to up, unless it was sent
  before.\<close>

theorem notifications_follow_changes:
  assumes "w_notify_script w = Some script"
  shows "\<exists>new. w_spawned (observe_all polls w) = w_spawned w @ new \<and>
    filter is_status new =
      map (\<lambda>s. emit_status script (link_status_to_event s))
        (changes (w_last_status w) (map (\<lambda>(_, l). lo_link_status l) polls)) \<and>
    filter (\<lambda>p. \<not> is_status p) new =
      (if Up \<in> set (changes (w_last_status w) (map (\<lambda>(_, l). lo_link_status l) polls)) \<and> \<not> w_tc_emitted w
       then [emit_tc_layer script (dc_xfer_mode (w_cfg w))] else [])"
  using assms
proof (induction polls arbitrary: w)
  case Nil
  show ?case by (simp add: observe_all_def)
next
  case (Cons p polls)
  obtain clk l where p: "p = (clk, l)" by fastforce
  define w1 where "w1 = observe_line clk l w"
  have s1: "w_notify_script w1 = Some script"
    using Cons.prems by (simp add: w1_def observe_line_fields)
  obtain new where new: "w_spawned (observe_all polls w1) = w_spawned w1 @ new"
    "filter is_status new = map (\<lambda>s. emit_status script (link_status_to_event s))
        (changes (w_last_status w1) (map (\<lambda>(_, l). lo_link_status l) polls))"
    "filter (\<lambda>p. \<not> is_status p) new =
      (if Up \<in> set (changes (w_last_status w1) (map (\<lambda>(_, l). lo_link_status l) polls)) \<and> \<not> w_tc_emitted w1
       then [emit_tc_layer script (dc_xfer_mode (w_cfg w1))] else [])"
    using Cons.IH [OF s1] by metis
  define here where "here = (if Some (lo_link_status l) = w_last_status w then []
     else emit_status script (link_status_to_event (lo_link_status l)) #
       (if lo_link_status l = Up \<and> \<not> w_tc_emitted w then [emit_tc_layer script (dc_xfer_mode (w_cfg w))] else []))"
  have "w_spawned (observe_all (p # polls) w) = w_spawned w @ here @ new"
    using new(1) observe_line_spawned [OF Cons.prems, of clk l]
    by (simp add: observe_all_def p w1_def here_def)
  then show ?case
    using new(2,3)
    by (intro exI [of _ "here @ new"]) (auto simp: p here_def w1_def observe_line_fields)
qed

definition line_in :: "link_status \<Rightarrow> line_obj" where
  "line_in s =
     \<lparr>lo_status = 0, lo_link_status = s, lo_modulation_code = 6, lo_data_path = DataPath_from_code 0,
      lo_annex_code = 1, lo_vdsl2_profile_bitmask = 0, lo_is_atm = False, lo_uptime_secs = 0,
      lo_metrics = \<lparr>down_rate = 0, up_rate = 0, up_output_power = 0, down_output_power = 0,
        up_noise_margin = 0, down_noise_margin = 0, up_attenuation = 0, down_attenuation = 0,
        up_attainable_rate = 0, down_attainable_rate = 0, up_crc_errors = 0, down_crc_errors = 0\<rparr>\<rparr>"

definition some_clock :: poll_clock where
  "some_clock = \<lparr>at_due = 5, at_poll = 6, at_up = 7, at_publish = 8\<rparr>"

definition sample_worker :: "string option \<Rightarrow> script worker" where
  "sample_worker script =
     BoardWorker_new silent_board DslConfig_default no_overrides (published_state DslConfig_default) script"

lemma notifications_follow_changes_witness:
  "\<exists>new. w_spawned (observe_all (map (\<lambda>s. (some_clock, line_in s)) [Initializing, Up, Up, NoSignal, Up])
       (sample_worker (Some ''notify''))) = new \<and>
    filter is_status new = map (emit_status ''notify'') [EvTraining, EvUp, EvDown, EvUp] \<and>
    filter (\<lambda>p. \<not> is_status p) new = [emit_tc_layer ''notify'' Ptm]"
  using notifications_follow_changes [of "sample_worker (Some ''notify'')" "''notify''"
      "map (\<lambda>s. (some_clock, line_in s)) [Initializing, Up, Up, NoSignal, Up]"]
  by (simp add: sample_worker_def BoardWorker_new_def line_in_def link_status_to_event_def
      DslConfig_default_def)

lemma fold_on_progress:
  "w_events (fold on_progress evs w) = w_events w @ map FwEvProgress evs"
  "w_board (fold on_progress evs w) = w_board w"
  by (induction evs arbitrary: w) (simp_all add: on_progress_def set_fw_status_def send_event_def)

text \<open>An upgrade command that returns always ends in a final status: exactly one completion
  event is sent, after all progress events, and the shared firmware status agrees with it, so
  a later upgrade is not refused as still in progress.\<close>

lemma upgrade_command_completes:
  assumes "handle_firmware_upgrade T E show_io img w = Returns w'"
  shows "\<exists>evs r. w_events w' = w_events w @ map FwEvProgress evs @ [FwEvDone r] \<and>
    ds_fw_status (w_state w') = (case r of Inr _ \<Rightarrow> FwDone | Inl msg \<Rightarrow> FwFailed msg)"
proof -
  let ?w = "set_fw_status FwUpgrading w"
  obtain r evs b where up: "firmware_upgrade T E img (w_board ?w) = Returns (r, evs, b)"
    and w': "w' = (let w = (fold on_progress evs ?w)\<lparr>w_board := b\<rparr> in
        case r of Inr res \<Rightarrow> send_event (FwEvDone (Inr res)) (set_fw_status FwDone w)
        | Inl e \<Rightarrow> send_event (FwEvDone (Inl (board_error_text show_io e)))
                   (set_fw_status (FwFailed (board_error_text show_io e)) w))"
    using handle_firmware_upgrade_result [OF assms] by blast
  have same: "w_events ?w = w_events w" by (simp add: set_fw_status_def)
  show ?thesis
  proof (cases r)
    case (Inl e)
    then show ?thesis
      using same by (intro exI [of _ evs] exI [of _ "Inl (board_error_text show_io e)"])
        (simp add: w' Let_def send_event_def set_fw_status_def fold_on_progress)
  next
    case (Inr res)
    then show ?thesis
      using same by (intro exI [of _ evs] exI [of _ "Inr res"])
        (simp add: w' Let_def send_event_def set_fw_status_def fold_on_progress)
  qed
qed

lemma upgrade_command_completes_witness:
  "\<exists>w' evs r. handle_firmware_upgrade silent_transport null_engine (\<lambda>e. []) [1, 2, 3] (sample_worker None)
     = Returns w' \<and> w_events w' = map FwEvProgress evs @ [FwEvDone r] \<and>
     ds_fw_status (w_state w') = (case r of Inr _ \<Rightarrow> FwDone | Inl msg \<Rightarrow> FwFailed msg)"
proof -
  have "length (announce_payload (of_nat (length [1 :: byte, 2, 3]))) \<le> 188"
    by (simp add: announce_payload_def)
  then obtain b' where "fw_request silent_transport null_engine 1500 5
      (announce_payload (of_nat (length [1 :: byte, 2, 3]))) silent_board = Returns (Inl Timeout, b')"
    using script_announce_silent unfolding silent_transport_def silent_board_def by blast
  then have "firmware_upgrade silent_transport null_engine [1, 2, 3] silent_board = Returns (Inl Timeout, [], b')"
    by (simp add: firmware_upgrade_def TIMEOUT_ANNOUNCE_MS_def RETRIES_ANNOUNCE_def)
  moreover have "w_board (set_fw_status FwUpgrading (sample_worker None)) = silent_board"
    by (simp add: set_fw_status_def sample_worker_def BoardWorker_new_def)
  ultimately obtain w' where w': "handle_firmware_upgrade silent_transport null_engine (\<lambda>e. []) [1, 2, 3]
      (sample_worker None) = Returns w'"
    by (simp add: handle_firmware_upgrade_def Let_def)
  have "w_events (sample_worker None) = []"
    by (simp add: sample_worker_def BoardWorker_new_def)
  with upgrade_command_completes [OF w'] w' show ?thesis by auto
qed

definition uci_of :: "(string \<times> string) list \<Rightarrow> uci" where
  "uci_of opts = (\<lambda>key. Inr (map_of opts key))"

definition no_bitswap_uci :: uci where
  "no_bitswap_uci = uci_of [(''network.dsl.bitswap'', ''0'')]"

definition refused_uci :: uci where
  "refused_uci = uci_of [(''network.dsl.line_mode'', ''vdsl''), (''network.dsl.xfer_mode'', ''atm'')]"

lemma no_bitswap_built:
  "build_config no_bitswap_uci no_overrides = Inr (DslConfig_default\<lparr>dc_bitswap := False\<rparr>)"
  by (simp add: build_simps no_bitswap_uci_def uci_of_def no_overrides_def DslConfig_default_def)

lemma refused_built:
  "\<exists>cfg. build_config refused_uci no_overrides = Inr cfg \<and> dc_modulation cfg = Vdsl2 \<and> dc_xfer_mode cfg = Atm"
  by (simp add: build_simps refused_uci_def uci_of_def no_overrides_def tone_profile_def)



end
