(* ===== verification/Ipc.thy ===== *)
theory Ipc
  imports UbusObj Board
begin

text \<open>
  The control socket (\<open>rbctl_dsl/src/ipc.rs\<close>): commands, the status report and its parser, the
  server side of one connection and the two clients.  A connected stream is what the peer
  sends before it closes or a read fails, whether writes fail, and what has been written so
  far.  \<open>read_line\<close> and \<open>read_to_string\<close> reject text that is not UTF-8, as the standard
  library does.
\<close>

section \<open>Commands\<close>

definition SOCK_PATH :: string where "SOCK_PATH = ''/var/run/rbctl-dsl.sock''"

datatype ipc_cmd = CmdStatus | CmdReload | CmdRestart | CmdStop

definition cmd_from_arg :: "string \<Rightarrow> ipc_cmd option" where
  "cmd_from_arg s =
     (if s = ''status'' \<or> s = ''info'' then Some CmdStatus
      else if s = ''reload'' then Some CmdReload
      else if s = ''restart-line'' \<or> s = ''restart'' then Some CmdRestart
      else if s = ''stop'' \<or> s = ''shutdown'' then Some CmdStop
      else None)"

primrec as_wire :: "ipc_cmd \<Rightarrow> string" where
  "as_wire CmdStatus = ''STATUS''"
| "as_wire CmdReload = ''RELOAD''"
| "as_wire CmdRestart = ''RESTART''"
| "as_wire CmdStop = ''STOP''"

section \<open>Status report\<close>

record status_snapshot =
  sn_state :: string
  sn_state_num :: int
  sn_up :: bool
  sn_uptime_secs :: u64
  sn_modulation :: string
  sn_annex :: string
  sn_xfer_mode :: string
  sn_down_rate :: u32
  sn_up_rate :: u32
  sn_down_snr :: u32
  sn_up_snr :: u32
  sn_fw_status :: string

definition StatusSnapshot_default :: status_snapshot where
  "StatusSnapshot_default =
     \<lparr>sn_state = [], sn_state_num = 0, sn_up = False, sn_uptime_secs = 0, sn_modulation = [],
      sn_annex = [], sn_xfer_mode = [], sn_down_rate = 0, sn_up_rate = 0, sn_down_snr = 0,
      sn_up_snr = 0, sn_fw_status = []\<rparr>"

definition key_line :: "string \<Rightarrow> string \<Rightarrow> string" where
  "key_line k v = k @ '': '' @ v"

definition to_lines :: "status_snapshot \<Rightarrow> string" where
  "to_lines s =
     concat (map (\<lambda>l. l @ [nl])
       [key_line ''state'' (sn_state s),
        key_line ''state_num'' (show_int (sn_state_num s)),
        key_line ''up'' (show_bool (sn_up s)),
        key_line ''uptime'' (show_nat (unat (sn_uptime_secs s))),
        key_line ''modulation'' (sn_modulation s),
        key_line ''annex'' (sn_annex s),
        key_line ''xfer_mode'' (sn_xfer_mode s),
        key_line ''down_rate'' (show_nat (unat (sn_down_rate s))),
        key_line ''up_rate'' (show_nat (unat (sn_up_rate s))),
        key_line ''down_snr'' (show_nat (unat (sn_down_snr s))),
        key_line ''up_snr'' (show_nat (unat (sn_up_snr s)))]) @
     key_line ''fw_status'' (sn_fw_status s)"

text \<open>The body of the \<open>for\<close> loop of \<open>from_lines\<close>.\<close>

definition apply_line :: "string \<Rightarrow> status_snapshot \<Rightarrow> status_snapshot" where
  "apply_line line s =
     (case split_once '': '' line of
        None \<Rightarrow> s
      | Some (k, v) \<Rightarrow>
          (let k = trim k; v = trim v in
           if k = ''state'' then s\<lparr>sn_state := v\<rparr>
           else if k = ''state_num'' then s\<lparr>sn_state_num := unwrap_or (parse_i32 v) 0\<rparr>
           else if k = ''up'' then s\<lparr>sn_up := (v = ''true'')\<rparr>
           else if k = ''uptime'' then s\<lparr>sn_uptime_secs := unwrap_or (parse_u64 v) 0\<rparr>
           else if k = ''modulation'' then s\<lparr>sn_modulation := v\<rparr>
           else if k = ''annex'' then s\<lparr>sn_annex := v\<rparr>
           else if k = ''xfer_mode'' then s\<lparr>sn_xfer_mode := v\<rparr>
           else if k = ''down_rate'' then s\<lparr>sn_down_rate := unwrap_or (parse_u32 v) 0\<rparr>
           else if k = ''up_rate'' then s\<lparr>sn_up_rate := unwrap_or (parse_u32 v) 0\<rparr>
           else if k = ''down_snr'' then s\<lparr>sn_down_snr := unwrap_or (parse_u32 v) 0\<rparr>
           else if k = ''up_snr'' then s\<lparr>sn_up_snr := unwrap_or (parse_u32 v) 0\<rparr>
           else if k = ''fw_status'' then s\<lparr>sn_fw_status := v\<rparr>
           else s))"

definition from_lines :: "string \<Rightarrow> status_snapshot" where
  "from_lines body = fold apply_line (rust_lines body) StatusSnapshot_default"

section \<open>Streams\<close>

record stream =
  sm_input :: bytes
  sm_read_fault :: "io_error option"
  sm_write_fault :: "io_error option"
  sm_written :: bytes

text \<open>The bytes up to and with the first newline, and what follows them.\<close>

fun split_line :: "bytes \<Rightarrow> (bytes \<times> bytes) option" where
  "split_line [] = None"
| "split_line (b # bs) =
     (if b = 0x0A then Some ([b], bs)
      else case split_line bs of None \<Rightarrow> None | Some (l, r) \<Rightarrow> Some (b # l, r))"

definition invalid_utf8 :: io_error where
  "invalid_utf8 = OtherIo ''stream did not contain valid UTF-8''"

definition read_line :: "stream \<Rightarrow> (io_error + string) \<times> stream" where
  "read_line s =
     (case split_line (sm_input s) of
        Some (l, rest) \<Rightarrow>
          (if utf8_valid l then Inr (str_of_bytes l) else Inl invalid_utf8, s\<lparr>sm_input := rest\<rparr>)
      | None \<Rightarrow>
          (case sm_read_fault s of
             Some e \<Rightarrow> (Inl e, s\<lparr>sm_input := []\<rparr>)
           | None \<Rightarrow>
               (if utf8_valid (sm_input s) then Inr (str_of_bytes (sm_input s)) else Inl invalid_utf8,
                s\<lparr>sm_input := []\<rparr>)))"

definition read_to_string :: "stream \<Rightarrow> io_error + string" where
  "read_to_string s =
     (case sm_read_fault s of
        Some e \<Rightarrow> Inl e
      | None \<Rightarrow> if utf8_valid (sm_input s) then Inr (str_of_bytes (sm_input s)) else Inl invalid_utf8)"

definition write_all :: "string \<Rightarrow> stream \<Rightarrow> (io_error + unit) \<times> stream" where
  "write_all text s =
     (case sm_write_fault s of
        Some e \<Rightarrow> (Inl e, s)
      | None \<Rightarrow> (Inr (), s\<lparr>sm_written := sm_written s @ bytes_of_str text\<rparr>))"

section \<open>Server side\<close>

datatype ipc_action = ActNone | ActReload | ActRestartLine | ActStop | ActFirmwareUpgrade string

definition handle_client :: "stream \<Rightarrow> status_snapshot \<Rightarrow> (io_error + ipc_action) \<times> stream" where
  "handle_client stream snapshot =
     (case read_line stream of
        (Inl e, s) \<Rightarrow> (Inl e, s)
      | (Inr line, s) \<Rightarrow>
          (let cmd = trim line in
           case strip_prefix_str ''FIRMWARE '' cmd of
             Some path \<Rightarrow> (Inr (ActFirmwareUpgrade (trim path)), s)
           | None \<Rightarrow>
               if cmd = ''RELOAD'' then (Inr ActReload, snd (write_all (''OK reloading'' @ [nl]) s))
               else if cmd = ''RESTART'' then
                 (Inr ActRestartLine, snd (write_all (''OK restarting line'' @ [nl]) s))
               else if cmd = ''STOP'' then (Inr ActStop, snd (write_all (''OK stopping'' @ [nl]) s))
               else
                 (let response =
                    (if cmd = ''STATUS'' then ''OK'' @ [nl] @ to_lines snapshot @ [nl] @ ''.'' @ [nl]
                     else ''ERR: unknown command '' @ [CHR 0x27] @ cmd @ [CHR 0x27] @ [nl])
                  in case write_all response s of
                       (Inl e, s) \<Rightarrow> (Inl e, s)
                     | (Inr _, s) \<Rightarrow> (Inr ActNone, s))))"

text \<open>What \<open>accept\<close> on the non-blocking listener yields; setting the read timeout of the
  accepted stream may fail.\<close>

datatype accepted_client = NoClient | AcceptFailed io_error | Client "io_error option" stream

definition accept_one ::
  "accepted_client \<Rightarrow> status_snapshot \<Rightarrow> (io_error + (ipc_action \<times> stream) option)" where
  "accept_one client snapshot =
     (case client of
        NoClient \<Rightarrow> Inr None
      | AcceptFailed e \<Rightarrow> if e = WouldBlock then Inr None else Inl e
      | Client (Some e) _ \<Rightarrow> Inl e
      | Client None stream \<Rightarrow>
          (case handle_client stream snapshot of
             (Inl e, _) \<Rightarrow> Inl e
           | (Inr action, s) \<Rightarrow> Inr (Some (action, s))))"

section \<open>Client side\<close>

text \<open>Connecting and setting the read timeout yield a stream or an error.\<close>

definition send_command :: "(io_error + stream) \<Rightarrow> ipc_cmd \<Rightarrow> io_error + string" where
  "send_command connected cmd =
     (case connected of
        Inl e \<Rightarrow> Inl e
      | Inr stream \<Rightarrow>
          (case write_all (as_wire cmd @ [nl]) stream of
             (Inl e, _) \<Rightarrow> Inl e
           | (Inr _, s) \<Rightarrow> read_to_string s))"

lemma split_line_shorter: "split_line bs = Some (l, r) \<Longrightarrow> bs = l @ r \<and> l \<noteq> []"
  by (induction bs arbitrary: l r) (auto split: if_splits option.splits)

lemma read_line_shorter:
  "read_line s = (Inr l, s') \<Longrightarrow> l \<noteq> [] \<Longrightarrow> length (sm_input s') < length (sm_input s)"
  by (cases "split_line (sm_input s)")
     (auto simp: read_line_def str_of_bytes_def dest: split_line_shorter split: if_splits option.splits)

text \<open>The loop of \<open>send_firmware\<close>: the final reply text and the lines handed to the callback.\<close>

function reply_loop :: "stream \<Rightarrow> string list \<Rightarrow> (io_error + string) \<times> string list" where
  "reply_loop s shown =
     (case read_line s of
        (Inl e, _) \<Rightarrow> (Inl e, shown)
      | (Inr line, s') \<Rightarrow>
          if line = [] then (Inr [], shown)
          else let trimmed = trim line in
            if trimmed = ''.'' then (Inr [], shown)
            else if starts_with trimmed ''ERR:'' \<or> starts_with trimmed ''DONE'' then (Inr trimmed, shown)
            else if starts_with trimmed ''OK'' then reply_loop s' shown
            else reply_loop s' (shown @ [trimmed]))"
  by auto
termination
  by (relation "measure (\<lambda>(s, shown). length (sm_input s))") (auto dest: read_line_shorter [OF sym])

declare reply_loop.simps [simp del]

definition send_firmware ::
  "(io_error + stream) \<Rightarrow> string \<Rightarrow> (io_error + string) \<times> string list" where
  "send_firmware connected path =
     (case connected of
        Inl e \<Rightarrow> (Inl e, [])
      | Inr stream \<Rightarrow>
          (case write_all (''FIRMWARE '' @ path @ [nl]) stream of
             (Inl e, _) \<Rightarrow> (Inl e, [])
           | (Inr _, s) \<Rightarrow> reply_loop s []))"

section \<open>Properties\<close>

lemma utf8_ascii: "\<forall>b \<in> set bs. b < 0x80 \<Longrightarrow> utf8_valid bs"
  by (induction bs) auto

text \<open>Text of the protocol: ASCII without line breaks.\<close>

definition plain :: "char \<Rightarrow> bool" where
  "plain c \<longleftrightarrow> (of_char c :: nat) < 0x80 \<and> c \<noteq> nl"

lemma plain_bytes:
  assumes "\<forall>c \<in> set s. plain c"
  shows "utf8_valid (bytes_of_str s)" and "0x0A \<notin> set (bytes_of_str s)"
proof -
  have small: "(of_nat (of_char c) :: byte) < 0x80 \<and> (of_nat (of_char c) :: byte) \<noteq> 0x0A" if "plain c" for c
  proof -
    let ?n = "of_char c :: nat"
    have n: "?n < 0x80" using that by (simp add: plain_def)
    have "(of_char nl :: nat) = 0x0A" by (simp add: nl_def)
    then have "?n \<noteq> 0x0A"
      using that by (metis of_char_eq_iff plain_def)
    then show ?thesis
      using n by (simp add: word_less_nat_alt unsigned_of_nat take_bit_nat_eq_self word_unat_eq_iff)
  qed
  show "utf8_valid (bytes_of_str s)"
    using assms small by (intro utf8_ascii) (auto simp: bytes_of_str_def)
  show "0x0A \<notin> set (bytes_of_str s)"
    using assms small by (force simp: bytes_of_str_def)
qed

lemma split_line_here: "0x0A \<notin> set l \<Longrightarrow> split_line (l @ 0x0A # r) = Some (l @ [0x0A], r)"
  by (induction l) auto

lemma bytes_of_str_append [simp]: "bytes_of_str (a @ b) = bytes_of_str a @ bytes_of_str b"
  by (simp add: bytes_of_str_def)

lemma bytes_of_nl: "bytes_of_str [nl] = [0x0A]"
  by (simp add: bytes_of_str_def nl_def)

text \<open>A peer that sends the given text and closes.\<close>

definition peer_sends :: "string \<Rightarrow> stream" where
  "peer_sends text =
     \<lparr>sm_input = bytes_of_str text, sm_read_fault = None, sm_write_fault = None, sm_written = []\<rparr>"

lemma utf8_append_ascii: "\<forall>b \<in> set xs. b < 0x80 \<Longrightarrow> utf8_valid (xs @ ys) = utf8_valid ys"
  by (induction xs) auto

lemma read_line_plain:
  assumes "\<forall>c \<in> set l. plain c"
  shows "read_line (peer_sends (l @ [nl] @ r)) = (Inr (l @ [nl]), peer_sends r)"
proof -
  have "utf8_valid (bytes_of_str l @ [0x0A])"
  proof (rule utf8_ascii, safe)
    fix b
    assume "b \<in> set (bytes_of_str l @ [0x0A])"
    then show "b < 0x80"
      using assms by (auto simp: bytes_of_str_def plain_def word_less_nat_alt unsigned_of_nat take_bit_nat_eq_self)
  qed
  moreover have "str_of_bytes (bytes_of_str l @ [0x0A]) = l @ [nl]"
    using str_of_bytes_of_str [of "l @ [nl]"] by (simp add: bytes_of_nl)
  ultimately show ?thesis
    using split_line_here [OF plain_bytes(2) [OF assms], of "bytes_of_str r"]
    by (simp add: read_line_def peer_sends_def bytes_of_nl [unfolded nl_def] nl_def)
       (simp add: bytes_of_str_def)
qed

definition clean :: "string \<Rightarrow> bool" where
  "clean v \<longleftrightarrow> trim v = v \<and> line_ok v"

definition clean_snapshot :: "status_snapshot \<Rightarrow> bool" where
  "clean_snapshot s \<longleftrightarrow>
     clean (sn_state s) \<and> clean (sn_modulation s) \<and> clean (sn_annex s) \<and> clean (sn_xfer_mode s) \<and>
     clean (sn_fw_status s) \<and> - (2 ^ 31) \<le> sn_state_num s \<and> sn_state_num s < 2 ^ 31"

lemma rust_lines_terminated:
  assumes "\<forall>x \<in> set ls. line_ok x"
  shows "rust_lines (concat (map (\<lambda>x. x @ [nl]) ls)) = ls"
proof -
  have "split_char nl (concat (map (\<lambda>x. x @ [nl]) ls) @ []) = ls @ [[]]"
    using assms by (intro split_char_concat) (auto simp: line_ok_def)
  moreover have "map strip_cr ls = ls"
    using assms by (intro map_idI) (auto simp: strip_cr_def line_ok_def)
  ultimately show ?thesis by (simp add: rust_lines_def)
qed

lemma key_line_split: "CHR '':'' \<notin> set k \<Longrightarrow> split_once '': '' (key_line k v) = Some (k, v)"
  unfolding key_line_def by (rule split_once_here) simp_all

lemma solid_str:
  assumes "\<forall>c \<in> set s. solid c"
  shows "clean s"
proof -
  have "\<not> solid nl" "\<not> solid cr" by (simp_all add: solid_def nl_def cr_def)
  then show ?thesis
    using assms last_in_set [of s] by (fastforce simp: clean_def trim_all_solid line_ok_def)
qed

lemma line_ok_key: "\<forall>c \<in> set k. solid c \<Longrightarrow> clean v \<Longrightarrow> line_ok (key_line k v)"
  by (auto simp: key_line_def line_ok_def clean_def nl_def cr_def solid_def)

lemma clean_show: "clean (show_nat n)" "clean (show_int i)" "clean (show_bool b)"
  using show_nat_solid by (auto intro!: solid_str simp: show_int_def show_bool_def solid_def)

lemma trim_clean: "clean v \<Longrightarrow> trim v = v"
  by (simp add: clean_def)

definition snapshot_fields :: "status_snapshot \<Rightarrow> (string \<times> string) list" where
  "snapshot_fields s =
     [(''state'', sn_state s), (''state_num'', show_int (sn_state_num s)), (''up'', show_bool (sn_up s)),
      (''uptime'', show_nat (unat (sn_uptime_secs s))), (''modulation'', sn_modulation s),
      (''annex'', sn_annex s), (''xfer_mode'', sn_xfer_mode s),
      (''down_rate'', show_nat (unat (sn_down_rate s))), (''up_rate'', show_nat (unat (sn_up_rate s))),
      (''down_snr'', show_nat (unat (sn_down_snr s))), (''up_snr'', show_nat (unat (sn_up_snr s))),
      (''fw_status'', sn_fw_status s)]"

lemma to_lines_fields:
  "to_lines s @ [nl] = concat (map (\<lambda>l. l @ [nl]) (map (\<lambda>(k, v). key_line k v) (snapshot_fields s)))"
  by (simp add: to_lines_def snapshot_fields_def)

lemma snapshot_fields_clean:
  "clean_snapshot s \<Longrightarrow> (k, v) \<in> set (snapshot_fields s) \<Longrightarrow> clean v \<and> (\<forall>c \<in> set k. solid c)"
  by (auto simp: snapshot_fields_def clean_snapshot_def clean_show solid_def)

lemma apply_framing: "apply_line ''OK'' s = s" "apply_line ''.'' s = s"
  by (simp_all add: apply_line_def)

lemma apply_key_line:
  "CHR '':'' \<notin> set k \<Longrightarrow> clean v \<Longrightarrow> trim k = k \<Longrightarrow>
   apply_line (key_line k v) s =
     (if k = ''state'' then s\<lparr>sn_state := v\<rparr>
      else if k = ''state_num'' then s\<lparr>sn_state_num := unwrap_or (parse_i32 v) 0\<rparr>
      else if k = ''up'' then s\<lparr>sn_up := (v = ''true'')\<rparr>
      else if k = ''uptime'' then s\<lparr>sn_uptime_secs := unwrap_or (parse_u64 v) 0\<rparr>
      else if k = ''modulation'' then s\<lparr>sn_modulation := v\<rparr>
      else if k = ''annex'' then s\<lparr>sn_annex := v\<rparr>
      else if k = ''xfer_mode'' then s\<lparr>sn_xfer_mode := v\<rparr>
      else if k = ''down_rate'' then s\<lparr>sn_down_rate := unwrap_or (parse_u32 v) 0\<rparr>
      else if k = ''up_rate'' then s\<lparr>sn_up_rate := unwrap_or (parse_u32 v) 0\<rparr>
      else if k = ''down_snr'' then s\<lparr>sn_down_snr := unwrap_or (parse_u32 v) 0\<rparr>
      else if k = ''up_snr'' then s\<lparr>sn_up_snr := unwrap_or (parse_u32 v) 0\<rparr>
      else if k = ''fw_status'' then s\<lparr>sn_fw_status := v\<rparr>
      else s)"
  by (simp add: apply_line_def key_line_split trim_clean)

lemma fields_read:
  assumes "clean_snapshot s"
  shows "fold apply_line (map (\<lambda>(k, v). key_line k v) (snapshot_fields s)) StatusSnapshot_default = s"
proof -
  have keys: "trim k = k" if "\<forall>c \<in> set k. solid c" for k
    using that by (rule trim_all_solid)
  have bool: "show_bool b = ''true'' \<longleftrightarrow> b" for b by (simp add: show_bool_def)
  show ?thesis
    using assms
    by (simp add: snapshot_fields_def apply_key_line keys solid_def clean_snapshot_def clean_show parse_show_word
        parse_show_int unwrap_or_def bool StatusSnapshot_default_def)
qed

lemma from_lines_report:
  assumes "clean_snapshot s"
  shows "from_lines (''OK'' @ [nl] @ to_lines s @ [nl] @ ''.'' @ [nl]) = s"
proof -
  let ?ls = "''OK'' # map (\<lambda>(k, v). key_line k v) (snapshot_fields s) @ [''.'']"
  have joined: "''OK'' @ [nl] @ to_lines s @ [nl] @ ''.'' @ [nl] = concat (map (\<lambda>l. l @ [nl]) ?ls)"
    using to_lines_fields [of s] by simp
  have ok: "\<forall>l \<in> set ?ls. line_ok l"
    using snapshot_fields_clean [OF assms] line_ok_key by (fastforce simp: line_ok_def nl_def cr_def)
  have pieces: "rust_lines (''OK'' @ [nl] @ to_lines s @ [nl] @ ''.'' @ [nl]) = ?ls"
    unfolding joined using ok by (rule rust_lines_terminated)
  show ?thesis
    using fields_read [OF assms] by (subst from_lines_def, subst pieces) (simp add: apply_framing)
qed

lemma from_lines_to_lines:
  assumes "clean_snapshot s"
  shows "from_lines (to_lines s) = s"
proof -
  let ?ls = "map (\<lambda>(k, v). key_line k v) (butlast (snapshot_fields s))" and ?l = "key_line ''fw_status'' (sn_fw_status s)"
  have split: "map (\<lambda>(k, v). key_line k v) (snapshot_fields s) = ?ls @ [?l]"
    by (simp add: snapshot_fields_def)
  have "\<forall>l \<in> set (map (\<lambda>(k, v). key_line k v) (snapshot_fields s)). line_ok l"
    using snapshot_fields_clean [OF assms] line_ok_key by fastforce
  then have ok: "\<forall>l \<in> set (?ls @ [?l]). line_ok l"
    unfolding split .
  have "\<forall>l \<in> set ?ls. line_ok l" "nl \<notin> set ?l" "?l \<noteq> []"
    using ok by (simp_all add: line_ok_def) (simp add: key_line_def)
  from rust_lines_join [OF this] have "rust_lines (to_lines s) = ?ls @ [?l]"
    by (simp add: to_lines_def snapshot_fields_def)
  then show ?thesis
    using fields_read [OF assms] by (simp add: from_lines_def split)
qed

lemma handle_client_line:
  assumes "\<forall>c \<in> set cmd. plain c" and "trim (cmd @ [nl]) = cmd"
    and "strip_prefix_str ''FIRMWARE '' cmd = None"
  shows "handle_client (peer_sends (cmd @ [nl])) snap =
     (if cmd = ''RELOAD'' then (Inr ActReload, (peer_sends [])\<lparr>sm_written := bytes_of_str (''OK reloading'' @ [nl])\<rparr>)
      else if cmd = ''RESTART'' then
        (Inr ActRestartLine, (peer_sends [])\<lparr>sm_written := bytes_of_str (''OK restarting line'' @ [nl])\<rparr>)
      else if cmd = ''STOP'' then (Inr ActStop, (peer_sends [])\<lparr>sm_written := bytes_of_str (''OK stopping'' @ [nl])\<rparr>)
      else (Inr ActNone, (peer_sends [])\<lparr>sm_written := bytes_of_str
        (if cmd = ''STATUS'' then ''OK'' @ [nl] @ to_lines snap @ [nl] @ ''.'' @ [nl]
         else ''ERR: unknown command '' @ [CHR 0x27] @ cmd @ [CHR 0x27] @ [nl])\<rparr>))"
  using read_line_plain [OF assms(1), of "[]"] assms(2,3)
  by (simp add: handle_client_def Let_def write_all_def) (simp add: peer_sends_def)

lemma wire_line:
  "\<forall>c \<in> set (as_wire cmd). plain c" "trim (as_wire cmd @ [nl]) = as_wire cmd"
  "strip_prefix_str ''FIRMWARE '' (as_wire cmd) = None"
proof -
  have solid: "\<forall>c \<in> set (as_wire cmd). solid c"
    by (cases cmd) (simp_all add: solid_def)
  then show "\<forall>c \<in> set (as_wire cmd). plain c"
    by (auto simp: solid_def plain_def nl_def)
  have "as_wire cmd \<noteq> []" by (cases cmd) simp_all
  then show "trim (as_wire cmd @ [nl]) = as_wire cmd"
    using solid trim_newline [of "as_wire cmd"] by (simp add: nl_def)
  show "strip_prefix_str ''FIRMWARE '' (as_wire cmd) = None"
    by (cases cmd) (simp_all add: strip_prefix_str_def)
qed

text \<open>A \<open>STATUS\<close> request is answered with a report from which \<open>from_lines\<close> rebuilds the
  snapshot, the framing lines included, whatever the numbers and for every text field that
  is trimmed and has no line break.\<close>

lemma status_report_roundtrip:
  assumes "clean_snapshot snap"
  shows "\<exists>report s. handle_client (peer_sends (as_wire CmdStatus @ [nl])) snap = (Inr ActNone, s) \<and>
    sm_written s = bytes_of_str report \<and> from_lines report = snap"
  using handle_client_line [OF wire_line, of CmdStatus snap] from_lines_report [OF assms]
  by (intro exI [of _ "''OK'' @ [nl] @ to_lines snap @ [nl] @ ''.'' @ [nl]"]) simp

lemma status_report_roundtrip_witness:
  "\<exists>report s. handle_client (peer_sends (as_wire CmdStatus @ [nl]))
       (StatusSnapshot_default\<lparr>sn_state := ''Silent'', sn_state_num := - 1, sn_up := True, sn_down_rate := 50000\<rparr>)
     = (Inr ActNone, s) \<and> sm_written s = bytes_of_str report \<and>
     from_lines report =
       StatusSnapshot_default\<lparr>sn_state := ''Silent'', sn_state_num := - 1, sn_up := True, sn_down_rate := 50000\<rparr>"
proof (rule status_report_roundtrip)
  have "clean []" "clean ''Silent''" by (auto intro!: solid_str simp: solid_def)
  then show "clean_snapshot (StatusSnapshot_default
      \<lparr>sn_state := ''Silent'', sn_state_num := - 1, sn_up := True, sn_down_rate := 50000\<rparr>)"
    by (simp add: clean_snapshot_def StatusSnapshot_default_def)
qed

definition action_of :: "ipc_cmd \<Rightarrow> ipc_action" where
  "action_of cmd =
     (case cmd of CmdStatus \<Rightarrow> ActNone | CmdReload \<Rightarrow> ActReload | CmdRestart \<Rightarrow> ActRestartLine
      | CmdStop \<Rightarrow> ActStop)"

lemma as_wire_range: "(\<exists>c. line = as_wire c) \<longleftrightarrow> line \<in> {''STATUS'', ''RELOAD'', ''RESTART'', ''STOP''}"
proof
  assume "line \<in> {''STATUS'', ''RELOAD'', ''RESTART'', ''STOP''}"
  then show "\<exists>c. line = as_wire c"
    by (metis as_wire.simps insertE singletonD)
next
  assume "\<exists>c. line = as_wire c"
  then obtain c where "line = as_wire c" by blast
  then show "line \<in> {''STATUS'', ''RELOAD'', ''RESTART'', ''STOP''}" by (cases c) simp_all
qed

text \<open>The two ends agree on the commands: what \<open>send_command\<close> writes makes the server
  perform exactly that command, and the replies of the three actions parse as accepted and
  contain no \<open>ERR\<close>, which is what the client's exit code looks for; every other trimmed line
  that is not a firmware request is answered with an error and changes nothing.\<close>

lemma commands_agree:
  assumes "\<forall>c \<in> set line. plain c" and "trim (line @ [nl]) = line"
    and "strip_prefix_str ''FIRMWARE '' line = None" and "line \<notin> range as_wire"
  shows "(case write_all (as_wire cmd @ [nl]) (peer_sends reply) of (r, s) \<Rightarrow>
      r = Inr () \<and> sm_written s = sm_input (peer_sends (as_wire cmd @ [nl])) \<and>
      fst (handle_client (peer_sends (str_of_bytes (sm_written s))) snap) = Inr (action_of cmd)) \<and>
   (\<exists>s. handle_client (peer_sends (line @ [nl])) snap = (Inr ActNone, s) \<and>
        sm_written s = bytes_of_str (''ERR: unknown command '' @ [CHR 0x27] @ line @ [CHR 0x27] @ [nl]))"
proof (intro conjI)
  have "fst (handle_client (peer_sends (as_wire cmd @ [nl])) snap) = Inr (action_of cmd)"
    by (subst handle_client_line [OF wire_line]) (cases cmd; simp add: action_of_def)
  then show "case write_all (as_wire cmd @ [nl]) (peer_sends reply) of (r, s) \<Rightarrow>
      r = Inr () \<and> sm_written s = sm_input (peer_sends (as_wire cmd @ [nl])) \<and>
      fst (handle_client (peer_sends (str_of_bytes (sm_written s))) snap) = Inr (action_of cmd)"
    by (simp add: write_all_def peer_sends_def str_of_bytes_of_str del: bytes_of_str_append)
next
  show "\<exists>s. handle_client (peer_sends (line @ [nl])) snap = (Inr ActNone, s) \<and>
           sm_written s = bytes_of_str (''ERR: unknown command '' @ [CHR 0x27] @ line @ [CHR 0x27] @ [nl])"
    using handle_client_line [OF assms(1-3), of snap] assms(4) as_wire_range [of line] by (auto simp: image_iff)
qed

lemma commands_agree_witness:
  "\<exists>s. handle_client (peer_sends (''HELP'' @ [nl])) StatusSnapshot_default = (Inr ActNone, s) \<and>
        sm_written s = bytes_of_str (''ERR: unknown command '' @ [CHR 0x27] @ ''HELP'' @ [CHR 0x27] @ [nl])"
proof -
  have "\<forall>c \<in> set ''HELP''. plain c" by (simp add: plain_def nl_def)
  moreover have "trim (''HELP'' @ [nl]) = ''HELP''"
    using trim_newline [of "''HELP''"] by (simp add: solid_def nl_def)
  moreover have "strip_prefix_str ''FIRMWARE '' ''HELP'' = None"
    by (simp add: strip_prefix_str_def)
  moreover have "''HELP'' \<notin> range as_wire"
    using as_wire_range [of "''HELP''"] by (auto simp: image_iff)
  ultimately show ?thesis
    by (rule commands_agree [where cmd = CmdStop and reply = "[]", THEN conjunct2])
qed

text \<open>The lines of a firmware reply and how the client's loop reads them.\<close>

definition text_line :: "string \<Rightarrow> bool" where
  "text_line l \<longleftrightarrow> l \<noteq> [] \<and> (\<forall>c \<in> set l. plain c) \<and> solid (hd l) \<and> solid (last l)"

definition final_line :: "string \<Rightarrow> bool" where
  "final_line l \<longleftrightarrow> starts_with l ''ERR:'' \<or> starts_with l ''DONE''"

definition progress_line :: "string \<Rightarrow> bool" where
  "progress_line l \<longleftrightarrow> text_line l \<and> l \<noteq> ''.'' \<and> \<not> final_line l \<and> \<not> starts_with l ''OK''"

definition joined_lines :: "string list \<Rightarrow> string" where
  "joined_lines ls = concat (map (\<lambda>l. l @ [nl]) ls)"

lemma read_text_line:
  "text_line l \<Longrightarrow> read_line (peer_sends (l @ [nl] @ r)) = (Inr (l @ [nl]), peer_sends r)"
  "text_line l \<Longrightarrow> trim (l @ [nl]) = l"
  using read_line_plain [of l r] trim_newline [of l] by (simp_all add: text_line_def nl_def)

lemma reply_loop_line:
  assumes "text_line l" and "l \<noteq> ''.''"
  shows "reply_loop (peer_sends (l @ [nl] @ r)) shown =
    (if final_line l then (Inr l, shown)
     else reply_loop (peer_sends r) (if starts_with l ''OK'' then shown else shown @ [l]))"
  using assms
  by (subst reply_loop.simps) (simp only: read_text_line prod.case sum.case Let_def final_line_def append_is_Nil_conv
      list.distinct if_False if_True not_False_eq_True simp_thms; simp)

lemma reply_loop_progress:
  "\<forall>l \<in> set ls. progress_line l \<Longrightarrow>
   reply_loop (peer_sends (joined_lines ls @ r)) shown = reply_loop (peer_sends r) (shown @ ls)"
proof (induction ls arbitrary: shown)
  case (Cons l ls)
  then have "reply_loop (peer_sends (l @ [nl] @ joined_lines ls @ r)) shown =
      reply_loop (peer_sends (joined_lines ls @ r)) (shown @ [l])"
    by (subst reply_loop_line) (simp_all add: progress_line_def)
  with Cons show ?case by (simp add: joined_lines_def)
qed (simp add: joined_lines_def)

lemma ok_line: "text_line ''OK''" "starts_with ''OK'' ''OK''" "\<not> final_line ''OK''"
  by (simp_all add: text_line_def plain_def solid_def nl_def starts_with_def final_line_def)

lemma reply_stream_read:
  assumes "\<forall>l \<in> set ls. progress_line l" and "text_line done_line" and "final_line done_line"
  shows "reply_loop (peer_sends (''OK'' @ [nl] @ joined_lines ls @ done_line @ [nl] @ rest)) [] =
    (Inr done_line, ls)"
proof -
  have dot: "done_line \<noteq> ''.''" using assms(3) by (auto simp: final_line_def starts_with_def)
  have "reply_loop (peer_sends (''OK'' @ [nl] @ joined_lines ls @ done_line @ [nl] @ rest)) [] =
      reply_loop (peer_sends (joined_lines ls @ done_line @ [nl] @ rest)) []"
    by (subst reply_loop_line [OF ok_line(1)]) (simp_all only: ok_line, simp_all)
  also have "\<dots> = reply_loop (peer_sends (done_line @ [nl] @ rest)) ls"
    by (subst reply_loop_progress [OF assms(1)]) simp
  also have "\<dots> = (Inr done_line, ls)"
    by (subst reply_loop_line [OF assms(2) dot]) (simp add: assms(3))
  finally show ?thesis .
qed

end
