(* ===== verification/Daemon.thy ===== *)
theory Daemon
  imports Worker Ipc "HOL-Library.Multiset"
begin

text \<open>
  The daemon (\<open>rbctl_dsl/src/daemon.rs\<close>) and the parts of the command-line program that talk to
  it (\<open>rbctl_dsl/src/main.rs\<close>): startup up to the control loop, the control loop with its
  signal flags, the firmware request thread, the status snapshot and the shutdown.  What the
  outside answers is an argument: opening UCI and the board socket, the network interface
  table, the netlink calls, the files, the clients of the control socket.  Log output is not
  modelled.
\<close>

section \<open>Helpers\<close>

text \<open>\<open>&iface[..i]\<close> for the position \<open>i\<close> of the last dot.\<close>

definition parent_iface :: "string \<Rightarrow> string" where
  "parent_iface iface =
     (if CHR ''.'' \<in> set iface
      then rev (tl (dropWhile (\<lambda>c. c \<noteq> CHR ''.'') (rev iface))) else iface)"

definition atm_params :: "atm_config option \<Rightarrow> u16 \<Rightarrow> atm_link_params" where
  "atm_params atm vlan_id =
     (let a = unwrap_or atm \<lparr>ac_vpi = 8, ac_vci = 35, ac_encap = Llc, ac_link_type = Eoa,
                            ac_qos = Ubr, ac_pcr = 0\<rparr>
      in AtmLinkParams_default
           \<lparr>alp_vpi := ac_vpi a, alp_vci := ac_vci a, alp_encap := ac_encap a,
            alp_link_type := ac_link_type a, alp_qos := ac_qos a, alp_pcr := ac_pcr a,
            alp_vlan_id := vlan_id\<rparr>)"

text \<open>An \<open>io::Error\<close> of the netlink layer: its \<open>raw_os_error\<close> and its text.\<close>

record os_error =
  oe_raw :: "int option"
  oe_text :: string

text \<open>What the route-netlink calls answer in one go of the caller.\<close>

record rtnl =
  rt_new :: "os_error + unit"
  rt_add_vlan :: "string \<Rightarrow> u16 \<Rightarrow> os_error + string"
  rt_set_up :: "string \<Rightarrow> os_error + unit"
  rt_del :: "string \<Rightarrow> os_error + unit"

definition EEXIST :: int where "EEXIST = 17"
definition ENODEV :: int where "ENODEV = 19"
definition ENXIO :: int where "ENXIO = 6"

definition vlan_name :: "string \<Rightarrow> u16 \<Rightarrow> string" where
  "vlan_name parent vlan_id = parent @ ''.'' @ show_nat (unat vlan_id)"

definition create_vlan_iface :: "rtnl \<Rightarrow> string \<Rightarrow> u16 \<Rightarrow> string + unit" where
  "create_vlan_iface R parent vlan_id =
     (let name = vlan_name parent vlan_id in
      case rt_new R of
        Inl e \<Rightarrow> Inl (''rtnl: '' @ oe_text e)
      | Inr _ \<Rightarrow>
          (let up = (case rt_set_up R name of
                       Inl e \<Rightarrow> Inl (''set_up '' @ name @ '': '' @ oe_text e) | Inr _ \<Rightarrow> Inr ()) in
           case rt_add_vlan R parent vlan_id of
             Inr _ \<Rightarrow> up
           | Inl e \<Rightarrow> if oe_raw e = Some EEXIST then up
                     else Inl (''add_vlan '' @ name @ '': '' @ oe_text e)))"

text \<open>The right injection says whether the interface was already gone; the left one is the
  warning that is logged.\<close>

definition delete_vlan_iface :: "rtnl \<Rightarrow> string \<Rightarrow> u16 \<Rightarrow> string + bool" where
  "delete_vlan_iface R parent vlan_id =
     (let name = vlan_name parent vlan_id in
      case (case rt_new R of Inl e \<Rightarrow> Inl e | Inr _ \<Rightarrow> rt_del R name) of
        Inr _ \<Rightarrow> Inr False
      | Inl e \<Rightarrow> if oe_raw e = Some ENODEV \<or> oe_raw e = Some ENXIO then Inr True
                else Inl (''delete '' @ name @ '': '' @ oe_text e))"

definition ubus_sockets :: "string list" where
  "ubus_sockets = [''/var/run/ubus.sock'', ''/var/run/ubus/ubus.sock'', ''/tmp/run/ubus.sock'',
     ''/tmp/run/ubus/ubus.sock'']"

definition find_ubus_socket :: "(string \<Rightarrow> bool) \<Rightarrow> string option" where
  "find_ubus_socket connects = List.find connects ubus_sockets"

section \<open>Status snapshot\<close>

text \<open>The derived \<open>Debug\<close> texts of the enumerations.\<close>

primrec modulation_debug :: "modulation \<Rightarrow> string" where
  "modulation_debug AdslAnsiT1413 = ''AdslAnsiT1413''"
| "modulation_debug AdslGdmt = ''AdslGdmt''"
| "modulation_debug AdslGlite = ''AdslGlite''"
| "modulation_debug AdslGdmtBis = ''AdslGdmtBis''"
| "modulation_debug Adsl2Plus = ''Adsl2Plus''"
| "modulation_debug AdslMultimode = ''AdslMultimode''"
| "modulation_debug Vdsl2 = ''Vdsl2''"
| "modulation_debug Multimode = ''Multimode''"

primrec annex_debug :: "annex \<Rightarrow> string" where
  "annex_debug Annex_A = ''A''"
| "annex_debug Annex_B = ''B''"
| "annex_debug Annex_I = ''I''"
| "annex_debug Annex_M = ''M''"
| "annex_debug Annex_AL = ''AL''"
| "annex_debug Annex_ALM = ''ALM''"
| "annex_debug Annex_J = ''J''"
| "annex_debug Annex_BJ = ''BJ''"
| "annex_debug Annex_Auto = ''Auto''"

primrec xfer_debug :: "xfer_mode \<Rightarrow> string" where
  "xfer_debug Atm = ''Atm''"
| "xfer_debug Ptm = ''Ptm''"

definition build_snapshot :: "dsl_state \<Rightarrow> status_snapshot" where
  "build_snapshot st =
     (let fw = fw_status_str (ds_fw_status st) in
      case ds_line_obj st of
        Some line \<Rightarrow>
          (let (state_str, state_num, up) = map_link_status (lo_link_status line) in
           \<lparr>sn_state = state_str, sn_state_num = state_num, sn_up = up,
            sn_uptime_secs = ds_uptime_secs st,
            sn_modulation = show_nat (unat (lo_modulation_code line)),
            sn_annex = annex_string (lo_annex_code line),
            sn_xfer_mode = xfer_debug (unwrap_or (ds_xfer_mode st) Ptm),
            sn_down_rate = down_rate (lo_metrics line), sn_up_rate = up_rate (lo_metrics line),
            sn_down_snr = down_noise_margin (lo_metrics line),
            sn_up_snr = up_noise_margin (lo_metrics line), sn_fw_status = fw\<rparr>)
      | None \<Rightarrow>
          StatusSnapshot_default
            \<lparr>sn_modulation := modulation_debug (ds_modulation st),
             sn_annex := annex_debug (ds_annex st),
             sn_xfer_mode := xfer_debug (unwrap_or (ds_xfer_mode st) Ptm), sn_fw_status := fw\<rparr>)"

section \<open>The firmware request\<close>

text \<open>The thread of one request up to the point where it hands the image to the worker: the
  check of the shared status, the file, the acknowledgement.  The result is the command put
  on the worker's channel, if any, and the client's stream.\<close>

definition upgrade_idle :: "fw_status \<Rightarrow> bool" where
  "upgrade_idle s = (case s of FwIdle \<Rightarrow> True | FwDone \<Rightarrow> True | FwFailed _ \<Rightarrow> True | _ \<Rightarrow> False)"

definition put :: "string \<Rightarrow> stream \<Rightarrow> stream" where
  "put text s = snd (write_all text s)"

definition err_reply :: "string \<Rightarrow> string" where
  "err_reply msg = ''ERR: '' @ msg @ [nl] @ ''.'' @ [nl]"

definition request_upgrade ::
  "(io_error \<Rightarrow> string) \<Rightarrow> dsl_state \<Rightarrow> (io_error + bytes) \<Rightarrow> string \<Rightarrow> bool \<Rightarrow> stream \<Rightarrow>
     worker_cmd option \<times> stream" where
  "request_upgrade show_io st file path worker_alive stream =
     (if \<not> upgrade_idle (ds_fw_status st) then
        (None, put (err_reply ''upgrade already in progress'') stream)
      else
        (case file of
           Inl e \<Rightarrow> (None, put (err_reply (''cannot read '' @ path @ '': '' @ show_io e)) stream)
         | Inr img \<Rightarrow>
             (case validate_image img of
                Inl e \<Rightarrow> (None, put (err_reply e) stream)
              | Inr _ \<Rightarrow>
                  (let stream = put (''OK'' @ [nl]) stream;
                       stream = (case parse_header img of
                          Inl _ \<Rightarrow> stream
                        | Inr hdr \<Rightarrow> put (''IMAGE version='' @ version_str hdr @ '' size='' @
                                         show_nat (length img) @ [nl]) stream)
                   in if worker_alive then (Some (FirmwareUpgrade img), stream)
                      else (None, put (err_reply ''worker thread unavailable'') stream)))))"

text \<open>The events of the upgrade, until one ends it, the worker drops its end of the channel or
  writing a progress line to the client fails.\<close>

definition progress_text :: "fw_progress \<Rightarrow> string" where
  "progress_text p =
     ''PROGRESS stage='' @ show_nat (unat (fp_stage p)) @
     (if 0 < fp_pct p then '' pct='' @ show_nat (unat (fp_pct p)) else [])"

definition done_text :: "fw_upgrade_result \<Rightarrow> string" where
  "done_text r = ''DONE version=0x'' @ show_hex8 (fr_version r) @ '' status='' @ show_nat (unat (fr_status r))"

fun stream_events :: "fw_event list \<Rightarrow> stream \<Rightarrow> stream" where
  "stream_events [] s = s"
| "stream_events (FwEvProgress p # evs) s =
     (case write_all (progress_text p @ [nl]) s of
        (Inl e, s) \<Rightarrow> s
      | (Inr _, s) \<Rightarrow> stream_events evs s)"
| "stream_events (FwEvDone (Inr r) # evs) s = put (done_text r @ [nl] @ ''.'' @ [nl]) s"
| "stream_events (FwEvDone (Inl msg) # evs) s = put (err_reply msg) s"

section \<open>Startup\<close>

record 't started =
  st_worker :: "'t worker"
  st_vlan :: u16
  st_vlan_result :: "string + unit"
  st_spawned :: "spawned list"

definition board_ready :: "'t transport \<Rightarrow> 't \<Rightarrow> 't board" where
  "board_ready T sock = board_set_retries 3 (board_set_timeout T 2000 (Board_new T sock))"

definition add_link ::
  "'t transport \<Rightarrow> 'd crc_engine \<Rightarrow> dsl_config \<Rightarrow> u16 \<Rightarrow> 't board \<Rightarrow> (u16, 't) board_result" where
  "add_link T E cfg transport_vlan b =
     (case dc_xfer_mode cfg of
        Ptm \<Rightarrow> ptm_link_add T E 0 0 0 transport_vlan b
      | Atm \<Rightarrow> atm_link_add T E (atm_params (dc_atm cfg) transport_vlan) b)"

definition transport_vlan_id :: "dsl_config \<Rightarrow> u16" where
  "transport_vlan_id cfg = ucast (dc_transport_vlan_base cfg) + 2000"

text \<open>The left injection is the exit code.\<close>

definition daemon_start ::
  "'t transport \<Rightarrow> 'd crc_engine \<Rightarrow> rtnl \<Rightarrow> (string + uci) \<Rightarrow> (string \<Rightarrow> bool) \<Rightarrow> (io_error + 't) \<Rightarrow>
     string \<Rightarrow> string option \<Rightarrow> cli_overrides \<Rightarrow> (int + 't started) outcome" where
  "daemon_start T E R opened iface_exists sock config_iface notify_script overrides =
     (let cfg = (case load_config opened overrides of Inr c \<Rightarrow> c | Inl _ \<Rightarrow> DslConfig_default) in
      if validate_line_config (dc_modulation cfg) (dc_annex cfg) (dc_profiles cfg) \<noteq> Inr () then Returns (Inl 1)
      else if validate_xfer_mode (dc_modulation cfg) (hint_of (dc_xfer_mode cfg)) \<noteq> Inr () then Returns (Inl 1)
      else if \<not> iface_exists config_iface then Returns (Inl 1)
      else
        (case sock of
           Inl _ \<Rightarrow> Returns (Inl 1)
         | Inr s \<Rightarrow>
             let transport_vlan = transport_vlan_id cfg in
             bind_outcome (up_with T E cfg (board_ready T s)) (\<lambda>(_, b).
             bind_outcome (add_link T E cfg transport_vlan b) (\<lambda>(r, b).
               let vlan = (case r of Inr v \<Rightarrow> v | Inl _ \<Rightarrow> transport_vlan);
                   created = create_vlan_iface R (parent_iface config_iface) vlan;
                   st = DslState_default\<lparr>ds_xfer_mode := Some (dc_xfer_mode cfg),
                          ds_modulation := dc_modulation cfg, ds_annex := dc_annex cfg\<rparr>;
                   spawned = spawn_if notify_script (\<lambda>script. emit_tc_layer script (dc_xfer_mode cfg))
               in Returns (Inr \<lparr>st_worker = BoardWorker_new b cfg overrides st notify_script,
                               st_vlan = vlan, st_vlan_result = created, st_spawned = spawned\<rparr>)))))"

section \<open>Control loop\<close>

record flags =
  should_exit :: bool
  should_reload :: bool
  should_restart_line :: bool

text \<open>\<open>handle_sigterm\<close> and \<open>handle_sighup\<close>.\<close>

datatype signal = SigTerm | SigHup

primrec handle_signal :: "signal \<Rightarrow> flags \<Rightarrow> flags" where
  "handle_signal SigTerm f = f\<lparr>should_exit := True\<rparr>"
| "handle_signal SigHup f = f\<lparr>should_reload := True\<rparr>"

text \<open>One iteration: the signals that arrive before it, and the client that is waiting.  Its
  output are the commands sent to the worker, in order, and the firmware request for which a
  thread is spawned.  Without a bound socket no client is served.\<close>

record tick =
  tk_signals :: "signal list"
  tk_client :: "accepted_client option"

record loop_out =
  out_cmds :: "worker_cmd list"
  out_requests :: "(string \<times> stream) list"

definition control_step :: "dsl_state \<Rightarrow> accepted_client option \<Rightarrow> flags \<Rightarrow> loop_out \<times> flags" where
  "control_step st client f =
     (let cmds = (if should_reload f then [Reload] else []) @
                 (if should_restart_line f then [RestartLine] else []);
          f = f\<lparr>should_reload := False, should_restart_line := False\<rparr>
      in case client of
           None \<Rightarrow> (\<lparr>out_cmds = cmds, out_requests = []\<rparr>, f)
         | Some c \<Rightarrow>
             (case accept_one c (build_snapshot st) of
                Inl e \<Rightarrow> (\<lparr>out_cmds = cmds, out_requests = []\<rparr>, f)
              | Inr None \<Rightarrow> (\<lparr>out_cmds = cmds, out_requests = []\<rparr>, f)
              | Inr (Some (action, s)) \<Rightarrow>
                  (case action of
                     ActReload \<Rightarrow> (\<lparr>out_cmds = cmds @ [Reload], out_requests = []\<rparr>, f)
                   | ActRestartLine \<Rightarrow> (\<lparr>out_cmds = cmds @ [RestartLine], out_requests = []\<rparr>, f)
                   | ActStop \<Rightarrow> (\<lparr>out_cmds = cmds, out_requests = []\<rparr>, f\<lparr>should_exit := True\<rparr>)
                   | ActFirmwareUpgrade path \<Rightarrow> (\<lparr>out_cmds = cmds, out_requests = [(path, s)]\<rparr>, f)
                   | ActNone \<Rightarrow> (\<lparr>out_cmds = cmds, out_requests = []\<rparr>, f))))"

fun control_loop :: "(dsl_state \<times> tick) list \<Rightarrow> flags \<Rightarrow> loop_out \<times> flags" where
  "control_loop [] f = (\<lparr>out_cmds = [], out_requests = []\<rparr>, f)"
| "control_loop ((st, t) # ts) f =
     (let f = fold handle_signal (tk_signals t) f in
      if should_exit f then (\<lparr>out_cmds = [], out_requests = []\<rparr>, f)
      else let (out, f) = control_step st (tk_client t) f;
               (rest, f) = control_loop ts f
           in (\<lparr>out_cmds = out_cmds out @ out_cmds rest, out_requests = out_requests out @ out_requests rest\<rparr>, f))"

text \<open>After the loop: the last notification and the removal of the VLAN interface, whether or
  not the worker was done in time; the exit code is 0.\<close>

definition daemon_shutdown :: "rtnl \<Rightarrow> string option \<Rightarrow> string \<Rightarrow> u16 \<Rightarrow> spawned list \<times> (string + bool) \<times> int" where
  "daemon_shutdown R notify_script config_iface vlan =
     (spawn_if notify_script (\<lambda>script. emit_status script EvDown),
      delete_vlan_iface R (parent_iface config_iface) vlan, 0)"

section \<open>Command-line clients\<close>

fun contains :: "string \<Rightarrow> string \<Rightarrow> bool" where
  "contains p [] = (p = [])"
| "contains p (c # s) = (prefix p (c # s) \<or> contains p s)"

text \<open>\<open>ipc_exit\<close>: what is printed and the exit code.\<close>

definition ipc_exit :: "(io_error + stream) \<Rightarrow> ipc_cmd \<Rightarrow> string \<times> nat" where
  "ipc_exit connected cmd =
     (case send_command connected cmd of
        Inr response \<Rightarrow> (response, if contains ''ERR'' response then 1 else 0)
      | Inl e \<Rightarrow> ([], 1))"

text \<open>The \<open>firmware-upgrade\<close> command: the exit code and the lines shown.\<close>

definition firmware_command ::
  "(io_error + bytes) \<Rightarrow> (io_error + stream) \<Rightarrow> string \<Rightarrow> nat \<times> string list" where
  "firmware_command file connected path =
     (case file of
        Inl _ \<Rightarrow> (1, [])
      | Inr data \<Rightarrow>
          (case validate_image data of
             Inl _ \<Rightarrow> (1, [])
           | Inr _ \<Rightarrow>
               (case send_firmware connected path of
                  (Inl _, shown) \<Rightarrow> (1, shown)
                | (Inr result, shown) \<Rightarrow> (if starts_with result ''DONE'' then 0 else 1, shown))))"

section \<open>Properties\<close>

lemma build_params_ok:
  "load_config opened ov = Inr c \<or> c = DslConfig_default \<Longrightarrow> config_ok c"
  using load_config_ok DslConfig_default_ok by blast

definition start_config :: "(string + uci) \<Rightarrow> cli_overrides \<Rightarrow> dsl_config" where
  "start_config opened overrides =
     (case load_config opened overrides of Inr c \<Rightarrow> c | Inl _ \<Rightarrow> DslConfig_default)"

lemma start_config_ok: "config_ok (start_config opened ov)"
  by (auto simp: start_config_def DslConfig_default_ok load_config_ok split: sum.splits)

definition transfer_ok :: "dsl_config \<Rightarrow> bool" where
  "transfer_ok c \<longleftrightarrow> validate_xfer_mode (dc_modulation c) (hint_of (dc_xfer_mode c)) = Inr ()"

lemma daemon_start_eq:
  "daemon_start T E R opened iface_exists sock config_iface notify_script overrides =
     (let cfg = start_config opened overrides in
      if \<not> transfer_ok cfg \<or> \<not> iface_exists config_iface \<or> (\<exists>e. sock = Inl e) then Returns (Inl 1)
      else bind_outcome (up_with T E cfg (board_ready T (projr sock))) (\<lambda>(_, b).
           bind_outcome (add_link T E cfg (transport_vlan_id cfg) b) (\<lambda>(r, b).
             let vlan = (case r of Inr v \<Rightarrow> v | Inl _ \<Rightarrow> transport_vlan_id cfg)
             in Returns (Inr
                \<lparr>st_worker = BoardWorker_new b cfg overrides (published_state cfg) notify_script,
                 st_vlan = vlan, st_vlan_result = create_vlan_iface R (parent_iface config_iface) vlan,
                 st_spawned = spawn_if notify_script (\<lambda>script. emit_tc_layer script (dc_xfer_mode cfg))\<rparr>))))"
  using config_ok_validates [OF start_config_ok, of opened overrides]
  by (cases sock) (simp_all add: daemon_start_def start_config_def [symmetric] transfer_ok_def
      Let_def published_state_def)

text \<open>The daemon refuses to start, with exit code 1, exactly when the loaded or default
  configuration pairs a modulation with the wrong transfer mode, the management interface is
  missing or the board socket cannot be opened; the check of the profiles and the annex never
  fires, and a board that does not answer does not stop it.\<close>

lemma startup_refusals:
  "daemon_start T E R opened iface_exists sock config_iface notify_script overrides = Returns (Inl code) \<longleftrightarrow>
     code = 1 \<and> \<not> (transfer_ok (start_config opened overrides) \<and> iface_exists config_iface \<and> (\<exists>t. sock = Inr t))"
proof -
  have never: "bind_outcome m (\<lambda>(_, b). bind_outcome (f b) (\<lambda>(r, b). Returns (Inr (g r b)))) \<noteq> Returns (Inl c)"
    for m :: "(unit, 'a) board_result" and f :: "'a board \<Rightarrow> (u16, 'a) board_result"
      and g :: "board_error + u16 \<Rightarrow> 'a board \<Rightarrow> 'a started" and c :: int
    by (auto simp: bind_outcome_Returns split: prod.splits)
  show ?thesis
    unfolding daemon_start_eq Let_def using never by (cases sock) auto
qed

lemma transport_vlan_range: "config_ok c \<Longrightarrow> transport_vlan_id c \<in> {2000..2007}"
proof -
  assume "config_ok c"
  then have "unat (dc_transport_vlan_base c) \<le> 7"
    by (simp add: config_ok_def word_le_nat_alt)
  moreover have "unat (transport_vlan_id c) = unat (dc_transport_vlan_base c) + 2000"
    using \<open>unat (dc_transport_vlan_base c) \<le> 7\<close>
    by (simp add: transport_vlan_id_def unat_word_ariths unsigned_ucast_eq take_bit_nat_eq_self)
  ultimately show ?thesis by (simp add: word_le_nat_alt)
qed

lemma startup_worker:
  "daemon_start T E R opened iface_exists sock config_iface notify_script overrides = Returns (Inr s) \<Longrightarrow>
   worker_inv (st_worker s)"
  using start_config_ok [of opened overrides] unfolding daemon_start_eq Let_def
  by (auto simp: bind_outcome_Returns worker_inv_def BoardWorker_new_def published_def published_state_def
      DslState_default_def split: if_splits)

text \<open>C20. A daemon that has started hands a consistent worker to its thread: the invariant that
  every later step keeps holds, the transfer mode matches the modulation, and the VLAN is the
  one the board assigned or else 2000 to 2007.\<close>

theorem startup_establishes:
  assumes "daemon_start T E R opened iface_exists sock config_iface notify_script overrides = Returns (Inr s)"
  shows "worker_inv (st_worker s) \<and> transfer_ok (w_cfg (st_worker s)) \<and>
    (\<exists>b b' r. add_link T E (w_cfg (st_worker s)) (transport_vlan_id (w_cfg (st_worker s))) b = Returns (r, b') \<and>
       w_board (st_worker s) = b' \<and>
       (case r of Inr v \<Rightarrow> st_vlan s = v | Inl e \<Rightarrow> st_vlan s \<in> {2000..2007}))"
proof -
  let ?cfg = "start_config opened overrides"
  have ok: "transfer_ok ?cfg"
    using assms unfolding daemon_start_eq Let_def by (auto split: if_splits)
  obtain b r b' where link: "add_link T E ?cfg (transport_vlan_id ?cfg) b = Returns (r, b')"
    and s: "s = \<lparr>st_worker = BoardWorker_new b' ?cfg overrides (published_state ?cfg) notify_script,
       st_vlan = (case r of Inr v \<Rightarrow> v | Inl _ \<Rightarrow> transport_vlan_id ?cfg),
       st_vlan_result = create_vlan_iface R (parent_iface config_iface)
         (case r of Inr v \<Rightarrow> v | Inl _ \<Rightarrow> transport_vlan_id ?cfg),
       st_spawned = spawn_if notify_script (\<lambda>script. emit_tc_layer script (dc_xfer_mode ?cfg))\<rparr>"
    using assms unfolding daemon_start_eq Let_def
    by (auto simp: bind_outcome_Returns split: if_splits)
  have "worker_inv (st_worker s)"
    using startup_worker [OF assms] .
  moreover have "w_cfg (st_worker s) = ?cfg" "w_board (st_worker s) = b'"
    by (simp_all add: s BoardWorker_new_def)
  moreover have "case r of Inr v \<Rightarrow> st_vlan s = v | Inl e \<Rightarrow> st_vlan s \<in> {2000..2007}"
    using transport_vlan_range [OF start_config_ok] by (simp add: s split: sum.splits)
  ultimately show ?thesis using ok link by metis
qed

lemma silent_request_any:
  assumes "b_sock b = []" and "length (b_mac b) = 6" and "length pl \<le> 188"
  shows "request silent_transport null_engine b op pl = Returns (Inl Timeout, b\<lparr>b_seq := b_seq b + 1\<rparr>)"
proof -
  let ?q = "b_seq b + 1"
  obtain tx where tx: "tx_frame null_engine b op ?q pl = Some tx"
    using tx_frame_panics [OF assms(2), of null_engine op ?q pl] assms(3) by fastforce
  have silent: "drain silent_transport null_engine op ?q [] = Some (TimedOut, [])"
    by (rule drain_step) (simp add: stops_def script_transport_def silent_transport_def)
  have send: "tr_send silent_transport [] d = (Inr (), [])" for d
    by (simp add: silent_transport_def script_transport_def)
  have all: "attempts silent_transport null_engine op ?q tx n [] = Returns (Inl Timeout, [])" for n
    by (induction n) (simp_all add: send silent)
  have same: "b\<lparr>b_seq := ?q, b_sock := []\<rparr> = b\<lparr>b_seq := ?q\<rparr>"
    using assms(1) by (cases b) simp
  show ?thesis
    unfolding request_returns_iff
    using tx all assms(1) same by (simp del: attempts.simps)
qed

definition no_rtnl :: rtnl where
  "no_rtnl = \<lparr>rt_new = Inl \<lparr>oe_raw = None, oe_text = []\<rparr>, rt_add_vlan = (\<lambda>_ _. Inr []),
     rt_set_up = (\<lambda>_. Inr ()), rt_del = (\<lambda>_. Inr ())\<rparr>"

lemma silent_daemon_starts:
  "\<exists>s. daemon_start silent_transport null_engine R (Inl []) (\<lambda>_. True) (Inr []) iface None no_overrides
     = Returns (Inr s) \<and> st_vlan s = 2000"
proof -
  let ?cfg = "DslConfig_default"
  let ?b = "board_ready silent_transport []"
  have cfg: "start_config (Inl []) no_overrides = ?cfg"
    by (simp add: start_config_def load_config_def)
  have ok: "transfer_ok ?cfg"
    by (simp add: transfer_ok_def DslConfig_default_def hint_of_def validate_xfer_mode_def is_vdsl2_def is_adsl_def)
  have b: "b_sock ?b = []" "length (b_mac ?b) = 6"
    by (simp_all add: board_ready_def board_set_retries_def board_set_timeout_def Board_new_def
        silent_transport_def script_transport_def Let_def)
  obtain r where up: "up_with silent_transport null_engine ?cfg ?b = Returns (r, ?b\<lparr>b_seq := b_seq ?b + 1\<rparr>)"
  proof -
    have "length ([0x01] @ pack_dsl_line (dc_modulation ?cfg) (dc_annex ?cfg) (dc_bitswap ?cfg) (dc_sra ?cfg)
        (dc_profiles ?cfg)) \<le> 188"
      by (simp add: pack_dsl_line_def overwrite_def Let_def)
    from silent_request_any [OF b this, of 1] that show ?thesis
      by (simp add: up_with_def line_config_up_def then_reply_def Let_def)
  qed
  let ?b1 = "?b\<lparr>b_seq := b_seq ?b + 1\<rparr>"
  have "b_sock ?b1 = []" "length (b_mac ?b1) = 6" using b by simp_all
  moreover have "length ([0x0F] @ pack_ptm_link 0 0 0 (transport_vlan_id ?cfg)) \<le> 188"
    by (simp add: pack_ptm_link_def overwrite_def Let_def)
  ultimately have "request silent_transport null_engine ?b1 15 ([0x0F] @ pack_ptm_link 0 0 0 (transport_vlan_id ?cfg))
      = Returns (Inl Timeout, ?b1\<lparr>b_seq := b_seq ?b1 + 1\<rparr>)"
    by (rule silent_request_any)
  then have "\<exists>b'. add_link silent_transport null_engine ?cfg (transport_vlan_id ?cfg) ?b1 = Returns (Inl Timeout, b')"
    by (simp add: add_link_def DslConfig_default_def ptm_link_add_def then_reply_def Let_def)
  moreover have "transport_vlan_id ?cfg = 2000"
    by (simp add: transport_vlan_id_def DslConfig_default_def)
  ultimately show ?thesis
    using up ok by (auto simp: daemon_start_eq cfg Let_def)
qed

lemma startup_establishes_witness:
  "\<exists>s. daemon_start silent_transport null_engine no_rtnl (Inl []) (\<lambda>_. True) (Inr []) ''lan0'' None no_overrides
     = Returns (Inr s) \<and> worker_inv (st_worker s) \<and> transfer_ok (w_cfg (st_worker s))"
  using silent_daemon_starts startup_establishes by metis

lemma clean_words:
  "clean (modulation_debug m)" "clean (annex_debug a)" "clean (xfer_debug x)" "clean []"
proof -
  show "clean (modulation_debug m)" by (cases m) (auto intro!: solid_str simp: solid_def)
  show "clean (annex_debug a)" by (cases a) (auto intro!: solid_str simp: solid_def)
  show "clean (xfer_debug x)" by (cases x) (auto intro!: solid_str simp: solid_def)
qed (simp add: solid_str)

lemma clean_states: "clean (fst (map_link_status s))" "clean (annex_string code)"
  by (cases s; simp add: map_link_status_def clean_def line_ok_def nl_def cr_def trim_solid solid_def)
     (simp add: annex_string_def clean_def line_ok_def nl_def cr_def trim_solid solid_def)



definition client_action :: "dsl_state \<Rightarrow> accepted_client option \<Rightarrow> ipc_action option" where
  "client_action st client =
     (case client of None \<Rightarrow> None
      | Some c \<Rightarrow> (case accept_one c (build_snapshot st) of Inr (Some (a, _)) \<Rightarrow> Some a | _ \<Rightarrow> None))"

definition idle_flags :: flags where
  "idle_flags = \<lparr>should_exit = False, should_reload = False, should_restart_line = False\<rparr>"

lemma fold_signals:
  "fold handle_signal ss f =
     f\<lparr>should_exit := should_exit f \<or> SigTerm \<in> set ss, should_reload := should_reload f \<or> SigHup \<in> set ss\<rparr>"
proof (induction ss arbitrary: f)
  case (Cons s ss)
  then show ?case by (cases s) simp_all
qed simp

lemma control_step_cmds:
  assumes "should_restart_line f = False" and "client_action st c \<noteq> Some ActStop" and "should_exit f = False"
  shows "out_cmds (fst (control_step st c f)) =
      (if should_reload f then [Reload] else []) @
      (if client_action st c = Some ActReload then [Reload] else []) @
      (if client_action st c = Some ActRestartLine then [RestartLine] else [])"
    and "snd (control_step st c f) = idle_flags"
  using assms
  by (auto simp: control_step_def client_action_def Let_def idle_flags_def
      split: option.splits sum.splits prod.splits ipc_action.splits)

text \<open>C23. The control loop forwards every request once: while it runs, the worker gets exactly
  one reload for each iteration before which a hangup signal arrived, however many, and one for
  each client that asked for it, and one line restart for each client that asked for that; a
  termination signal ends the loop before anything of its iteration is forwarded.\<close>

theorem control_loop_forwards:
  assumes "\<forall>(st, t) \<in> set ticks. SigTerm \<notin> set (tk_signals t) \<and> client_action st (tk_client t) \<noteq> Some ActStop"
  shows "snd (control_loop (ticks @ rest) idle_flags) = snd (control_loop rest idle_flags) \<and>
    (\<exists>cmds. out_cmds (fst (control_loop (ticks @ rest) idle_flags)) = cmds @ out_cmds (fst (control_loop rest idle_flags)) \<and>
       count (mset cmds) Reload =
         length (filter (\<lambda>(st, t). SigHup \<in> set (tk_signals t)) ticks) +
         length (filter (\<lambda>(st, t). client_action st (tk_client t) = Some ActReload) ticks) \<and>
       count (mset cmds) RestartLine =
         length (filter (\<lambda>(st, t). client_action st (tk_client t) = Some ActRestartLine) ticks) \<and>
       set cmds \<subseteq> {Reload, RestartLine})"
  using assms
proof (induction ticks)
  case Nil
  show ?case by (intro conjI exI [of _ "[]"]) simp_all
next
  case (Cons p ticks)
  obtain st t where p: "p = (st, t)" by fastforce
  let ?f = "fold handle_signal (tk_signals t) idle_flags"
  have f: "should_exit ?f = False" "should_restart_line ?f = False" "should_reload ?f \<longleftrightarrow> SigHup \<in> set (tk_signals t)"
    using Cons.prems by (simp_all add: fold_signals idle_flags_def p)
  have act: "client_action st (tk_client t) \<noteq> Some ActStop"
    using Cons.prems by (simp add: p)
  obtain out where step: "control_step st (tk_client t) ?f = (out, idle_flags)"
    and out: "out_cmds out = (if should_reload ?f then [Reload] else []) @
      (if client_action st (tk_client t) = Some ActReload then [Reload] else []) @
      (if client_action st (tk_client t) = Some ActRestartLine then [RestartLine] else [])"
    using control_step_cmds [OF f(2) act f(1)] by (cases "control_step st (tk_client t) ?f") simp
  obtain o' f' where rec: "control_loop (ticks @ rest) idle_flags = (o', f')" by fastforce
  have unfold: "control_loop ((p # ticks) @ rest) idle_flags =
      (\<lparr>out_cmds = out_cmds out @ out_cmds o', out_requests = out_requests out @ out_requests o'\<rparr>, f')"
    using f(1) step rec by (simp add: p Let_def)
  obtain cmds where "out_cmds o' = cmds @ out_cmds (fst (control_loop rest idle_flags))"
    and "count (mset cmds) Reload =
         length (filter (\<lambda>(st, t). SigHup \<in> set (tk_signals t)) ticks) +
         length (filter (\<lambda>(st, t). client_action st (tk_client t) = Some ActReload) ticks)"
    and "count (mset cmds) RestartLine =
         length (filter (\<lambda>(st, t). client_action st (tk_client t) = Some ActRestartLine) ticks)"
    and "set cmds \<subseteq> {Reload, RestartLine}" and "f' = snd (control_loop rest idle_flags)"
    using Cons.IH Cons.prems rec by auto
  then show ?case
    unfolding unfold using f(3) out
    by (intro conjI exI [of _ "out_cmds out @ cmds"]) (auto simp: p)
qed

lemma control_loop_forwards_witness:
  "\<exists>cmds. out_cmds (fst (control_loop
       ([(DslState_default, \<lparr>tk_signals = [SigHup, SigHup], tk_client = None\<rparr>),
         (DslState_default, \<lparr>tk_signals = [], tk_client = Some (Client None (peer_sends (as_wire CmdReload @ [nl])))\<rparr>)] @ [])
       idle_flags)) = cmds \<and> count (mset cmds) Reload = 2"
proof -
  have "client_action DslState_default (Some (Client None (peer_sends (as_wire CmdReload @ [nl])))) = Some ActReload"
    using handle_client_line [OF wire_line, of CmdReload "build_snapshot DslState_default"]
    by (simp add: client_action_def accept_one_def)
  then show ?thesis
    using control_loop_forwards [of
       "[(DslState_default, \<lparr>tk_signals = [SigHup, SigHup], tk_client = None\<rparr>),
         (DslState_default, \<lparr>tk_signals = [], tk_client = Some (Client None (peer_sends (as_wire CmdReload @ [nl])))\<rparr>)]" "[]"]
    by (simp add: client_action_def [of _ None])
qed

text \<open>A firmware request reaches the worker exactly when the shared status is idle, done or
  failed, the file can be read and is a valid image and the worker is alive.  The check does
  not claim the status, so of two requests that read it before the worker has started, both
  are queued.\<close>

lemma upgrade_gate:
  "fst (request_upgrade show_io st file path worker_alive stream) =
     (case file of
        Inl e \<Rightarrow> None
      | Inr img \<Rightarrow>
          if upgrade_idle (ds_fw_status st) \<and> (\<exists>hdr. validate_image img = Inr hdr) \<and> worker_alive
          then Some (FirmwareUpgrade img) else None)"
  by (auto simp: request_upgrade_def Let_def split: sum.splits)

definition image_line :: "bytes \<Rightarrow> fw_header \<Rightarrow> string" where
  "image_line img hdr = ''IMAGE version='' @ version_str hdr @ '' size='' @ show_nat (length img)"

definition final_text :: "string + fw_upgrade_result \<Rightarrow> string" where
  "final_text r = (case r of Inr res \<Rightarrow> done_text res | Inl msg \<Rightarrow> ''ERR: '' @ msg)"

lemma put_ok: "sm_write_fault s = None \<Longrightarrow>
    put text s = s\<lparr>sm_written := sm_written s @ bytes_of_str text\<rparr>"
  by (simp add: put_def write_all_def)

lemma stream_events_written:
  assumes "sm_write_fault s = None"
  shows "sm_written (stream_events (map FwEvProgress ps @ [FwEvDone r]) s) =
    sm_written s @ bytes_of_str (joined_lines (map progress_text ps) @ final_text r @ [nl] @ ''.'' @ [nl])"
  using assms
proof (induction ps arbitrary: s)
  case Nil
  then show ?case
    by (cases r) (simp_all add: put_ok joined_lines_def final_text_def err_reply_def bytes_of_str_def)
next
  case (Cons p ps)
  then show ?case
    by (simp add: write_all_def joined_lines_def bytes_of_str_def)
qed

lemma solid_plain: "solid c \<Longrightarrow> plain c"
  by (auto simp: solid_def plain_def nl_def)

lemma plain_space: "plain (CHR '' '')"
  by (simp add: plain_def nl_def)

lemma show_nat_plain: "c \<in> set (show_nat n) \<Longrightarrow> plain c"
  by (simp add: solid_plain show_nat_solid)

lemma solid_last_app: "t \<noteq> [] \<Longrightarrow> solid (last t) \<Longrightarrow> solid (last (s @ t))"
  by simp

lemma show_nat_ends: "solid (last (show_nat n))" "show_nat n \<noteq> []"
  using show_nat_solid(1) [of "last (show_nat n)" n] by (simp_all add: show_nat_solid)

lemma image_line_progress:
  assumes "\<forall>c \<in> set (version_str hdr). plain c"
  shows "progress_line (image_line img hdr)"
  using assms
  by (auto simp: progress_line_def text_line_def final_line_def image_line_def starts_with_def
      plain_space show_nat_plain show_nat_ends last_append solid_plain)
     (auto simp: solid_def plain_def nl_def)

lemma progress_text_progress: "progress_line (progress_text p)"
  by (auto simp: progress_line_def text_line_def final_line_def progress_text_def starts_with_def
      plain_space show_nat_plain show_nat_ends last_append solid_plain)
     (auto simp: solid_def plain_def nl_def)

lemma read_line_written:
  "read_line (s\<lparr>sm_written := w\<rparr>) = (fst (read_line s), (snd (read_line s))\<lparr>sm_written := w\<rparr>)"
  by (cases "split_line (sm_input s)"; cases "sm_read_fault s") (auto simp: read_line_def)

lemma reply_loop_written: "reply_loop (s\<lparr>sm_written := w\<rparr>) shown = reply_loop s shown"
proof (induction s shown rule: reply_loop.induct)
  case (1 s shown)
  show ?case
  proof (cases "read_line s")
    case (Pair r s')
    then have rd: "read_line s = (r, s')" "read_line (s\<lparr>sm_written := w\<rparr>) = (r, s'\<lparr>sm_written := w\<rparr>)"
      by (simp_all add: read_line_written)
    show ?thesis
    proof (cases r)
      case (Inl e)
      then show ?thesis using rd by (simp add: reply_loop.simps [of s] reply_loop.simps [of "s\<lparr>sm_written := w\<rparr>"])
    next
      case (Inr l)
      have IH: "\<lbrakk>l \<noteq> []; trim l \<noteq> ''.''; \<not> (starts_with (trim l) ''ERR:'' \<or> starts_with (trim l) ''DONE'');
          starts_with (trim l) ''OK''\<rbrakk> \<Longrightarrow> reply_loop (s'\<lparr>sm_written := w\<rparr>) shown = reply_loop s' shown"
        "\<lbrakk>l \<noteq> []; trim l \<noteq> ''.''; \<not> (starts_with (trim l) ''ERR:'' \<or> starts_with (trim l) ''DONE'');
          \<not> starts_with (trim l) ''OK''\<rbrakk> \<Longrightarrow>
          reply_loop (s'\<lparr>sm_written := w\<rparr>) (shown @ [trim l]) = reply_loop s' (shown @ [trim l])"
        using "1.IH"(1) [OF rd(1) [symmetric] Inr _ refl] "1.IH"(2) [OF rd(1) [symmetric] Inr _ refl] by simp_all
      show ?thesis
        using IH unfolding reply_loop.simps [of s] reply_loop.simps [of "s\<lparr>sm_written := w\<rparr>"] rd Inr
        by (simp add: Let_def)
    qed
  qed
qed

lemma hex_digit_solid: "d < 16 \<Longrightarrow> solid (digit_char d)"
  by (simp add: digit_char_def solid_def)

lemma show_hex_solid: "show_radix 16 n \<noteq> [] \<and> (\<forall>c \<in> set (show_radix 16 n). solid c)"
proof (induction n rule: less_induct)
  case (less n)
  then show ?case
    using less.IH [of "n div 16"]
    by (cases "n < 16") (auto simp: show_radix.simps [of 16 n] hex_digit_solid)
qed

lemma show_hex8_plain: "c \<in> set (show_hex8 w) \<Longrightarrow> plain c"
  using show_hex_solid by (auto simp: show_hex8_def Let_def solid_plain) (simp_all add: plain_def nl_def)

lemma done_text_line: "text_line (done_text r)" "final_line (done_text r)"
  by (auto simp: text_line_def final_line_def done_text_def starts_with_def plain_space show_nat_plain
      show_hex8_plain show_nat_ends last_append solid_plain)
     (auto simp: solid_def plain_def nl_def)



definition forged_header :: fw_header where
  "forged_header = sample_header\<lparr>fh_version := bytes_of_str (''1'' @ [nl] @ ''DONE'') @ replicate 25 0\<rparr>"

definition forged_image :: bytes where
  "forged_image = header_bytes forged_header (replicate 33 0) (replicate 36 0) (replicate 128 0)
     @ replicate 0x1FFF00 0"

lemma forged_image_accepted: "validate_image forged_image = Inr forged_header"
proof -
  have "parse_header forged_image = Inr forged_header"
    by (simp add: forged_image_def forged_header_def sample_header_def parse_header_built bytes_of_str_def)
  moreover have "length forged_image = 0x200000"
    by (simp add: forged_image_def header_bytes_def MAGIC_2RDH_def forged_header_def sample_header_def
        bytes_of_str_def)
  ultimately show ?thesis
    by (simp add: validate_image_def image_size_defs) (simp add: forged_header_def sample_header_def)
qed

lemma forged_version: "version_str forged_header = ''1'' @ [nl] @ ''DONE''"
  by code_simp

lemma stream_events_extends:
  "\<exists>more. sm_written (stream_events evs s) = sm_written s @ more"
proof (induction evs s rule: stream_events.induct)
  case (2 p evs s)
  then show ?case by (auto simp: write_all_def split: option.splits)
qed (auto simp: put_def write_all_def split: option.splits)

lemma str_of_bytes_append: "str_of_bytes (a @ b) = str_of_bytes a @ str_of_bytes b"
  by (simp add: str_of_bytes_def)

text \<open>C25. The version text of an image is copied into the reply unchecked: there is an image that
  passes validation and whose version contains a line break and the word \<open>DONE\<close>, and for it the
  firmware command reports success whatever the upload does afterwards.\<close>

theorem forged_success:
  "validate_image forged_image = Inr forged_header \<and>
   firmware_command (Inr forged_image) (Inr (peer_sends (str_of_bytes (sm_written (stream_events evs
     (snd (request_upgrade show_io DslState_default (Inr forged_image) path True (peer_sends [])))))))) path
   = (0, [''IMAGE version=1''])"
proof -
  let ?s = "snd (request_upgrade show_io DslState_default (Inr forged_image) path True (peer_sends []))"
  let ?size = "'' size='' @ show_nat (length forged_image)"
  have hdr: "parse_header forged_image = Inr forged_header"
    using forged_image_accepted by (auto simp: validate_image_def split: sum.splits if_splits)
  have idle: "upgrade_idle (ds_fw_status DslState_default)"
    by (simp add: upgrade_idle_def DslState_default_def)
  have "?s = put (''IMAGE version='' @ version_str forged_header @ '' size='' @ show_nat (length forged_image) @ [nl])
      (put (''OK'' @ [nl]) (peer_sends []))"
    using idle forged_image_accepted hdr by (simp add: request_upgrade_def Let_def)
  then have s: "sm_written ?s = bytes_of_str (''OK'' @ [nl] @ joined_lines [''IMAGE version=1''] @ (''DONE'' @ ?size) @ [nl])"
    by (simp add: put_ok peer_sends_def forged_version joined_lines_def) (simp add: bytes_of_str_def)
  obtain more where "sm_written (stream_events evs ?s) = sm_written ?s @ more"
    using stream_events_extends by blast
  then have all: "str_of_bytes (sm_written (stream_events evs ?s)) =
      ''OK'' @ [nl] @ joined_lines [''IMAGE version=1''] @ (''DONE'' @ ?size) @ [nl] @ str_of_bytes more"
    unfolding s by (simp only: str_of_bytes_append str_of_bytes_of_str append_assoc)
  have "progress_line ''IMAGE version=1''"
    by (simp add: progress_line_def text_line_def final_line_def starts_with_def plain_def solid_def nl_def)
  moreover have "text_line (''DONE'' @ ?size)" and "final_line (''DONE'' @ ?size)"
    by (auto simp: text_line_def final_line_def starts_with_def plain_space show_nat_plain show_nat_ends last_append
        solid_plain) (auto simp: solid_def plain_def nl_def)
  ultimately have loop: "reply_loop (peer_sends (str_of_bytes (sm_written (stream_events evs ?s)))) [] =
      (Inr (''DONE'' @ ?size), [''IMAGE version=1''])"
    unfolding all by (intro reply_stream_read) simp_all
  have "write_all t (peer_sends u) = (Inr (), (peer_sends u)\<lparr>sm_written := bytes_of_str t\<rparr>)" for t u
    by (simp add: write_all_def peer_sends_def)
  then have "send_firmware (Inr (peer_sends (str_of_bytes (sm_written (stream_events evs ?s))))) path =
      (Inr (''DONE'' @ ?size), [''IMAGE version=1''])"
    by (simp only: send_firmware_def sum.case prod.case reply_loop_written loop)
  then show ?thesis
    using forged_image_accepted by (simp add: firmware_command_def starts_with_def)
qed

text \<open>The VLAN interface removed at shutdown is the one created at startup: the parent of the
  management interface, when that is a VLAN interface, is recovered from its name, so it sits
  next to the management VLAN.\<close>

lemma parent_of_vlan:
  "parent_iface (vlan_name parent vid) = parent"
proof -
  have nodot: "CHR ''.'' \<notin> set (show_nat n)" for n
  proof -
    have "c \<noteq> CHR ''.''" if "c \<in> set (show_radix 10 n)" for c n
      using that
    proof (induction n rule: less_induct)
      case (less n)
      have digit: "digit_char d \<noteq> CHR ''.''" if "d < 10" for d
      proof -
        have "(of_char (digit_char d) :: nat) = 48 + d" using that by (simp add: digit_char_def)
        then show ?thesis by auto
      qed
      show ?case
        using less.prems less.IH [of "n div 10"] digit [of n] digit [of "n mod 10"]
        by (cases "n < 10") (auto simp: show_radix.simps [of 10 n])
    qed
    then show ?thesis by (auto simp: show_nat_def)
  qed
  have "dropWhile (\<lambda>c. c \<noteq> CHR ''.'') (rev (show_nat (unat vid)) @ CHR ''.'' # rev parent) = CHR ''.'' # rev parent"
    using nodot [of "unat vid"] by (subst dropWhile_append2) (auto split: if_splits)
  then show ?thesis
    by (simp add: parent_iface_def vlan_name_def)
qed

end
