(* ===== verification/FwExtract.thy ===== *)
theory FwExtract
  imports Wire RustStr
begin

text \<open>
  The container tool \<open>fwextract/src/main.rs\<close>: the tag header, the chunk walk that finds the
  length of the metadata and the signature, the recovery of the AES key from the PSS salt, the
  CBC decryption, the command line and the extraction itself.  The block cipher, the hash and
  the big integers of third-party crates are parameters; the file system is a pair of
  functions (what reading a path yields, whether writing to a target succeeds); the printed
  report is not modelled apart from the version text, whose slice can panic.
\<close>

section \<open>Tag header\<close>

definition TAG_HEADER_LEN :: nat where "TAG_HEADER_LEN = 0x200"
definition TAG_OFF_VERSION :: nat where "TAG_OFF_VERSION = 0x00"
definition TAG_OFF_PRODUCT_ID :: nat where "TAG_OFF_PRODUCT_ID = 0x34"
definition TAG_OFF_PRODUCT_VER :: nat where "TAG_OFF_PRODUCT_VER = 0x38"
definition TAG_OFF_HW_VER :: nat where "TAG_OFF_HW_VER = 0x3C"
definition TAG_OFF_MD5 :: nat where "TAG_OFF_MD5 = 0x40"
definition TAG_OFF_TOTAL_IMAGE_LEN :: nat where "TAG_OFF_TOTAL_IMAGE_LEN = 0x70"
definition TAG_OFF_SW_REV :: nat where "TAG_OFF_SW_REV = 0x8C"
definition TAG_OFF_SPECIAL_VER :: nat where "TAG_OFF_SPECIAL_VER = 0x94"

lemmas tag_offsets = TAG_OFF_VERSION_def TAG_OFF_PRODUCT_ID_def TAG_OFF_PRODUCT_VER_def
  TAG_OFF_HW_VER_def TAG_OFF_MD5_def TAG_OFF_TOTAL_IMAGE_LEN_def TAG_OFF_SW_REV_def
  TAG_OFF_SPECIAL_VER_def TAG_HEADER_LEN_def

datatype fwx_error =
    FileTooSmall nat
  | BlobTooShort
  | NotPublicKeyBlob byte
  | MagicNotRsa1
  | BlobTruncated
  | SignatureLength nat
  | NoTrailer
  | NoSeparator
  | SaltTooShort nat

definition read_u32_le :: "bytes \<Rightarrow> nat \<Rightarrow> u32" where
  "read_u32_le buf offset = from_le32 (subslice offset 4 buf)"

record tag_header =
  th_image_version :: u32
  th_product_id :: u32
  th_product_ver :: u32
  th_hw_ver :: u32
  th_md5 :: bytes
  th_total_image_len :: u32
  th_sw_revision :: u32
  th_special_ver :: u32

definition tag_parse :: "bytes \<Rightarrow> fwx_error + tag_header" where
  "tag_parse buf =
     (if length buf < TAG_HEADER_LEN then Inl (FileTooSmall (length buf))
      else Inr \<lparr>th_image_version = read_u32_le buf TAG_OFF_VERSION,
                th_product_id = read_u32_le buf TAG_OFF_PRODUCT_ID,
                th_product_ver = read_u32_le buf TAG_OFF_PRODUCT_VER,
                th_hw_ver = read_u32_le buf TAG_OFF_HW_VER,
                th_md5 = subslice TAG_OFF_MD5 16 buf,
                th_total_image_len = read_u32_le buf TAG_OFF_TOTAL_IMAGE_LEN,
                th_sw_revision = read_u32_le buf TAG_OFF_SW_REV,
                th_special_ver = read_u32_le buf TAG_OFF_SPECIAL_VER\<rparr>)"

definition signing_scheme :: "tag_header \<Rightarrow> string" where
  "signing_scheme t =
     (if th_image_version t \<ge> 0x03000004 then ''RSA2048 PSS (+ AES decrypt)''
      else ''RSA1024 PKCS#1 v1.5 (no encryption)'')"

section \<open>Chunk metadata\<close>

text \<open>The \<open>while\<close> loop of \<open>parse_chunks\<close>, with its three variables.\<close>

function chunk_loop :: "bytes \<Rightarrow> nat \<Rightarrow> nat \<Rightarrow> bytes \<Rightarrow> nat \<times> bytes" where
  "chunk_loop data offset sum_len signature =
     (if offset + 8 \<le> length data then
        let chunk_type = read_u32_le data offset;
            chunk_len = unat (read_u32_le data (offset + 4))
        in if chunk_len < 8 \<or> length data < offset + chunk_len then (sum_len, signature)
           else if chunk_type = 0 then (sum_len + chunk_len, signature)
           else
             let sig_start = offset + 8;
                 sig_end = min (sig_start + chunk_len - 8) (sig_start + 256);
                 signature' = (if chunk_type = 1 \<and> signature = []
                               then subslice sig_start (sig_end - sig_start) data else signature)
             in chunk_loop data (offset + chunk_len) (sum_len + chunk_len) signature'
      else (sum_len, signature))"
  by pat_completeness auto
termination
  by (relation "measure (\<lambda>(data, offset, sum_len, signature). length data - offset)") auto

declare chunk_loop.simps [simp del]

definition parse_chunks :: "bytes \<Rightarrow> nat \<times> bytes" where
  "parse_chunks data =
     (let (sum_len, signature) = chunk_loop data TAG_HEADER_LEN 0 [] in (TAG_HEADER_LEN + sum_len, signature))"

section \<open>Key recovery\<close>

text \<open>The operations of the big-integer crate that are used.\<close>

record 'n bigint =
  big_from_be :: "bytes \<Rightarrow> 'n"
  big_modpow :: "'n \<Rightarrow> 'n \<Rightarrow> 'n \<Rightarrow> 'n"
  big_to_be :: "'n \<Rightarrow> bytes"

record 'n rsa_public_key =
  rsa_n :: 'n
  rsa_e :: 'n

definition parse_rsa_pubkey_blob :: "'n bigint \<Rightarrow> bytes \<Rightarrow> fwx_error + 'n rsa_public_key" where
  "parse_rsa_pubkey_blob B blob =
     (if length blob < 20 then Inl BlobTooShort
      else if blob ! 0 \<noteq> 0x06 then Inl (NotPublicKeyBlob (blob ! 0))
      else if subslice 8 4 blob \<noteq> bytes_of_str ''RSA1'' then Inl MagicNotRsa1
      else
        let bitlen = unat (from_le32 (subslice 12 4 blob));
            pubexp = from_le32 (subslice 16 4 blob);
            modulus_len = bitlen div 8
        in if length blob < 20 + modulus_len then Inl BlobTruncated
           else Inr \<lparr>rsa_n = big_from_be B (rev (subslice 20 modulus_len blob)),
                     rsa_e = big_from_be B (to_be32 pubexp)\<rparr>)"

text \<open>A SHA-256 digest is an array of 32 bytes: \<open>sha m i\<close> is byte \<open>i\<close> of the digest of \<open>m\<close>.\<close>

type_synonym hash = "bytes \<Rightarrow> nat \<Rightarrow> byte"

definition digest :: "hash \<Rightarrow> bytes \<Rightarrow> bytes" where
  "digest sha msg = map (sha msg) [0..<32]"

lemma length_digest [simp]: "length (digest sha msg) = 32"
  by (simp add: digest_def)

function mgf1_loop :: "hash \<Rightarrow> bytes \<Rightarrow> nat \<Rightarrow> u32 \<Rightarrow> bytes \<Rightarrow> bytes" where
  "mgf1_loop sha seed n counter result =
     (if length result < n
      then mgf1_loop sha seed n (counter + 1) (result @ digest sha (seed @ to_be32 counter))
      else result)"
  by pat_completeness auto
termination
  by (relation "measure (\<lambda>(sha, seed, n, counter, result). n - length result)") auto

declare mgf1_loop.simps [simp del]

definition mgf1 :: "hash \<Rightarrow> bytes \<Rightarrow> nat \<Rightarrow> bytes" where
  "mgf1 sha seed n = take n (mgf1_loop sha seed n 0 [])"

definition xor_bytes :: "bytes \<Rightarrow> bytes \<Rightarrow> bytes" where
  "xor_bytes xs ys = map (\<lambda>(a, b). xor a b) (zip xs ys)"

text \<open>The result is an error or the key and the IV; a recovered number of more than 256 bytes
  makes \<open>256 - em.len()\<close> wrap, and the allocation that follows panics.\<close>

definition extract_aes_key ::
  "'n bigint \<Rightarrow> hash \<Rightarrow> bytes \<Rightarrow> 'n rsa_public_key \<Rightarrow> (fwx_error + bytes \<times> bytes) outcome" where
  "extract_aes_key B sha signature key =
     (if length signature \<noteq> 256 then Returns (Inl (SignatureLength (length signature)))
      else
        let sig_int = big_from_be B (rev signature);
            recovered = big_to_be B (big_modpow B sig_int (rsa_e key) (rsa_n key))
        in if 256 < length recovered then Panics
           else
             let em = replicate (256 - length recovered) 0 @ recovered
             in if em ! 255 \<noteq> 0xBC then Returns (Inl NoTrailer)
                else
                  let h = subslice 223 32 em;
                      masked_db = take 223 em;
                      unmasked = xor_bytes masked_db (mgf1 sha h (length masked_db));
                      db = unmasked[0 := and (unmasked ! 0) 0x7F];
                      tail = dropWhile (\<lambda>b. b = 0) db
                  in if tail = [] \<or> hd tail \<noteq> 0x01 then Returns (Inl NoSeparator)
                     else
                       let salt = tl tail
                       in if length salt < 32 then Returns (Inl (SaltTooShort (length salt)))
                          else Returns (Inr (take 16 salt, subslice 16 16 salt)))"

section \<open>Decryption\<close>

text \<open>\<open>cipher key block\<close> is \<open>Aes128::decrypt_block\<close>; the bytes after the last whole block are
  left alone by \<open>chunks_exact_mut\<close>.\<close>

type_synonym block_cipher = "bytes \<Rightarrow> bytes \<Rightarrow> bytes"

function aes_cbc_decrypt :: "block_cipher \<Rightarrow> bytes \<Rightarrow> bytes \<Rightarrow> bytes \<Rightarrow> bytes" where
  "aes_cbc_decrypt cipher key prev data =
     (if length data < 16 then data
      else xor_bytes (cipher key (take 16 data)) prev @
           aes_cbc_decrypt cipher key (take 16 data) (drop 16 data))"
  by pat_completeness auto
termination
  by (relation "measure (\<lambda>(cipher, key, prev, data). length data)") auto

declare aes_cbc_decrypt.simps [simp del]

section \<open>Command line\<close>

record fwx_scan =
  sc_fw_path :: "string option"
  sc_output :: "string option"
  sc_all :: bool
  sc_decrypt :: bool
  sc_rsa_key :: "string option"
  sc_split :: "string option"

record fwx_args =
  fa_fw_path :: string
  fa_output :: "string option"
  fa_extract_all :: bool
  fa_decrypt :: bool
  fa_rsa_key :: "string option"
  fa_split_dir :: "string option"

text \<open>\<open>feature\<close> is whether the binary was built with \<open>--features decrypt\<close>.  The left injection
  is the exit code of an early return.\<close>

fun scan_args :: "bool \<Rightarrow> fwx_scan \<Rightarrow> string list \<Rightarrow> nat + fwx_scan" where
  "scan_args feature s [] = Inr s"
| "scan_args feature s (a # rest) =
     (if a = ''-h'' \<or> a = ''--help'' then Inl 0
      else if a = ''-o'' \<or> a = ''--output'' then
        (case rest of [] \<Rightarrow> Inl 2 | p # rest' \<Rightarrow> scan_args feature (s\<lparr>sc_output := Some p\<rparr>) rest')
      else if a = ''-a'' \<or> a = ''--all'' then scan_args feature (s\<lparr>sc_all := True\<rparr>) rest
      else if a = ''-d'' \<or> a = ''--decrypt'' then
        (if feature then scan_args feature (s\<lparr>sc_decrypt := True\<rparr>) rest else Inl 2)
      else if a = ''-k'' \<or> a = ''--rsa-key'' then
        (case rest of [] \<Rightarrow> Inl 2 | p # rest' \<Rightarrow> scan_args feature (s\<lparr>sc_rsa_key := Some p\<rparr>) rest')
      else if a = ''-s'' \<or> a = ''--split'' then
        (case rest of [] \<Rightarrow> Inl 2 | p # rest' \<Rightarrow> scan_args feature (s\<lparr>sc_split := Some p\<rparr>) rest')
      else if starts_with a ''-'' then Inl 2
      else if sc_fw_path s \<noteq> None then Inl 2
      else scan_args feature (s\<lparr>sc_fw_path := Some a\<rparr>) rest)"

definition parse_args :: "bool \<Rightarrow> string list \<Rightarrow> nat + fwx_args" where
  "parse_args feature argv =
     (case scan_args feature \<lparr>sc_fw_path = None, sc_output = None, sc_all = False, sc_decrypt = False,
                              sc_rsa_key = None, sc_split = None\<rparr> (drop 1 argv) of
        Inl code \<Rightarrow> Inl code
      | Inr s \<Rightarrow>
          (case sc_fw_path s of
             None \<Rightarrow> Inl 2
           | Some p \<Rightarrow>
               if sc_decrypt s \<and> sc_rsa_key s = None then Inl 2
               else Inr \<lparr>fa_fw_path = p, fa_output = sc_output s, fa_extract_all = sc_all s,
                         fa_decrypt = sc_decrypt s, fa_rsa_key = sc_rsa_key s,
                         fa_split_dir = sc_split s\<rparr>))"

section \<open>The extraction\<close>

datatype out_target =
    AtPath string
  | InDir string string
  | BesideInput string string

record extraction =
  ex_code :: nat
  ex_version :: "bytes option"
  ex_writes :: "(out_target \<times> bytes) list"

text \<open>What the tool may do with files: \<open>fs_read\<close> yields the contents of a path if it can be
  read, \<open>fs_write\<close> whether a file can be written.\<close>

record file_system =
  fs_read :: "string \<Rightarrow> bytes option"
  fs_write :: "out_target \<Rightarrow> bytes \<Rightarrow> bool"

definition MIN_REMOTE_SIZE :: u32 where "MIN_REMOTE_SIZE = 0x200000"
definition MAX_REMOTE_SIZE :: u32 where "MAX_REMOTE_SIZE = 0x800000"

definition decrypt_step ::
  "'n bigint \<Rightarrow> hash \<Rightarrow> block_cipher \<Rightarrow> file_system \<Rightarrow> fwx_args \<Rightarrow> nat \<Rightarrow> bytes \<Rightarrow> bytes \<Rightarrow>
   (nat + bytes) outcome" where
  "decrypt_step B sha cipher fs args tag_len signature data =
     (if \<not> fa_decrypt args then Returns (Inr data)
      else
        (case fa_rsa_key args of
           None \<Rightarrow> Panics
         | Some rsa_key_path \<Rightarrow>
             (case fs_read fs rsa_key_path of
                None \<Rightarrow> Returns (Inl 1)
              | Some key_blob \<Rightarrow>
                  (case parse_rsa_pubkey_blob B key_blob of
                     Inl e \<Rightarrow> Returns (Inl 1)
                   | Inr rsa_key \<Rightarrow>
                       if signature = [] then Returns (Inl 1)
                       else bind_outcome (extract_aes_key B sha signature rsa_key) (\<lambda>r.
                         (case r of
                            Inl e \<Rightarrow> Returns (Inl 1)
                          | Inr (aes_key, aes_iv) \<Rightarrow>
                              let enc_start = tag_len;
                                  enc_len = length data - enc_start;
                                  aligned_len = enc_len div 16 * 16
                              in Returns (Inr (take enc_start data @
                                   aes_cbc_decrypt cipher aes_key aes_iv (subslice enc_start aligned_len data) @
                                   drop (enc_start + aligned_len) data))))))))"

text \<open>The version text of a remote image: from byte 16 to the first zero byte, or to byte 32.\<close>

fun position0 :: "bytes \<Rightarrow> nat option" where
  "position0 [] = None"
| "position0 (b # bs) = (if b = 0 then Some 0 else map_option Suc (position0 bs))"

definition remote_version :: "bytes \<Rightarrow> bytes option outcome" where
  "remote_version remote_data =
     (if 16 \<le> length remote_data \<and> take 4 remote_data = bytes_of_str ''2RDH'' then
        let ver_end = (case position0 (drop 16 remote_data) of Some p \<Rightarrow> 16 + p | None \<Rightarrow> 32)
        in if length remote_data < ver_end then Panics
           else Returns (Some (subslice 16 (ver_end - 16) remote_data))
      else Returns None)"

text \<open>Files are written one after the other; the first failure ends the tool with code 1.\<close>

fun write_files :: "file_system \<Rightarrow> (out_target \<times> bytes) list \<Rightarrow> nat \<times> (out_target \<times> bytes) list" where
  "write_files fs [] = (0, [])"
| "write_files fs ((t, d) # ws) =
     (if fs_write fs t d then (let (code, rest) = write_files fs ws in (code, (t, d) # rest))
      else (1, []))"

definition planned_writes :: "fwx_args \<Rightarrow> bytes \<Rightarrow> bytes \<Rightarrow> (out_target \<times> bytes) list" where
  "planned_writes args host_data remote_data =
     (case fa_split_dir args of
        Some dir \<Rightarrow> [(InDir dir ''host_kernel.bin'', host_data), (InDir dir ''remote_board.bin'', remote_data)]
      | None \<Rightarrow>
          ((case fa_output args of Some p \<Rightarrow> AtPath p
            | None \<Rightarrow> BesideInput (fa_fw_path args) ''_remote.bin''), remote_data) #
          (if fa_extract_all args then [(BesideInput (fa_fw_path args) ''_main.bin'', host_data)] else []))"

definition split_image :: "file_system \<Rightarrow> fwx_args \<Rightarrow> nat \<Rightarrow> nat \<Rightarrow> bytes \<Rightarrow> extraction outcome" where
  "split_image fs args host_start host_len data =
     (let remote_data = drop (host_start + host_len) data
      in if remote_data = [] then Returns \<lparr>ex_code = 0, ex_version = None, ex_writes = []\<rparr>
         else bind_outcome (remote_version remote_data) (\<lambda>version.
           let (code, written) = write_files fs (planned_writes args (subslice host_start host_len data) remote_data)
           in Returns \<lparr>ex_code = code, ex_version = version, ex_writes = written\<rparr>))"

definition exit_with :: "nat \<Rightarrow> extraction" where
  "exit_with code = \<lparr>ex_code = code, ex_version = None, ex_writes = []\<rparr>"

definition fwx_main ::
  "'n bigint \<Rightarrow> hash \<Rightarrow> block_cipher \<Rightarrow> bool \<Rightarrow> file_system \<Rightarrow> string list \<Rightarrow> extraction outcome" where
  "fwx_main B sha cipher feature fs argv =
     (case parse_args feature argv of
        Inl code \<Rightarrow> Returns (exit_with code)
      | Inr args \<Rightarrow>
          (case fs_read fs (fa_fw_path args) of
             None \<Rightarrow> Returns (exit_with 1)
           | Some data \<Rightarrow>
               (case tag_parse data of
                  Inl e \<Rightarrow> Returns (exit_with 1)
                | Inr tag \<Rightarrow>
                    let (tag_len, signature) = parse_chunks data;
                        host_len = unat (th_total_image_len tag)
                    in if length data < host_len + tag_len then Returns (exit_with 1)
                       else bind_outcome (decrypt_step B sha cipher fs args tag_len signature data) (\<lambda>r.
                         case r of Inl code \<Rightarrow> Returns (exit_with code)
                         | Inr data' \<Rightarrow> split_image fs args tag_len host_len data'))))"

section \<open>Lemmas\<close>

lemma length_xor_bytes [simp]: "length (xor_bytes xs ys) = min (length xs) (length ys)"
  by (simp add: xor_bytes_def)

lemma xor_bytes_nth: "i < length xs \<Longrightarrow> i < length ys \<Longrightarrow> xor_bytes xs ys ! i = xor (xs ! i) (ys ! i)"
  by (simp add: xor_bytes_def)

lemma xor_bytes_cancel: "length xs \<le> length ys \<Longrightarrow> xor_bytes (xor_bytes xs ys) ys = xs"
  by (intro nth_equalityI) (auto simp: xor_bytes_nth bit.xor_self xor.assoc)

lemma mgf1_loop_enough: "n \<le> length (mgf1_loop sha seed n counter result)"
proof (induction sha seed n counter result rule: mgf1_loop.induct)
  case (1 sha seed n counter result)
  then show ?case
    by (cases "length result < n") (subst mgf1_loop.simps, simp)+
qed

lemma length_mgf1 [simp]: "length (mgf1 sha seed n) = n"
  using mgf1_loop_enough [of n sha seed 0 "[]"] by (simp add: mgf1_def)

lemma chunk_loop_bounds:
  assumes "chunk_loop data offset sum_len signature = (t, sig)" and "offset \<le> length data"
    and "length signature \<le> 256"
  shows "offset + t \<le> length data + sum_len \<and> length sig \<le> 256"
  using assms
proof (induction data offset sum_len signature rule: chunk_loop.induct)
  case (1 data offset sum_len signature)
  define len where "len = unat (read_u32_le data (offset + 4))"
  show ?case
  proof (cases "offset + 8 \<le> length data \<and> \<not> (len < 8 \<or> length data < offset + len) \<and>
                read_u32_le data offset \<noteq> 0")
    case True
    define sig' where "sig' = (if read_u32_le data offset = 1 \<and> signature = []
      then subslice (offset + 8) (min (offset + 8 + len - 8) (offset + 8 + 256) - (offset + 8)) data
      else signature)"
    have step: "chunk_loop data offset sum_len signature = chunk_loop data (offset + len) (sum_len + len) sig'"
      using True by (subst chunk_loop.simps) (simp add: Let_def len_def sig'_def)
    have "length sig' \<le> 256"
      using "1.prems"(3) by (auto simp: sig'_def)
    then have "offset + len + t \<le> length data + (sum_len + len) \<and> length sig \<le> 256"
      using "1.IH" [OF _ refl len_def _ _ refl refl sig'_def] True "1.prems"(1) step by simp
    then show ?thesis by simp
  next
    case False
    then show ?thesis
      using "1.prems" by (subst (asm) chunk_loop.simps) (auto simp: Let_def len_def split: if_splits)
  qed
qed

lemma parse_chunks_bounds:
  assumes "parse_chunks data = (tag_len, sig)" and "TAG_HEADER_LEN \<le> length data"
  shows "TAG_HEADER_LEN \<le> tag_len \<and> tag_len \<le> length data \<and> length sig \<le> 256"
  using assms chunk_loop_bounds [of data TAG_HEADER_LEN 0 "[]"]
  by (cases "chunk_loop data TAG_HEADER_LEN 0 []") (auto simp: parse_chunks_def)

lemma position0_None: "position0 bs = None \<longleftrightarrow> 0 \<notin> set bs"
  by (induction bs) auto

lemma position0_bound: "position0 bs = Some p \<Longrightarrow> p < length bs"
  by (induction bs arbitrary: p) (auto split: if_splits)

lemma remote_version_panics:
  "remote_version r = Panics \<longleftrightarrow>
     16 \<le> length r \<and> length r < 32 \<and> take 4 r = bytes_of_str ''2RDH'' \<and> 0 \<notin> set (drop 16 r)"
proof (cases "16 \<le> length r \<and> take 4 r = bytes_of_str ''2RDH''")
  case header: True
  show ?thesis
  proof (cases "position0 (drop 16 r)")
    case None
    then have "0 \<notin> set (drop 16 r)" using position0_None [of "drop 16 r"] by simp
    then show ?thesis unfolding remote_version_def using header None by simp
  next
    case (Some p)
    then have "0 \<in> set (drop 16 r)" using position0_None [of "drop 16 r"] by simp
    moreover have "16 + p \<le> length r" using position0_bound [OF Some] by simp
    ultimately show ?thesis unfolding remote_version_def using header Some by simp
  qed
next
  case False
  then show ?thesis unfolding remote_version_def by auto
qed

lemma parse_args_key: "parse_args feature argv = Inr a \<Longrightarrow> fa_decrypt a \<Longrightarrow> fa_rsa_key a \<noteq> None"
  by (auto simp: parse_args_def split: sum.splits option.splits if_splits)

lemma write_files_all: "(\<forall>(t, d) \<in> set ws. fs_write fs t d) \<Longrightarrow> write_files fs ws = (0, ws)"
  by (induction ws) auto

section \<open>Properties\<close>

definition chunk :: "u32 \<Rightarrow> bytes \<Rightarrow> bytes" where
  "chunk kind body = to_le32 kind @ to_le32 (of_nat (8 + length body)) @ body"

definition container :: "bytes \<Rightarrow> bytes \<Rightarrow> bytes \<Rightarrow> bytes \<Rightarrow> bytes" where
  "container header sig host remote = header @ chunk 1 sig @ chunk 0 [] @ host @ remote"

lemma read_u32_le_at: "off = length xs \<Longrightarrow> read_u32_le (xs @ to_le32 w @ ys) off = w"
  by (simp add: read_u32_le_def subslice_def codec_dec_enc)

lemma read_u32_le_prefix: "off + 4 \<le> length xs \<Longrightarrow> read_u32_le (xs @ ys) off = read_u32_le xs off"
  by (simp add: read_u32_le_def subslice_append_left)

lemma parse_chunks_container:
  assumes "length header = 512" and "length sig = 256"
  shows "parse_chunks (container header sig host remote) = (784, sig)"
proof -
  define data where "data = container header sig host remote"
  have len: "length data = 784 + length host + length remote"
    using assms by (simp add: data_def container_def chunk_def)
  have lay: "data = header @ to_le32 1 @ to_le32 264 @ sig @ to_le32 0 @ to_le32 8 @ host @ remote"
    using assms by (simp add: data_def container_def chunk_def)
  have type1: "read_u32_le data 512 = 1"
    unfolding lay by (rule read_u32_le_at) (simp add: assms)
  have len1: "read_u32_le data 516 = 264"
    using read_u32_le_at [of 516 "header @ to_le32 1" 264] assms by (simp add: lay)
  have type0: "read_u32_le data 776 = 0"
    using read_u32_le_at [of 776 "header @ to_le32 1 @ to_le32 264 @ sig" 0] assms by (simp add: lay)
  have len0: "read_u32_le data 780 = 8"
    using read_u32_le_at [of 780 "header @ to_le32 1 @ to_le32 264 @ sig @ to_le32 0" 8] assms
    by (simp add: lay)
  have body: "subslice 520 256 data = sig"
    unfolding lay subslice_def using assms by simp
  have "chunk_loop data 512 0 [] = chunk_loop data 776 264 sig"
    by (subst chunk_loop.simps) (simp add: Let_def type1 len1 len body)
  also have "\<dots> = (272, sig)"
    by (subst chunk_loop.simps) (simp add: Let_def type0 len0 len)
  finally show ?thesis
    by (simp add: parse_chunks_def TAG_HEADER_LEN_def data_def [symmetric])
qed

definition split_args :: "string \<Rightarrow> string \<Rightarrow> string list" where
  "split_args path dir = [''fwextract'', path, ''-s'', dir]"


definition sample_fs :: "bytes \<Rightarrow> file_system" where
  "sample_fs data = \<lparr>fs_read = [''fw.bin'' \<mapsto> data], fs_write = (\<lambda>t d. True)\<rparr>"

definition sample_tag :: bytes where
  "sample_tag = replicate 112 0 @ to_le32 3 @ replicate 396 0"


definition pss_db :: "bytes \<Rightarrow> bytes" where
  "pss_db salt = replicate (223 - 1 - length salt) 0 @ [1] @ salt"

definition pss_encode :: "hash \<Rightarrow> bytes \<Rightarrow> bytes \<Rightarrow> bytes" where
  "pss_encode sha h salt =
     (let m = xor_bytes (pss_db salt) (mgf1 sha h 223)
      in m[0 := and (m ! 0) 0x7F] @ h @ [0xBC])"

lemma dropWhile_zeros_pad:
  "replicate (length xs - length (dropWhile (\<lambda>b. b = (0 :: byte)) xs)) 0 @ dropWhile (\<lambda>b. b = 0) xs = xs"
proof (induction xs)
  case (Cons x xs)
  show ?case
  proof (cases "x = 0")
    case True
    have "length (dropWhile (\<lambda>b. b = 0) xs) \<le> length xs" by (rule length_dropWhile_le)
    with True Cons show ?thesis by (simp add: Suc_diff_le)
  qed simp
qed simp

lemma dropWhile_zeros: "dropWhile (\<lambda>b. b = (0 :: byte)) (replicate n 0 @ xs) = dropWhile (\<lambda>b. b = 0) xs"
  by (induction n) auto

lemma pss_unmask:
  fixes sha :: hash and h salt :: bytes
  assumes "length salt \<le> 221" and "length h = 32"
  defines "em \<equiv> pss_encode sha h salt"
  defines "u \<equiv> xor_bytes (take 223 em) (mgf1 sha h 223)"
  shows "u[0 := and (u ! 0) 0x7F] = pss_db salt"
proof (rule nth_equalityI)
  have len: "length (pss_db salt) = 223" using assms(1) by (simp add: pss_db_def)
  let ?m = "xor_bytes (pss_db salt) (mgf1 sha h 223)"
  have take: "take 223 em = ?m[0 := and (?m ! 0) 0x7F]"
    by (simp add: em_def pss_encode_def Let_def len)
  have lens: "length ?m = 223" "length u = 223" by (simp_all add: len u_def take)
  then show "length (u[0 := and (u ! 0) 0x7F]) = length (pss_db salt)" by (simp add: len)
  fix i
  assume "i < length (u[0 := and (u ! 0) 0x7F])"
  then have i: "i < 223" using lens by simp
  have un: "u ! i = xor (?m[0 := and (?m ! 0) 0x7F] ! i) (mgf1 sha h 223 ! i)"
    using i lens by (simp add: u_def take xor_bytes_nth)
  have mn: "?m ! i = xor (pss_db salt ! i) (mgf1 sha h 223 ! i)"
    using i len by (simp add: xor_bytes_nth)
  show "u[0 := and (u ! 0) 0x7F] ! i = pss_db salt ! i"
  proof (cases "i = 0")
    case True
    have zero: "pss_db salt ! 0 = 0"
      using assms(1) by (simp add: pss_db_def nth_append)
    have "and (xor (and (xor 0 b) 0x7F) b) 0x7F = (0 :: byte)" for b :: byte
      by (rule bit_word_eqI) (auto simp: bit_simps)
    then show ?thesis
      using True un mn lens zero by simp
  next
    case False
    then show ?thesis
      using un mn i lens by (simp add: xor.assoc)
  qed
qed

text \<open>C38. Key recovery inverts the signer's PSS encoding: if the number recovered from the
  signature is the encoded message whose salt is a key followed by an IV, exactly that key and
  that IV are returned, for every hash function and every digest.\<close>

theorem aes_key_recovered:
  assumes "length signature = 256" and "length h = 32" and "length key = 16" and "length iv = 16"
    and "big_to_be B (big_modpow B (big_from_be B (rev signature)) (rsa_e pk) (rsa_n pk)) =
         dropWhile (\<lambda>b. b = 0) (pss_encode sha h (key @ iv))"
  shows "extract_aes_key B sha signature pk = Returns (Inr (key, iv))"
proof -
  define em where "em = pss_encode sha h (key @ iv)"
  have lens: "length (pss_db (key @ iv)) = 223" using assms by (simp add: pss_db_def)
  have em_len: "length em = 256"
    using lens assms by (simp add: em_def pss_encode_def Let_def)
  have short: "length (dropWhile (\<lambda>b. b = 0) em) \<le> 256"
    using length_dropWhile_le [of "\<lambda>b. b = 0" em] em_len by simp
  have padded: "replicate (256 - length (dropWhile (\<lambda>b. b = 0) em)) 0 @ dropWhile (\<lambda>b. b = 0) em = em"
    using dropWhile_zeros_pad [of em] em_len by simp
  have trailer: "em ! 255 = 0xBC" and hash: "subslice 223 32 em = h"
    using lens assms(2) by (simp_all add: em_def pss_encode_def Let_def nth_append subslice_def)
  have db: "(let u = xor_bytes (take 223 em) (mgf1 sha h 223) in u[0 := and (u ! 0) 0x7F]) = pss_db (key @ iv)"
    using pss_unmask [of "key @ iv" h sha] assms by (simp add: em_def Let_def)
  have tail: "dropWhile (\<lambda>b. b = 0) (pss_db (key @ iv)) = 1 # key @ iv"
    by (simp add: pss_db_def dropWhile_zeros)
  have found: "\<exists>x \<in> set (pss_db (key @ iv)). x \<noteq> 0"
    by (rule bexI [of _ 1]) (simp_all add: pss_db_def)
  show ?thesis
    using short padded trailer hash db tail found assms(1,3,4,5) em_len
    by (simp add: extract_aes_key_def em_def [symmetric] Let_def subslice_def)
qed

lemma aes_key_recovered_witness:
  "extract_aes_key
     \<lparr>big_from_be = id, big_modpow = (\<lambda>b e n. dropWhile (\<lambda>b. b = 0) b), big_to_be = id\<rparr>
     (\<lambda>m i. 5) (rev (pss_encode (\<lambda>m i. 5) (replicate 32 3) (replicate 16 1 @ replicate 16 2)))
     \<lparr>rsa_n = [], rsa_e = []\<rparr> = Returns (Inr (replicate 16 1, replicate 16 2))"
proof (rule aes_key_recovered)
  show "length (rev (pss_encode (\<lambda>m i. 5) (replicate 32 3) (replicate 16 1 @ replicate 16 2))) = 256"
    by (simp add: pss_encode_def pss_db_def Let_def)
qed simp_all

function cbc_encrypt :: "block_cipher \<Rightarrow> bytes \<Rightarrow> bytes \<Rightarrow> bytes \<Rightarrow> bytes" where
  "cbc_encrypt enc key prev data =
     (if length data < 16 then data
      else let c = enc key (xor_bytes (take 16 data) prev)
           in c @ cbc_encrypt enc key c (drop 16 data))"
  by pat_completeness auto
termination
  by (relation "measure (\<lambda>(enc, key, prev, data). length data)") auto

declare cbc_encrypt.simps [simp del]

text \<open>CBC decryption inverts CBC encryption under every block cipher whose decryption
  inverts its encryption, on data of any length; bytes after the last whole block are kept.\<close>

lemma cbc_roundtrip:
  assumes "\<forall>b. length b = 16 \<longrightarrow> length (enc key b) = 16 \<and> dec key (enc key b) = b" and "length iv = 16"
  shows "aes_cbc_decrypt dec key iv (cbc_encrypt enc key iv data) = data"
  using assms
proof (induction enc key iv data rule: cbc_encrypt.induct)
  case (1 enc key prev data)
  show ?case
  proof (cases "length data < 16")
    case True
    then show ?thesis by (simp add: cbc_encrypt.simps aes_cbc_decrypt.simps)
  next
    case False
    let ?x = "xor_bytes (take 16 data) prev"
    define c where "c = enc key ?x"
    have x: "length ?x = 16" using False "1.prems"(2) by simp
    then have c: "length c = 16" "dec key c = ?x"
      using "1.prems"(1) unfolding c_def by blast+
    have e: "cbc_encrypt enc key prev data = c @ cbc_encrypt enc key c (drop 16 data)"
      using False by (subst cbc_encrypt.simps) (simp add: c_def Let_def)
    have "aes_cbc_decrypt dec key c (cbc_encrypt enc key c (drop 16 data)) = drop 16 data"
      by (rule "1.IH" [OF False c_def "1.prems"(1) c(1)])
    moreover have "xor_bytes ?x prev = take 16 data"
      using "1.prems"(2) by (simp add: xor_bytes_cancel)
    ultimately show ?thesis
      unfolding e using c by (subst aes_cbc_decrypt.simps) simp
  qed
qed

lemma cbc_roundtrip_witness:
  "aes_cbc_decrypt (\<lambda>k b. rev b) [7] (replicate 16 1)
     (cbc_encrypt (\<lambda>k b. rev b) [7] (replicate 16 1) (replicate 37 3)) = replicate 37 3"
  by (rule cbc_roundtrip) (simp_all)

text \<open>C39. Without decryption the tool never hangs, and it panics in exactly one case: the
  container is accepted, and its remote image starts with the magic, has 16 to 31 bytes and no
  zero byte after the sixteenth, so that the slice for the version text is out of range.\<close>

theorem fwextract_panics_iff:
  assumes "parse_args feature argv = Inr args" and "\<not> fa_decrypt args"
    and "fs_read fs (fa_fw_path args) = Some data"
  shows "fwx_main B sha cipher feature fs argv \<noteq> Diverges \<and>
    (fwx_main B sha cipher feature fs argv = Panics \<longleftrightarrow>
      (\<exists>tag. tag_parse data = Inr tag \<and>
         (let used = fst (parse_chunks data) + unat (th_total_image_len tag); r = drop used data
          in used \<le> length data \<and> 16 \<le> length r \<and> length r < 32 \<and>
             take 4 r = bytes_of_str ''2RDH'' \<and> 0 \<notin> set (drop 16 r))))"
proof (cases "tag_parse data")
  case (Inl e)
  then show ?thesis using assms by (simp add: fwx_main_def)
next
  case (Inr tag)
  obtain n sig where chunks: "parse_chunks data = (n, sig)" by fastforce
  define r where "r = drop (n + unat (th_total_image_len tag)) data"
  have split: "split_image fs args n (unat (th_total_image_len tag)) data =
      (if r = [] then Returns \<lparr>ex_code = 0, ex_version = None, ex_writes = []\<rparr>
       else bind_outcome (remote_version r) (\<lambda>version.
         case write_files fs (planned_writes args (subslice n (unat (th_total_image_len tag)) data) r) of
           (code, written) \<Rightarrow> Returns \<lparr>ex_code = code, ex_version = version, ex_writes = written\<rparr>))"
    by (simp add: split_image_def r_def Let_def)
  have no_hang: "remote_version r \<noteq> Diverges"
    by (auto simp: remote_version_def Let_def)
  have empty: "remote_version r = Panics \<Longrightarrow> r \<noteq> []"
    by (auto simp: remote_version_panics)
  have main: "fwx_main B sha cipher feature fs argv =
      (if length data < unat (th_total_image_len tag) + n then Returns (exit_with 1)
       else split_image fs args n (unat (th_total_image_len tag)) data)"
    using assms Inr chunks by (simp add: fwx_main_def decrypt_step_def)
  have "fwx_main B sha cipher feature fs argv \<noteq> Diverges \<and>
      (fwx_main B sha cipher feature fs argv = Panics \<longleftrightarrow>
        n + unat (th_total_image_len tag) \<le> length data \<and> remote_version r = Panics)"
    using no_hang empty by (cases "remote_version r") (auto simp: main split split: prod.splits)
  then show ?thesis
    using Inr chunks by (simp add: remote_version_panics r_def Let_def)
qed

lemma fwextract_panics_iff_witness:
  "fwx_main \<lparr>big_from_be = id, big_modpow = (\<lambda>b e n. b), big_to_be = id\<rparr> (\<lambda>m i. 0) (\<lambda>k b. b) False
     (sample_fs (replicate 10 0)) (split_args ''fw.bin'' ''out'') \<noteq> Panics"
  using fwextract_panics_iff [of False "split_args ''fw.bin'' ''out''"
      "\<lparr>fa_fw_path = ''fw.bin'', fa_output = None, fa_extract_all = False, fa_decrypt = False,
        fa_rsa_key = None, fa_split_dir = Some ''out''\<rparr>" "sample_fs (replicate 10 0)" "replicate 10 0"
      "\<lparr>big_from_be = id, big_modpow = (\<lambda>b e n. b), big_to_be = id\<rparr>" "\<lambda>m i. 0" "\<lambda>k b. b"]
  by (simp add: parse_args_def split_args_def sample_fs_def starts_with_def tag_parse_def
      TAG_HEADER_LEN_def)

end
