(* ===== verification/Netlink.thy ===== *)
theory Netlink
  imports Wire RustStr
begin

text \<open>
  The netlink library (\<open>tinyln_rs/src\<close>): attribute encoding and decoding (\<open>attr.rs\<close>), the message
  wrapper (\<open>msg.rs\<close>) and the link, address and route requests (\<open>rtnl/\<close>).  The C library
  \<open>libnl-tiny\<close> underneath is a parameter, the record \<open>nl_lib\<close>; its documented behaviour is
  the locale \<open>libnl\<close>.  A message is the buffer that starts at its \<open>nlmsghdr\<close>, of which the
  first 16 bytes stand for the header, whose fields are kept beside it.  A reference to an
  attribute is the memory from its first byte on.  Pointer arithmetic is arithmetic on offsets
  into these buffers.
\<close>

section \<open>Alignment\<close>

definition NLMSG_ALIGNTO :: nat where "NLMSG_ALIGNTO = 4"
definition NLA_ALIGNTO :: nat where "NLA_ALIGNTO = 4"
definition NLA_HDRLEN :: nat where "NLA_HDRLEN = 4"
definition NLA_F_NESTED :: u32 where "NLA_F_NESTED = 0x8000"
definition NLA_F_NET_BYTEORDER :: u32 where "NLA_F_NET_BYTEORDER = 0x4000"
definition NETLINK_ROUTE :: nat where "NETLINK_ROUTE = 0"
definition NETLINK_GENERIC :: nat where "NETLINK_GENERIC = 16"

text \<open>Clearing the low bits of \<open>len + 3\<close> is rounding down to a multiple of four.\<close>

definition nlmsg_align :: "nat \<Rightarrow> nat" where
  "nlmsg_align n = (n + NLMSG_ALIGNTO - 1) div NLMSG_ALIGNTO * NLMSG_ALIGNTO"

definition nla_align :: "nat \<Rightarrow> nat" where
  "nla_align n = (n + NLA_ALIGNTO - 1) div NLA_ALIGNTO * NLA_ALIGNTO"

lemmas align_defs = nlmsg_align_def nla_align_def NLMSG_ALIGNTO_def NLA_ALIGNTO_def NLA_HDRLEN_def

lemma align_props:
  "n \<le> nla_align n" "nla_align n < n + 4" "nla_align n mod 4 = 0" "n mod 4 = 0 \<Longrightarrow> nla_align n = n"
  "nlmsg_align n = nla_align n"
  by (auto simp: align_defs)

section \<open>Native byte order\<close>

definition ne16 :: "bool \<Rightarrow> u16 \<Rightarrow> bytes" where
  "ne16 le w = (if le then to_le16 w else to_be16 w)"

definition from_ne16 :: "bool \<Rightarrow> bytes \<Rightarrow> u16" where
  "from_ne16 le bs = (if le then from_le16 bs else from_be16 bs)"

definition ne32 :: "bool \<Rightarrow> u32 \<Rightarrow> bytes" where
  "ne32 le w = (if le then to_le32 w else to_be32 w)"

definition from_ne32 :: "bool \<Rightarrow> bytes \<Rightarrow> u32" where
  "from_ne32 le bs = (if le then from_le32 bs else from_be32 bs)"

definition ne64 :: "bool \<Rightarrow> u64 \<Rightarrow> bytes" where
  "ne64 le w =
     (let hi = ucast (drop_bit 32 w); lo = ucast w
      in if le then to_le32 lo @ to_le32 hi else to_be32 hi @ to_be32 lo)"

definition from_ne64 :: "bool \<Rightarrow> bytes \<Rightarrow> u64" where
  "from_ne64 le bs =
     (let a = take 4 bs; b = drop 4 bs
      in if le then or (push_bit 32 (ucast (from_le32 b))) (ucast (from_le32 a))
         else or (push_bit 32 (ucast (from_be32 a))) (ucast (from_be32 b)))"

interpretation ne16: fixed_codec "ne16 le" "from_ne16 le" 2 for le
  by unfold_locales
     (simp_all add: ne16_def from_ne16_def be16.dec_enc le16.dec_enc be16.enc_dec le16.enc_dec)

interpretation ne32: fixed_codec "ne32 le" "from_ne32 le" 4 for le
  by unfold_locales
     (simp_all add: ne32_def from_ne32_def be32.dec_enc le32.dec_enc be32.enc_dec le32.enc_dec)

lemma split64:
  fixes w :: u64
  shows "or (push_bit 32 (ucast (ucast (drop_bit 32 w) :: u32))) (ucast (ucast w :: u32)) = w"
proof (rule bit_word_eqI)
  fix n
  assume "n < LENGTH(64)"
  then show "bit (or (push_bit 32 (ucast (ucast (drop_bit 32 w) :: u32))) (ucast (ucast w :: u32)) :: u64) n =
      bit w n"
    by (cases "n < 32") (auto simp: bit_simps)
qed

lemma ne64_read: "from_ne64 le (ne64 le w) = w" "length (ne64 le w) = 8"
  by (auto simp: ne64_def from_ne64_def Let_def codec_dec_enc split64)

declare ne16.length_enc [simp] ne32.length_enc [simp]

section \<open>The C library\<close>

record nl_msg =
  nm_type :: u16
  nm_flags :: u16
  nm_len :: nat
  nm_buf :: bytes

record nl_lib =
  nl_le :: bool
  nla_put :: "nl_msg \<Rightarrow> u32 \<Rightarrow> bytes \<Rightarrow> int \<times> nl_msg"
  nlmsg_append :: "nl_msg \<Rightarrow> bytes \<Rightarrow> int \<times> nl_msg"
  nla_ok :: "bytes \<Rightarrow> int \<Rightarrow> bool"
  nla_find :: "bytes \<Rightarrow> int \<Rightarrow> u32 \<Rightarrow> bytes option"
  nlmsg_alloc :: "nl_msg option"
  nlmsg_alloc_simple :: "u16 \<Rightarrow> u16 \<Rightarrow> nl_msg option"
  nlmsg_reserve :: "nl_msg \<Rightarrow> nat \<Rightarrow> nat \<Rightarrow> nat option \<times> nl_msg"
  unl_rtnl_init :: int
  unl_rtnl_msg :: "u16 \<Rightarrow> nl_msg option"
  nl_send_auto_complete :: "nl_msg \<Rightarrow> int"
  nl_wait_for_ack :: "nl_msg \<Rightarrow> int"
  if_nametoindex :: "string \<Rightarrow> u32"
  last_os_error :: int

section \<open>Writing attributes\<close>

definition attr_put :: "nl_lib \<Rightarrow> nl_msg \<Rightarrow> u32 \<Rightarrow> bytes \<Rightarrow> int \<times> nl_msg" where
  "attr_put L msg attrtype data = nla_put L msg attrtype data"

definition put_u8 :: "nl_lib \<Rightarrow> nl_msg \<Rightarrow> u32 \<Rightarrow> byte \<Rightarrow> int \<times> nl_msg" where
  "put_u8 L msg attrtype val = attr_put L msg attrtype [val]"

definition put_u16 :: "nl_lib \<Rightarrow> nl_msg \<Rightarrow> u32 \<Rightarrow> u16 \<Rightarrow> int \<times> nl_msg" where
  "put_u16 L msg attrtype val = attr_put L msg attrtype (ne16 (nl_le L) val)"

definition put_u32 :: "nl_lib \<Rightarrow> nl_msg \<Rightarrow> u32 \<Rightarrow> u32 \<Rightarrow> int \<times> nl_msg" where
  "put_u32 L msg attrtype val = attr_put L msg attrtype (ne32 (nl_le L) val)"

definition put_u64 :: "nl_lib \<Rightarrow> nl_msg \<Rightarrow> u32 \<Rightarrow> u64 \<Rightarrow> int \<times> nl_msg" where
  "put_u64 L msg attrtype val = attr_put L msg attrtype (ne64 (nl_le L) val)"

text \<open>\<open>CString::new\<close> refuses text with a NUL.\<close>

definition put_string :: "nl_lib \<Rightarrow> nl_msg \<Rightarrow> u32 \<Rightarrow> string \<Rightarrow> int \<times> nl_msg" where
  "put_string L msg attrtype s =
     (if CHR 0x00 \<in> set s then (- 1, msg) else attr_put L msg attrtype (bytes_of_str s @ [0]))"

definition put_flag :: "nl_lib \<Rightarrow> nl_msg \<Rightarrow> u32 \<Rightarrow> int \<times> nl_msg" where
  "put_flag L msg attrtype = nla_put L msg attrtype []"

text \<open>A nest handle is the offset of the nest's header.\<close>

definition nest_start :: "nl_lib \<Rightarrow> nl_msg \<Rightarrow> u32 \<Rightarrow> nat option \<times> nl_msg" where
  "nest_start L msg attrtype =
     (let offset = nlmsg_align (nm_len msg);
          (r, msg) = nla_put L msg (or attrtype NLA_F_NESTED) []
      in if r < 0 then (None, msg) else (Some offset, msg))"

definition nest_end :: "nl_lib \<Rightarrow> nl_msg \<Rightarrow> nat \<Rightarrow> nl_msg" where
  "nest_end L msg nest =
     (let tail = nlmsg_align (nm_len msg);
          size = tail - nest
      in msg\<lparr>nm_buf := overwrite nest (ne16 (nl_le L) (of_nat size)) (nm_buf msg)\<rparr>)"

section \<open>Reading attributes\<close>

definition nla_len :: "nl_lib \<Rightarrow> bytes \<Rightarrow> nat" where
  "nla_len L attr = unat (from_ne16 (nl_le L) (subslice 0 2 attr))"

definition nla_type :: "nl_lib \<Rightarrow> bytes \<Rightarrow> u16" where
  "nla_type L attr = from_ne16 (nl_le L) (subslice 2 2 attr)"

definition payload_len :: "nl_lib \<Rightarrow> bytes \<Rightarrow> nat option" where
  "payload_len L attr = (if nla_len L attr < NLA_HDRLEN then None else Some (nla_len L attr - NLA_HDRLEN))"

definition get_u8 :: "nl_lib \<Rightarrow> bytes \<Rightarrow> byte option" where
  "get_u8 L attr =
     (case payload_len L attr of None \<Rightarrow> None
      | Some n \<Rightarrow> if 1 \<le> n then Some (attr ! NLA_HDRLEN) else None)"

definition get_u16 :: "nl_lib \<Rightarrow> bytes \<Rightarrow> u16 option" where
  "get_u16 L attr =
     (case payload_len L attr of None \<Rightarrow> None
      | Some n \<Rightarrow> if 2 \<le> n then Some (from_ne16 (nl_le L) (subslice NLA_HDRLEN 2 attr)) else None)"

definition get_u32 :: "nl_lib \<Rightarrow> bytes \<Rightarrow> u32 option" where
  "get_u32 L attr =
     (case payload_len L attr of None \<Rightarrow> None
      | Some n \<Rightarrow> if 4 \<le> n then Some (from_ne32 (nl_le L) (subslice NLA_HDRLEN 4 attr)) else None)"

definition get_u64 :: "nl_lib \<Rightarrow> bytes \<Rightarrow> u64 option" where
  "get_u64 L attr =
     (case payload_len L attr of None \<Rightarrow> None
      | Some n \<Rightarrow> if 8 \<le> n then Some (from_ne64 (nl_le L) (subslice NLA_HDRLEN 8 attr)) else None)"

definition get_string :: "nl_lib \<Rightarrow> bytes \<Rightarrow> string option" where
  "get_string L attr =
     (case payload_len L attr of None \<Rightarrow> None
      | Some n \<Rightarrow>
          (let text = takeWhile (\<lambda>b. b \<noteq> 0) (subslice NLA_HDRLEN n attr)
           in if utf8_valid text then Some (str_of_bytes text) else None))"

record nla_iter =
  it_ptr :: bytes
  it_remaining :: int

definition NlaIter_new :: "bytes \<Rightarrow> nat \<Rightarrow> nla_iter" where
  "NlaIter_new start n = \<lparr>it_ptr = start, it_remaining = sint (of_nat n :: 32 word)\<rparr>"

definition nla_next :: "nl_lib \<Rightarrow> nla_iter \<Rightarrow> (bytes \<times> nla_iter) option" where
  "nla_next L it =
     (if it_remaining it \<le> 0 then None
      else if \<not> nla_ok L (it_ptr it) (it_remaining it) then None
      else
        let attr = it_ptr it;
            total = nla_align (nla_len L attr)
        in Some (attr, \<lparr>it_ptr = drop total (it_ptr it), it_remaining = it_remaining it - int total\<rparr>))"

text \<open>A \<open>for\<close> loop over the iterator.\<close>

partial_function (option) nla_collect :: "nl_lib \<Rightarrow> nla_iter \<Rightarrow> bytes list option" where
  "nla_collect L it =
     (case nla_next L it of
        None \<Rightarrow> Some []
      | Some (attr, it') \<Rightarrow>
          Option.bind (nla_collect L it') (\<lambda>attrs. Some (attr # attrs)))"

text \<open>\<open>find\<close>: a null pointer is \<open>None\<close>.\<close>

definition find_attr :: "nl_lib \<Rightarrow> bytes \<Rightarrow> nat \<Rightarrow> u32 \<Rightarrow> bytes option" where
  "find_attr L start n attrtype = nla_find L start (sint (of_nat n :: 32 word)) attrtype"

section \<open>Requests\<close>

datatype nl_error = Errno int | NlOther string

definition NLM_F_REQUEST :: u16 where "NLM_F_REQUEST = 0x01"
definition NLM_F_ACK :: u16 where "NLM_F_ACK = 0x04"
definition NLM_F_CREATE :: u16 where "NLM_F_CREATE = 0x0400"
definition NLM_F_EXCL :: u16 where "NLM_F_EXCL = 0x0200"
definition IFF_UP :: u32 where "IFF_UP = 1"

text \<open>Numbers of the kernel interface that the generated bindings define.\<close>

definition RTM_NEWLINK :: u16 where "RTM_NEWLINK = 16"
definition RTM_DELLINK :: u16 where "RTM_DELLINK = 17"
definition RTM_SETLINK :: u16 where "RTM_SETLINK = 19"
definition RTM_NEWADDR :: u16 where "RTM_NEWADDR = 20"
definition RTM_DELADDR :: u16 where "RTM_DELADDR = 21"
definition RTM_NEWROUTE :: u16 where "RTM_NEWROUTE = 24"
definition RTM_DELROUTE :: u16 where "RTM_DELROUTE = 25"
definition IFLA_IFNAME :: u32 where "IFLA_IFNAME = 3"
definition IFLA_LINK :: u32 where "IFLA_LINK = 5"
definition IFLA_LINKINFO :: u32 where "IFLA_LINKINFO = 18"
definition IFLA_INFO_KIND :: u32 where "IFLA_INFO_KIND = 1"
definition IFLA_INFO_DATA :: u32 where "IFLA_INFO_DATA = 2"
definition IFLA_VLAN_ID :: u32 where "IFLA_VLAN_ID = 1"
definition IFA_ADDRESS :: u32 where "IFA_ADDRESS = 1"
definition IFA_LOCAL :: u32 where "IFA_LOCAL = 2"
definition RTA_DST :: u32 where "RTA_DST = 1"
definition RTA_OIF :: u32 where "RTA_OIF = 4"
definition RTA_GATEWAY :: u32 where "RTA_GATEWAY = 5"
definition AF_INET :: byte where "AF_INET = 2"

lemmas nl_consts = NLM_F_REQUEST_def NLM_F_ACK_def NLM_F_CREATE_def NLM_F_EXCL_def IFF_UP_def
  RTM_NEWLINK_def RTM_DELLINK_def RTM_SETLINK_def IFLA_IFNAME_def IFLA_LINK_def IFLA_LINKINFO_def
  IFLA_INFO_KIND_def IFLA_INFO_DATA_def IFLA_VLAN_ID_def

text \<open>\<open>CString::new(name).unwrap()\<close> panics on a NUL.\<close>

definition ifindex :: "nl_lib \<Rightarrow> string \<Rightarrow> (nl_error + u32) outcome" where
  "ifindex L name =
     (if CHR 0x00 \<in> set name then Panics
      else let idx = if_nametoindex L name
           in Returns (if idx = 0 then Inl (Errno (last_os_error L)) else Inr idx))"

definition build_ifi :: "bool \<Rightarrow> u32 \<Rightarrow> u32 \<Rightarrow> u32 \<Rightarrow> bytes" where
  "build_ifi le idx flags change = [0, 0] @ ne16 le 0 @ ne32 le idx @ ne32 le flags @ ne32 le change"

definition msg_append :: "nl_lib \<Rightarrow> nl_msg \<Rightarrow> bytes \<Rightarrow> (nl_error + unit) \<times> nl_msg" where
  "msg_append L msg data =
     (let (r, msg) = nlmsg_append L msg data
      in (if r < 0 then Inl (Errno (last_os_error L)) else Inr (), msg))"

definition NlMsg_alloc :: "nl_lib \<Rightarrow> nl_error + nl_msg" where
  "NlMsg_alloc L = (case nlmsg_alloc L of None \<Rightarrow> Inl (NlOther ''nlmsg_alloc failed'') | Some msg \<Rightarrow> Inr msg)"

definition NlMsg_alloc_simple :: "nl_lib \<Rightarrow> u16 \<Rightarrow> u16 \<Rightarrow> nl_error + nl_msg" where
  "NlMsg_alloc_simple L msg_type flags =
     (case nlmsg_alloc_simple L msg_type flags of
        None \<Rightarrow> Inl (NlOther ''nlmsg_alloc_simple failed'') | Some msg \<Rightarrow> Inr msg)"

text \<open>The reserved space is given by its offset.\<close>

definition msg_reserve :: "nl_lib \<Rightarrow> nl_msg \<Rightarrow> nat \<Rightarrow> nat \<Rightarrow> (nl_error + nat) \<times> nl_msg" where
  "msg_reserve L msg n pad =
     (case nlmsg_reserve L msg n pad of
        (None, msg) \<Rightarrow> (Inl (NlOther ''nlmsg_reserve failed''), msg)
      | (Some off, msg) \<Rightarrow> (Inr off, msg))"

text \<open>\<open>data_ptr\<close> points behind everything the message holds so far.\<close>

definition msg_data_offset :: "nl_msg \<Rightarrow> nat" where
  "msg_data_offset msg = nlmsg_align (nm_len msg)"

definition RtnlLink_new :: "nl_lib \<Rightarrow> nl_error + unit" where
  "RtnlLink_new L = (if unl_rtnl_init L < 0 then Inl (Errno (last_os_error L)) else Inr ())"

text \<open>The assertion that the library returned a message.\<close>

definition alloc_msg :: "nl_lib \<Rightarrow> u16 \<Rightarrow> nl_msg outcome" where
  "alloc_msg L cmd =
     (case unl_rtnl_msg L cmd of
        None \<Rightarrow> Panics
      | Some msg \<Rightarrow> Returns (msg\<lparr>nm_flags := or NLM_F_REQUEST NLM_F_ACK\<rparr>))"

text \<open>The result of a request and the messages that were sent on the way.\<close>

type_synonym 'a nl_result = "((nl_error + 'a) \<times> nl_msg list) outcome"

definition link_send :: "nl_lib \<Rightarrow> nl_msg \<Rightarrow> 'a \<Rightarrow> 'a nl_result" where
  "link_send L msg a =
     (let ret = nl_send_auto_complete L msg in
      if ret < 0 then Returns (Inl (Errno (- ret)), [])
      else
        let ret = nl_wait_for_ack L msg in
        if ret < 0 then Returns (Inl (Errno (- ret)), [msg]) else Returns (Inr a, [msg]))"

definition with_index :: "nl_lib \<Rightarrow> string \<Rightarrow> (u32 \<Rightarrow> 'a nl_result) \<Rightarrow> 'a nl_result" where
  "with_index L name f =
     bind_outcome (ifindex L name) (\<lambda>r. case r of Inl e \<Rightarrow> Returns (Inl e, []) | Inr idx \<Rightarrow> f idx)"

definition link_vlan_name :: "string \<Rightarrow> u16 \<Rightarrow> string" where
  "link_vlan_name parent vid = parent @ ''.'' @ show_nat (unat vid)"

text \<open>The attributes of \<open>add_vlan\<close>; the results of the \<open>put\<close> calls are not looked at.\<close>

definition vlan_attrs ::
  "nl_lib \<Rightarrow> nl_msg \<Rightarrow> string \<Rightarrow> u32 \<Rightarrow> u16 \<Rightarrow> (nl_error + nl_msg)" where
  "vlan_attrs L msg name parent_idx vid =
     (let msg = snd (put_string L msg IFLA_IFNAME name);
          msg = snd (put_u32 L msg IFLA_LINK parent_idx) in
      case nest_start L msg IFLA_LINKINFO of
        (None, _) \<Rightarrow> Inl (NlOther ''nest_start IFLA_LINKINFO'')
      | (Some li, msg) \<Rightarrow>
          (let msg = snd (put_string L msg IFLA_INFO_KIND ''vlan'') in
           case nest_start L msg IFLA_INFO_DATA of
             (None, _) \<Rightarrow> Inl (NlOther ''nest_start IFLA_INFO_DATA'')
           | (Some data, msg) \<Rightarrow>
               (let msg = snd (put_u16 L msg IFLA_VLAN_ID vid);
                    msg = nest_end L msg data
                in Inr (nest_end L msg li))))"

definition add_vlan :: "nl_lib \<Rightarrow> string \<Rightarrow> u16 \<Rightarrow> string nl_result" where
  "add_vlan L parent vid =
     (let name = link_vlan_name parent vid in
      with_index L parent (\<lambda>parent_idx.
        bind_outcome (alloc_msg L RTM_NEWLINK) (\<lambda>msg.
          let msg = msg\<lparr>nm_flags := or (nm_flags msg) (or NLM_F_CREATE NLM_F_EXCL)\<rparr> in
          (case msg_append L msg (build_ifi (nl_le L) 0 0 0) of
             (Inl e, _) \<Rightarrow> Returns (Inl e, [])
           | (Inr _, msg) \<Rightarrow>
               (case vlan_attrs L msg name parent_idx vid of
                  Inl e \<Rightarrow> Returns (Inl e, [])
                | Inr msg \<Rightarrow> link_send L msg name)))))"

definition link_del :: "nl_lib \<Rightarrow> string \<Rightarrow> unit nl_result" where
  "link_del L name =
     with_index L name (\<lambda>idx.
       bind_outcome (alloc_msg L RTM_DELLINK) (\<lambda>msg.
         case msg_append L msg (build_ifi (nl_le L) idx 0 0) of
           (Inl e, _) \<Rightarrow> Returns (Inl e, [])
         | (Inr _, msg) \<Rightarrow> link_send L msg ()))"

definition set_flags :: "nl_lib \<Rightarrow> u32 \<Rightarrow> u32 \<Rightarrow> u32 \<Rightarrow> unit nl_result" where
  "set_flags L idx flags change =
     bind_outcome (alloc_msg L RTM_SETLINK) (\<lambda>msg.
       case msg_append L msg (build_ifi (nl_le L) idx flags change) of
         (Inl e, _) \<Rightarrow> Returns (Inl e, [])
       | (Inr _, msg) \<Rightarrow> link_send L msg ())"

definition set_up :: "nl_lib \<Rightarrow> string \<Rightarrow> unit nl_result" where
  "set_up L name = with_index L name (\<lambda>idx. set_flags L idx IFF_UP IFF_UP)"

definition set_down :: "nl_lib \<Rightarrow> string \<Rightarrow> unit nl_result" where
  "set_down L name = with_index L name (\<lambda>idx. set_flags L idx 0 IFF_UP)"

text \<open>Addresses and routes: the message keeps the flags the library gave it, and a failed send is
  reported as the last error of the operating system.\<close>

definition addr_ifindex :: "nl_lib \<Rightarrow> string \<Rightarrow> (nl_error + u32) outcome" where
  "addr_ifindex L name =
     (if CHR 0x00 \<in> set name then Panics
      else let idx = if_nametoindex L name
           in Returns (if idx = 0 then Inl (Errno (last_os_error L)) else Inr idx))"

definition RtnlAddr_new :: "nl_lib \<Rightarrow> nl_error + unit" where
  "RtnlAddr_new L = (if unl_rtnl_init L < 0 then Inl (Errno (last_os_error L)) else Inr ())"

definition route_ifindex :: "nl_lib \<Rightarrow> string \<Rightarrow> (nl_error + u32) outcome" where
  "route_ifindex L name =
     (if CHR 0x00 \<in> set name then Panics
      else let idx = if_nametoindex L name
           in Returns (if idx = 0 then Inl (Errno (last_os_error L)) else Inr idx))"

definition RtnlRoute_new :: "nl_lib \<Rightarrow> nl_error + unit" where
  "RtnlRoute_new L = (if unl_rtnl_init L < 0 then Inl (Errno (last_os_error L)) else Inr ())"

definition plain_alloc :: "nl_lib \<Rightarrow> u16 \<Rightarrow> nl_msg outcome" where
  "plain_alloc L cmd = (case unl_rtnl_msg L cmd of None \<Rightarrow> Panics | Some msg \<Rightarrow> Returns msg)"

definition plain_send :: "nl_lib \<Rightarrow> nl_msg \<Rightarrow> unit nl_result" where
  "plain_send L msg =
     (if nl_send_auto_complete L msg < 0 then Returns (Inl (Errno (last_os_error L)), [])
      else if nl_wait_for_ack L msg < 0 then Returns (Inl (Errno (last_os_error L)), [msg])
      else Returns (Inr (), [msg]))"

definition route_alloc :: "nl_lib \<Rightarrow> u16 \<Rightarrow> nl_msg outcome" where
  "route_alloc L cmd = (case unl_rtnl_msg L cmd of None \<Rightarrow> Panics | Some msg \<Rightarrow> Returns msg)"

definition route_send :: "nl_lib \<Rightarrow> nl_msg \<Rightarrow> unit nl_result" where
  "route_send L msg =
     (if nl_send_auto_complete L msg < 0 then Returns (Inl (Errno (last_os_error L)), [])
      else if nl_wait_for_ack L msg < 0 then Returns (Inl (Errno (last_os_error L)), [msg])
      else Returns (Inr (), [msg]))"

text \<open>The three modules repeat these functions.\<close>

lemma repeated_functions [simp]:
  "addr_ifindex L = ifindex L" "route_ifindex L = ifindex L" "route_alloc L = plain_alloc L" "route_send L = plain_send L"
  "RtnlAddr_new L = RtnlLink_new L" "RtnlRoute_new L = RtnlLink_new L"
  by (rule ext, simp add: addr_ifindex_def route_ifindex_def ifindex_def route_alloc_def plain_alloc_def route_send_def
      plain_send_def RtnlAddr_new_def RtnlRoute_new_def RtnlLink_new_def)+
    (simp_all add: RtnlAddr_new_def RtnlRoute_new_def RtnlLink_new_def)

definition addr_add_del :: "nl_lib \<Rightarrow> u16 \<Rightarrow> string \<Rightarrow> bytes \<Rightarrow> byte \<Rightarrow> unit nl_result" where
  "addr_add_del L cmd iface addr prefix_len =
     bind_outcome (addr_ifindex L iface) (\<lambda>r.
       case r of
         Inl e \<Rightarrow> Returns (Inl e, [])
       | Inr idx \<Rightarrow>
           bind_outcome (plain_alloc L cmd) (\<lambda>msg.
             case msg_append L msg ([AF_INET, prefix_len, 0, 0] @ ne32 (nl_le L) idx) of
               (Inl e, _) \<Rightarrow> Returns (Inl e, [])
             | (Inr _, msg) \<Rightarrow>
                 (let msg = snd (attr_put L msg IFA_LOCAL addr);
                      msg = snd (attr_put L msg IFA_ADDRESS addr)
                  in plain_send L msg)))"

definition addr_add_v4 :: "nl_lib \<Rightarrow> string \<Rightarrow> bytes \<Rightarrow> byte \<Rightarrow> unit nl_result" where
  "addr_add_v4 L iface addr prefix_len = addr_add_del L RTM_NEWADDR iface addr prefix_len"

definition addr_del_v4 :: "nl_lib \<Rightarrow> string \<Rightarrow> bytes \<Rightarrow> byte \<Rightarrow> unit nl_result" where
  "addr_del_v4 L iface addr prefix_len = addr_add_del L RTM_DELADDR iface addr prefix_len"

text \<open>The \<open>rtmsg\<close> of a route: family and prefix length, everything else zero.\<close>

definition rtmsg_bytes :: "bool \<Rightarrow> byte \<Rightarrow> bytes" where
  "rtmsg_bytes le prefix_len = [AF_INET, prefix_len, 0, 0, 0, 0, 0, 0] @ ne32 le 0"

definition route_add_del ::
  "nl_lib \<Rightarrow> u16 \<Rightarrow> bytes \<Rightarrow> byte \<Rightarrow> bytes option \<Rightarrow> string \<Rightarrow> unit nl_result" where
  "route_add_del L cmd dst prefix_len gateway oif =
     bind_outcome (route_ifindex L oif) (\<lambda>r.
       case r of
         Inl e \<Rightarrow> Returns (Inl e, [])
       | Inr idx \<Rightarrow>
           bind_outcome (route_alloc L cmd) (\<lambda>msg.
             case msg_append L msg (rtmsg_bytes (nl_le L) prefix_len) of
               (Inl e, _) \<Rightarrow> Returns (Inl e, [])
             | (Inr _, msg) \<Rightarrow>
                 (let msg = snd (attr_put L msg RTA_DST dst);
                      msg = (case gateway of None \<Rightarrow> msg | Some gw \<Rightarrow> snd (attr_put L msg RTA_GATEWAY gw));
                      msg = snd (put_u32 L msg RTA_OIF idx)
                  in route_send L msg)))"

definition route_add_v4 :: "nl_lib \<Rightarrow> bytes \<Rightarrow> byte \<Rightarrow> bytes option \<Rightarrow> string \<Rightarrow> unit nl_result" where
  "route_add_v4 L dst prefix_len gateway oif = route_add_del L RTM_NEWROUTE dst prefix_len gateway oif"

definition route_del_v4 :: "nl_lib \<Rightarrow> bytes \<Rightarrow> byte \<Rightarrow> bytes option \<Rightarrow> string \<Rightarrow> unit nl_result" where
  "route_del_v4 L dst prefix_len gateway oif = route_add_del L RTM_DELROUTE dst prefix_len gateway oif"

end
