(* ===== verification/NetlinkProps.thy ===== *)
theory NetlinkProps
  imports Netlink
begin

text \<open>
  What the netlink library promises over the documented behaviour of \<open>libnl-tiny\<close>
  (locale \<open>libnl\<close>): the tree of attributes a message carries, the bytes of the requests,
  reading back what was written, and the walk over untrusted bytes.  \<open>buffer_lib\<close> is the
  library with message buffers of a given size and any answers of the kernel; the locale is interpreted on it.
\<close>

lemma length_bytes_of_str [simp]: "length (bytes_of_str s) = length s"
  by (simp add: bytes_of_str_def)

lemma length_show_radix: "2 \<le> radix \<Longrightarrow> n < radix ^ Suc k \<Longrightarrow> length (show_radix radix n) \<le> Suc k"
proof (induction k arbitrary: n)
  case (Suc k)
  then have "n div radix < radix ^ Suc k"
    by (intro less_mult_imp_div_less) (simp add: mult.commute)
  with Suc.IH [OF Suc.prems(1) this] show ?case
    by (subst show_radix.simps) simp
qed (simp add: show_radix.simps)

lemma show_nat_u16: "length (show_nat (unat (w :: u16))) \<le> 5" "CHR 0x00 \<notin> set (show_nat n)"
proof -
  have "unat w < 2 ^ 16"
    using unsigned_less [of w] by simp
  then show "length (show_nat (unat w)) \<le> 5"
    using length_show_radix [of 10 "unat w" 4] by (simp add: show_nat_def)
  show "CHR 0x00 \<notin> set (show_nat n)"
    using show_nat_solid(1) [of "CHR 0x00" n] by (auto simp: solid_def)
qed

lemma nul_free_bytes: "CHR 0x00 \<notin> set s \<Longrightarrow> \<forall>b\<in>set (bytes_of_str s). b \<noteq> 0"
proof (clarsimp simp: bytes_of_str_def)
  fix c
  assume "CHR 0x00 \<notin> set s" "c \<in> set s" "(of_nat (of_char c) :: byte) = 0"
  then show False
    using char_of_byte [of c] by (simp add: char_of_def)
qed

lemma zero_fields: "ne16 le 0 = [0, 0]" "ne32 le 0 = [0, 0, 0, 0]"
  by (simp_all add: ne16_def ne32_def to_be16_def to_le16_def to_be32_def to_le32_def)

section \<open>The attribute format\<close>

definition nla_bytes :: "bool \<Rightarrow> u32 \<Rightarrow> bytes \<Rightarrow> bytes" where
  "nla_bytes le t data =
     ne16 le (of_nat (4 + length data)) @ ne16 le (ucast t) @ data @
     replicate (nla_align (length data) - length data) 0"

datatype nl_attr = Attr u32 bytes | Nested u32 "nl_attr list"

fun attr_bytes :: "bool \<Rightarrow> nl_attr \<Rightarrow> bytes"
  and attrs_bytes :: "bool \<Rightarrow> nl_attr list \<Rightarrow> bytes" where
  "attr_bytes le (Attr t data) = nla_bytes le t data"
| "attr_bytes le (Nested t as) = nla_bytes le (or t NLA_F_NESTED) (attrs_bytes le as)"
| "attrs_bytes le [] = []"
| "attrs_bytes le (a # as) = attr_bytes le a @ attrs_bytes le as"

lemma align_Suc4: "nla_align (4 + n) = 4 + nla_align n"
  unfolding align_defs by presburger

lemma align_wf: "n mod 4 = 0 \<Longrightarrow> nlmsg_align n = n" "nla_align 0 = 0"
  by (simp_all add: align_props(4,5))

lemma length_nla_bytes: "length (nla_bytes le t data) = 4 + nla_align (length data)"
  using align_props(1) [of "length data"] by (simp add: nla_bytes_def)

lemma attr_bytes_aligned: "length (attr_bytes le a) mod 4 = 0" "length (attrs_bytes le as) mod 4 = 0"
  by (induction le a and le as rule: attr_bytes_attrs_bytes.induct)
     (simp_all add: length_nla_bytes align_props(3) mod_add_right_eq [symmetric, of 4] mod_add_eq [symmetric])

lemma attrs_bytes_append: "attrs_bytes le (as @ bs) = attrs_bytes le as @ attrs_bytes le bs"
  by (induction as) simp_all

section \<open>The C library's contract\<close>

definition nl_wf :: "nl_msg \<Rightarrow> bool" where
  "nl_wf msg \<longleftrightarrow> nm_len msg = length (nm_buf msg) \<and> nm_len msg mod 4 = 0"

definition nl_extend :: "nl_msg \<Rightarrow> bytes \<Rightarrow> nl_msg" where
  "nl_extend msg bs = msg\<lparr>nm_len := nm_len msg + length bs, nm_buf := nm_buf msg @ bs\<rparr>"

lemma nl_extend_simps [simp]:
  "nm_len (nl_extend msg bs) = nm_len msg + length bs" "nm_buf (nl_extend msg bs) = nm_buf msg @ bs"
  "nm_type (nl_extend msg bs) = nm_type msg" "nm_flags (nl_extend msg bs) = nm_flags msg"
  "nl_extend (nl_extend msg bs) cs = nl_extend msg (bs @ cs)" "nl_extend msg [] = msg"
  by (simp_all add: nl_extend_def)

lemma nl_wf_extend: "nl_wf msg \<Longrightarrow> length bs mod 4 = 0 \<Longrightarrow> nl_wf (nl_extend msg bs)"
  by (auto simp: nl_wf_def mod_add_eq [symmetric])

definition vlan_tree :: "bool \<Rightarrow> string \<Rightarrow> u32 \<Rightarrow> u16 \<Rightarrow> nl_attr list" where
  "vlan_tree le name idx vid =
     [Attr IFLA_IFNAME (bytes_of_str name @ [0]), Attr IFLA_LINK (ne32 le idx),
      Nested IFLA_LINKINFO
        [Attr IFLA_INFO_KIND (bytes_of_str ''vlan'' @ [0]),
         Nested IFLA_INFO_DATA [Attr IFLA_VLAN_ID (ne16 le vid)]]]"

definition items_bytes :: "bool \<Rightarrow> (u32 \<times> bytes) list \<Rightarrow> bytes" where
  "items_bytes le items = concat (map (\<lambda>(t, d). nla_bytes le t d) items)"

locale libnl =
  fixes L :: nl_lib and cap :: nat
  assumes put_room: "nl_wf msg \<Longrightarrow> length data < 65532 \<Longrightarrow> nm_len msg + 4 + nla_align (length data) \<le> cap \<Longrightarrow>
      nla_put L msg t data = (0, nl_extend msg (nla_bytes (nl_le L) t data))"
    and put_fails: "fst (nla_put L msg t data) < 0 \<Longrightarrow> snd (nla_put L msg t data) = msg"
    and append_room: "nl_wf msg \<Longrightarrow> length data mod 4 = 0 \<Longrightarrow> nm_len msg + length data \<le> cap \<Longrightarrow>
      nlmsg_append L msg data = (0, nl_extend msg data)"
    and ok_iff: "nla_ok L p r \<longleftrightarrow> 4 \<le> r \<and> 4 \<le> nla_len L p \<and> int (nla_len L p) \<le> r"
    and rtnl_msg: "unl_rtnl_msg L cmd = Some msg \<Longrightarrow>
      nl_wf msg \<and> nm_len msg = 16 \<and> nm_type msg = cmd \<and> nm_flags msg = 0"
begin

lemma put_attr:
  "nl_wf msg \<Longrightarrow> length data < 65532 \<Longrightarrow> nm_len msg + 4 + nla_align (length data) \<le> cap \<Longrightarrow>
   attr_put L msg t data = (0, nl_extend msg (attr_bytes (nl_le L) (Attr t data)))"
  by (simp add: attr_put_def put_room)

lemma nest_start_room:
  assumes "nl_wf msg" and "nm_len msg + 4 \<le> cap"
  shows "nest_start L msg t = (Some (nm_len msg), nl_extend msg (nla_bytes (nl_le L) (or t NLA_F_NESTED) []))"
proof -
  have "nlmsg_align (nm_len msg) = nm_len msg"
    using assms(1) by (intro align_wf(1)) (auto simp: nl_wf_def)
  then show ?thesis
    using assms put_room [OF assms(1), of "[]" "or t NLA_F_NESTED"] by (simp add: nest_start_def align_wf(2))
qed

lemma nest_end_closes:
  assumes "nl_wf msg" and "length body mod 4 = 0"
  shows "nest_end L (nl_extend msg (nla_bytes (nl_le L) t [] @ body)) (nm_len msg) =
    nl_extend msg (nla_bytes (nl_le L) t body)"
proof -
  let ?n = "nm_len msg + (4 + length body)"
  have "?n mod 4 = 0"
    using assms by (auto simp: nl_wf_def mod_add_eq [symmetric])
  then have n: "nlmsg_align ?n = ?n"
    by (rule align_wf)
  have tail: "nm_len (nl_extend msg (nla_bytes (nl_le L) t [] @ body)) = ?n"
    by (simp add: length_nla_bytes align_wf(2))
  have b: "nla_align (length body) = length body"
    using assms(2) by (rule align_props(4))
  have "nest_end L (nl_extend msg (nla_bytes (nl_le L) t [] @ body)) (nm_len msg) =
    (nl_extend msg (nla_bytes (nl_le L) t [] @ body))\<lparr>nm_buf :=
       overwrite (length (nm_buf msg)) (ne16 (nl_le L) (of_nat (4 + length body)))
         (nm_buf msg @ (ne16 (nl_le L) 4 @ ne16 (nl_le L) (ucast t) @ body))\<rparr>"
    using assms(1) unfolding nest_end_def Let_def tail n
    by (simp add: nl_wf_def nla_bytes_def align_wf(2))
  also have "\<dots> = nl_extend msg (nla_bytes (nl_le L) t body)"
    using b by (simp add: overwrite_skip nl_extend_def nla_bytes_def align_wf(2) overwrite_here(1))
  finally show ?thesis .
qed

lemma put_string_attr:
  "nl_wf msg \<Longrightarrow> CHR 0x00 \<notin> set s \<Longrightarrow> length s < 65531 \<Longrightarrow>
   nm_len msg + 4 + nla_align (length s + 1) \<le> cap \<Longrightarrow>
   put_string L msg t s = (0, nl_extend msg (attr_bytes (nl_le L) (Attr t (bytes_of_str s @ [0]))))"
  using put_attr [of msg "bytes_of_str s @ [0]" t] by (simp add: put_string_def)

lemma vlan_attrs_room:
  assumes wf: "nl_wf msg" and name: "CHR 0x00 \<notin> set name" "length name < 65531"
    and room: "nm_len msg + nla_align (length name + 1) + 40 \<le> cap"
  shows "vlan_attrs L msg name idx vid =
    Inr (nl_extend msg (attrs_bytes (nl_le L) (vlan_tree (nl_le L) name idx vid)))"
proof -
  define le where "le = nl_le L"
  define a where "a = attr_bytes le (Attr IFLA_IFNAME (bytes_of_str name @ [0]))"
  define b where "b = attr_bytes le (Attr IFLA_LINK (ne32 le idx))"
  define h1 where "h1 = nla_bytes le (or IFLA_LINKINFO NLA_F_NESTED) []"
  define k where "k = attr_bytes le (Attr IFLA_INFO_KIND (bytes_of_str ''vlan'' @ [0]))"
  define h2 where "h2 = nla_bytes le (or IFLA_INFO_DATA NLA_F_NESTED) []"
  define v where "v = attr_bytes le (Attr IFLA_VLAN_ID (ne16 le vid))"
  define d where "d = nla_bytes le (or IFLA_INFO_DATA NLA_F_NESTED) v"
  define n where "n = nla_align (length name + 1)"
  note defs = a_def b_def h1_def k_def h2_def v_def
  have len: "length a = 4 + n" "length b = 8" "length h1 = 4" "length k = 12" "length h2 = 4" "length v = 8"
    by (simp_all add: defs n_def length_nla_bytes bytes_of_str_def)
       (simp_all add: align_defs)
  have al: "n mod 4 = 0"
    unfolding n_def by (rule align_props(3))
  have W: "nl_wf (nl_extend msg (concat xs))" if "\<forall>x\<in>set xs. length x mod 4 = 0" for xs
    using that by (induction xs rule: rev_induct) (simp_all add: wf nl_wf_extend flip: nl_extend_simps(5))
  have ld: "length d = 12"
    by (simp add: d_def length_nla_bytes len align_defs)
  have ml: "length a mod 4 = 0" "length b mod 4 = 0" "length h1 mod 4 = 0" "length k mod 4 = 0" "length h2 mod 4 = 0"
      "length v mod 4 = 0" "length d mod 4 = 0"
    by (simp_all add: len al ld)
  have W1: "nl_wf (nl_extend msg a)" "nl_wf (nl_extend msg (a @ b))" "nl_wf (nl_extend msg (a @ b @ h1))"
    "nl_wf (nl_extend msg (a @ b @ h1 @ k))" "nl_wf (nl_extend msg (a @ b @ h1 @ k @ h2))"
    using W [of "[a]"] W [of "[a, b]"] W [of "[a, b, h1]"] W [of "[a, b, h1, k]"] W [of "[a, b, h1, k, h2]"] ml
    by simp_all
  have s1: "put_string L msg IFLA_IFNAME name = (0, nl_extend msg a)"
    using name room wf put_string_attr [of msg name IFLA_IFNAME] by (simp add: a_def le_def)
  have s2: "put_u32 L (nl_extend msg a) IFLA_LINK idx = (0, nl_extend msg (a @ b))"
    using room W1(1) put_attr [of "nl_extend msg a" "ne32 le idx" IFLA_LINK]
    by (simp add: put_u32_def b_def le_def len n_def align_props(4))
  have s3: "nest_start L (nl_extend msg (a @ b)) IFLA_LINKINFO =
      (Some (nm_len msg + n + 12), nl_extend msg (a @ b @ h1))"
    using room W1(2) nest_start_room [of "nl_extend msg (a @ b)" IFLA_LINKINFO]
    by (simp add: h1_def le_def len n_def)
  have s4: "put_string L (nl_extend msg (a @ b @ h1)) IFLA_INFO_KIND ''vlan'' = (0, nl_extend msg (a @ b @ h1 @ k))"
    using room W1(3) put_string_attr [of "nl_extend msg (a @ b @ h1)" "''vlan''" IFLA_INFO_KIND]
    by (simp add: k_def le_def len n_def align_defs)
  have s5: "nest_start L (nl_extend msg (a @ b @ h1 @ k)) IFLA_INFO_DATA =
      (Some (nm_len msg + n + 28), nl_extend msg (a @ b @ h1 @ k @ h2))"
    using room W1(4) nest_start_room [of "nl_extend msg (a @ b @ h1 @ k)" IFLA_INFO_DATA]
    by (simp add: h2_def le_def len n_def)
  have s6: "put_u16 L (nl_extend msg (a @ b @ h1 @ k @ h2)) IFLA_VLAN_ID vid =
      (0, nl_extend msg (a @ b @ h1 @ k @ h2 @ v))"
    using room W1(5) put_attr [of "nl_extend msg (a @ b @ h1 @ k @ h2)" "ne16 le vid" IFLA_VLAN_ID]
    by (simp add: put_u16_def v_def le_def len n_def align_defs)
  have s7: "nest_end L (nl_extend msg (a @ b @ h1 @ k @ h2 @ v)) (nm_len msg + n + 28) =
      nl_extend msg (a @ b @ h1 @ k @ d)"
    using W1(4) ml nest_end_closes [of "nl_extend msg (a @ b @ h1 @ k)" v "or IFLA_INFO_DATA NLA_F_NESTED"]
    by (simp add: h2_def [symmetric, unfolded le_def] d_def le_def len n_def ac_simps)
  have s8: "nest_end L (nl_extend msg (a @ b @ h1 @ k @ d)) (nm_len msg + n + 12) =
      nl_extend msg (a @ b @ nla_bytes le (or IFLA_LINKINFO NLA_F_NESTED) (k @ d))"
    using W1(2) ml nest_end_closes [of "nl_extend msg (a @ b)" "k @ d" "or IFLA_LINKINFO NLA_F_NESTED"]
    by (simp add: h1_def [symmetric, unfolded le_def] le_def len ld n_def ac_simps)
  have tree: "attrs_bytes le (vlan_tree le name idx vid) =
      a @ b @ nla_bytes le (or IFLA_LINKINFO NLA_F_NESTED) (k @ d)"
    by (simp add: vlan_tree_def a_def b_def k_def d_def v_def)
  show ?thesis
    unfolding le_def [symmetric] tree by (simp add: vlan_attrs_def s1 s2 s3 s4 s5 s6 s7 s8)
qed

lemma attr_header:
  assumes "length data < 65532"
  shows "nla_len L (nla_bytes (nl_le L) t data @ rest) = 4 + length data"
    and "payload_len L (nla_bytes (nl_le L) t data @ rest) = Some (length data)"
    and "nla_type L (nla_bytes (nl_le L) t data @ rest) = ucast t"
proof -
  have "unat (of_nat (4 + length data) :: u16) = 4 + length data"
    using assms(1) by (simp only: unsigned_of_nat) (simp add: take_bit_nat_eq_self)
  then show "nla_len L (nla_bytes (nl_le L) t data @ rest) = 4 + length data"
    by (simp add: nla_len_def nla_bytes_def subslice_append_left subslice_whole ne16.dec_enc)
  then show "payload_len L (nla_bytes (nl_le L) t data @ rest) = Some (length data)"
    by (simp add: payload_len_def NLA_HDRLEN_def)
  show "nla_type L (nla_bytes (nl_le L) t data @ rest) = ucast t"
    by (simp add: nla_type_def nla_bytes_def subslice_def ne16.dec_enc)
qed

lemma next_attr:
  "length data < 65532 \<Longrightarrow> int (4 + length data) \<le> r \<Longrightarrow>
   nla_next L \<lparr>it_ptr = nla_bytes (nl_le L) t data @ rest, it_remaining = r\<rparr> =
     Some (nla_bytes (nl_le L) t data @ rest,
       \<lparr>it_ptr = rest, it_remaining = r - int (length (nla_bytes (nl_le L) t data))\<rparr>)"
  by (simp add: attr_header nla_next_def ok_iff Let_def align_Suc4 length_nla_bytes)

lemma attr_payload_at: "n = length data \<Longrightarrow> subslice NLA_HDRLEN n (nla_bytes le t data @ rest) = data"
  by (simp add: nla_bytes_def subslice_def NLA_HDRLEN_def)

lemma getters_read:
  assumes "length s < 65531" and "CHR 0x00 \<notin> set s" and "utf8_valid (bytes_of_str s)"
  shows "get_u16 L (nla_bytes (nl_le L) t (ne16 (nl_le L) w) @ rest) = Some w"
    and "get_u32 L (nla_bytes (nl_le L) t (ne32 (nl_le L) w') @ rest) = Some w'"
    and "get_u64 L (nla_bytes (nl_le L) t (ne64 (nl_le L) w'') @ rest) = Some w''"
    and "get_string L (nla_bytes (nl_le L) t (bytes_of_str s @ [0]) @ rest) = Some s"
proof -
  have nz: "takeWhile (\<lambda>b. b \<noteq> 0) (bytes_of_str s @ [0]) = bytes_of_str s"
    using nul_free_bytes [OF assms(2)] by (simp add: takeWhile_tail)
  show "get_string L (nla_bytes (nl_le L) t (bytes_of_str s @ [0]) @ rest) = Some s"
    using assms by (simp add: get_string_def attr_header(2) attr_payload_at nz Let_def str_of_bytes_of_str)
qed (simp_all add: get_u16_def get_u32_def get_u64_def attr_header(2) attr_payload_at ne16.dec_enc ne32.dec_enc ne64_read)

lemma collect_items:
  assumes "\<forall>(t, d)\<in>set items. length d < 65532"
  shows "\<exists>attrs. nla_collect L \<lparr>it_ptr = items_bytes (nl_le L) items @ rest,
      it_remaining = int (length (items_bytes (nl_le L) items))\<rparr> = Some attrs \<and>
    list_all2 (\<lambda>a (t, d). \<exists>rest. a = nla_bytes (nl_le L) t d @ rest) attrs items"
  using assms
proof (induction items)
  case Nil
  then show ?case
    by (simp add: nla_collect.simps nla_next_def items_bytes_def)
next
  case (Cons td items)
  obtain t d where td: "td = (t, d)" "length d < 65532"
    using Cons.prems by (cases td) auto
  from Cons obtain attrs where attrs: "nla_collect L \<lparr>it_ptr = items_bytes (nl_le L) items @ rest,
      it_remaining = int (length (items_bytes (nl_le L) items))\<rparr> = Some attrs"
    "list_all2 (\<lambda>a (t, d). \<exists>rest. a = nla_bytes (nl_le L) t d @ rest) attrs items"
    by auto
  then show ?case
    using td next_attr [OF td(2), of "int (length (items_bytes (nl_le L) (td # items)))" t
        "items_bytes (nl_le L) items @ rest"]
      align_props(1) [of "length d"]
    by (subst nla_collect.simps) (auto simp add: items_bytes_def length_nla_bytes)
qed

lemma collect_bounded:
  assumes "nat r \<le> length bs"
  shows "\<exists>attrs. nla_collect L \<lparr>it_ptr = bs, it_remaining = r\<rparr> = Some attrs \<and> 4 * length attrs \<le> nat r \<and>
    (\<forall>a\<in>set attrs. \<exists>off. off mod 4 = 0 \<and> a = drop off bs \<and> 4 \<le> nla_len L a \<and> off + nla_len L a \<le> nat r)"
  using assms
proof (induction "nat r" arbitrary: r bs rule: less_induct)
  case less
  let ?it = "\<lparr>it_ptr = bs, it_remaining = r\<rparr>"
  let ?total = "nla_align (nla_len L bs)"
  show ?case
  proof (cases "0 < r \<and> nla_ok L bs r")
    case False
    then have "nla_next L ?it = None"
      by (auto simp: nla_next_def)
    then show ?thesis
      by (subst nla_collect.simps) simp
  next
    case True
    let ?r = "r - int ?total"
    have ok: "4 \<le> r" "4 \<le> nla_len L bs" "int (nla_len L bs) \<le> r"
      using True by (auto simp: ok_iff)
    have total: "nla_len L bs \<le> ?total" "?total mod 4 = 0"
      by (rule align_props)+
    have "nat ?r < nat r" "nat ?r \<le> length (drop ?total bs)"
      using ok total less.prems by auto
    from less.hyps [OF this] obtain attrs where attrs:
      "nla_collect L \<lparr>it_ptr = drop ?total bs, it_remaining = ?r\<rparr> = Some attrs" "4 * length attrs \<le> nat ?r"
      "\<forall>a\<in>set attrs. \<exists>off. off mod 4 = 0 \<and> a = drop off (drop ?total bs) \<and> 4 \<le> nla_len L a \<and>
        off + nla_len L a \<le> nat ?r"
      by blast
    have "nla_next L ?it = Some (bs, \<lparr>it_ptr = drop ?total bs, it_remaining = ?r\<rparr>)"
      using True by (simp add: nla_next_def Let_def)
    then have "nla_collect L ?it = Some (bs # attrs)"
      using attrs(1) by (subst nla_collect.simps) simp
    moreover have "4 * length (bs # attrs) \<le> nat r"
      using attrs(2) ok total(1) by auto
    moreover have "\<exists>off. off mod 4 = 0 \<and> a = drop off bs \<and> 4 \<le> nla_len L a \<and> off + nla_len L a \<le> nat r"
      if "a \<in> set attrs" for a
    proof -
      note here = bspec [OF attrs(3) that]
      obtain off :: nat where off: "off mod 4 = 0" "a = drop off (drop ?total bs)" "4 \<le> nla_len L a"
        "off + nla_len L a \<le> nat ?r"
        using here by (elim exE conjE) (rule that)
      then have "(off + ?total) mod 4 = 0" "off + ?total + nla_len L a \<le> nat r"
        using total(2) by (auto simp: mod_add_eq [symmetric])
      with off(2,3) show ?thesis
        by (intro exI [of _ "off + ?total"]) (simp add: add.commute)
    qed
    moreover have "\<exists>off. off mod 4 = 0 \<and> bs = drop off bs \<and> 4 \<le> nla_len L bs \<and> off + nla_len L bs \<le> nat r"
      using ok by (intro exI [of _ 0]) auto
    ultimately show ?thesis
      by simp
  qed
qed

lemma add_vlan_request:
  assumes "CHR 0x00 \<notin> set parent" and "if_nametoindex L parent = idx" and "idx \<noteq> 0"
    and msg: "unl_rtnl_msg L RTM_NEWLINK = Some msg"
    and room: "length parent + 100 \<le> cap" "length parent < 65000"
  shows "add_vlan L parent vid =
    link_send L
      (nl_extend (msg\<lparr>nm_flags := 0x605\<rparr>)
        (build_ifi (nl_le L) 0 0 0 @ attrs_bytes (nl_le L) (vlan_tree (nl_le L) (link_vlan_name parent vid) idx vid)))
      (link_vlan_name parent vid)"
proof -
  let ?name = "link_vlan_name parent vid"
  let ?msg = "msg\<lparr>nm_flags := 0x605\<rparr>"
  let ?ifi = "build_ifi (nl_le L) 0 0 0"
  have name: "length ?name \<le> length parent + 6" "CHR 0x00 \<notin> set ?name"
    using assms(1) show_nat_u16(1) [of vid] show_nat_u16(2) [of "unat vid"] by (auto simp: link_vlan_name_def)
  have wf: "nl_wf ?msg" "nm_len ?msg = 16"
    using rtnl_msg [OF msg] by (auto simp: nl_wf_def)
  have ifi: "length ?ifi = 16"
    by (simp add: build_ifi_def)
  have app: "msg_append L ?msg ?ifi = (Inr (), nl_extend ?msg ?ifi)"
    using append_room [OF wf(1), of ?ifi] wf(2) ifi room by (simp add: msg_append_def)
  have "vlan_attrs L (nl_extend ?msg ?ifi) ?name idx vid =
      Inr (nl_extend (nl_extend ?msg ?ifi) (attrs_bytes (nl_le L) (vlan_tree (nl_le L) ?name idx vid)))"
    using name wf ifi room align_props(2) [of "length ?name + 1"]
    by (intro vlan_attrs_room) (auto simp: nl_wf_extend)
  then show ?thesis
    using assms(1-3) app msg
    by (simp add: add_vlan_def with_index_def ifindex_def alloc_msg_def nl_consts Let_def)
qed

end

section \<open>A concrete library\<close>

text \<open>Messages in buffers of \<open>cap\<close> bytes; the kernel's answers are parameters.  The calls that no
  request makes always fail.\<close>

definition buffer_put :: "bool \<Rightarrow> nat \<Rightarrow> nl_msg \<Rightarrow> u32 \<Rightarrow> bytes \<Rightarrow> int \<times> nl_msg" where
  "buffer_put le cap msg t data =
     (if int (length data) < 65532 \<and> nm_len msg + 4 + nla_align (length data) \<le> cap
      then (0, nl_extend msg (nla_bytes le t data)) else (- 1, msg))"

definition buffer_append :: "nat \<Rightarrow> nl_msg \<Rightarrow> bytes \<Rightarrow> int \<times> nl_msg" where
  "buffer_append cap msg data = (if nm_len msg + length data \<le> cap then (0, nl_extend msg data) else (- 1, msg))"

definition buffer_ok :: "bool \<Rightarrow> bytes \<Rightarrow> int \<Rightarrow> bool" where
  "buffer_ok le p r =
     (let n = unat (from_ne16 le (subslice 0 2 p)) in 4 \<le> r \<and> 4 \<le> n \<and> int n \<le> r)"

definition buffer_lib ::
  "bool \<Rightarrow> nat \<Rightarrow> (string \<Rightarrow> u32) \<Rightarrow> (nl_msg \<Rightarrow> int) \<Rightarrow> (nl_msg \<Rightarrow> int) \<Rightarrow> int \<Rightarrow> nl_lib" where
  "buffer_lib le cap index sent ack errno =
     \<lparr>nl_le = le, nla_put = buffer_put le cap, nlmsg_append = buffer_append cap, nla_ok = buffer_ok le,
      nla_find = (\<lambda>_ _ _. None), nlmsg_alloc = None, nlmsg_alloc_simple = (\<lambda>_ _. None),
      nlmsg_reserve = (\<lambda>msg _ _. (None, msg)), unl_rtnl_init = 0,
      unl_rtnl_msg = (\<lambda>cmd. Some \<lparr>nm_type = cmd, nm_flags = 0, nm_len = 16, nm_buf = replicate 16 0\<rparr>),
      nl_send_auto_complete = sent, nl_wait_for_ack = ack, if_nametoindex = index, last_os_error = errno\<rparr>"

lemmas buffer_defs = buffer_lib_def buffer_put_def buffer_append_def buffer_ok_def

interpretation buffered: libnl "buffer_lib le cap index sent ack errno" cap for le cap index sent ack errno
  by unfold_locales (auto simp: buffer_defs nla_len_def nl_wf_def Let_def split: if_splits)

text \<open>One interface, and a kernel that accepts everything.\<close>

definition sample_lib :: "bool \<Rightarrow> nat \<Rightarrow> nl_lib" where
  "sample_lib le cap = buffer_lib le cap (\<lambda>name. if name = ''eth0'' then 2 else 0) (\<lambda>_. 0) (\<lambda>_. 0) 19"

section \<open>Properties\<close>

definition sub_attrs :: "nl_lib \<Rightarrow> bytes \<Rightarrow> bytes list option" where
  "sub_attrs L attr =
     (case payload_len L attr of None \<Rightarrow> None | Some n \<Rightarrow> nla_collect L (NlaIter_new (drop NLA_HDRLEN attr) n))"

text \<open>What a receiver that walks the attribute area of a link request with the library's own iterator and
  getters finds in it.\<close>

definition vlan_request_of ::
  "nl_lib \<Rightarrow> bytes \<Rightarrow> nat \<Rightarrow> (string option \<times> u32 option \<times> string option \<times> u16 option) option" where
  "vlan_request_of L bs n =
     (case nla_collect L (NlaIter_new bs n) of
        Some [name, link, info] \<Rightarrow>
          (case sub_attrs L info of
             Some [kind, data] \<Rightarrow>
               (case sub_attrs L data of
                  Some [vid] \<Rightarrow> Some (get_string L name, get_u32 L link, get_string L kind, get_u16 L vid)
                | _ \<Rightarrow> None)
           | _ \<Rightarrow> None)
      | _ \<Rightarrow> None)"

lemma NlaIter_new_small: "n < 2 ^ 31 \<Longrightarrow> NlaIter_new bs n = \<lparr>it_ptr = bs, it_remaining = int n\<rparr>"
proof -
  assume n: "n < 2 ^ 31"
  then have "take_bit 32 n = n"
    by (intro take_bit_nat_eq_self) simp
  then show ?thesis
    using n by (simp add: NlaIter_new_def sint_uint unsigned_of_nat signed_take_bit_int_eq_self)
qed

context libnl
begin

lemma collect_new:
  assumes "\<forall>(t, d)\<in>set items. length d < 65532" and "length (items_bytes (nl_le L) items) < 2 ^ 31"
  obtains attrs where
    "nla_collect L (NlaIter_new (items_bytes (nl_le L) items @ rest) (length (items_bytes (nl_le L) items))) = Some attrs"
    "list_all2 (\<lambda>a (t, d). \<exists>rest. a = nla_bytes (nl_le L) t d @ rest) attrs items"
  using collect_items [OF assms(1), of rest] that unfolding NlaIter_new_small [OF assms(2)] by blast

lemma sub_attrs_nested:
  assumes "\<forall>(t, d)\<in>set items. length d < 65532" and "length (items_bytes (nl_le L) items) < 65532"
  obtains attrs where
    "sub_attrs L (nla_bytes (nl_le L) t (items_bytes (nl_le L) items) @ rest) = Some attrs"
    "list_all2 (\<lambda>a (t, d). \<exists>rest. a = nla_bytes (nl_le L) t d @ rest) attrs items"
proof -
  let ?pad = "replicate (nla_align (length (items_bytes (nl_le L) items)) - length (items_bytes (nl_le L) items)) 0"
  have small: "length (items_bytes (nl_le L) items) < 2 ^ 31"
    using assms(2) by simp
  have sub: "sub_attrs L (nla_bytes (nl_le L) t (items_bytes (nl_le L) items) @ rest) =
      nla_collect L (NlaIter_new (items_bytes (nl_le L) items @ ?pad @ rest) (length (items_bytes (nl_le L) items)))"
    unfolding sub_attrs_def attr_header(2) [OF assms(2)] by (simp add: nla_bytes_def NLA_HDRLEN_def)
  show ?thesis
    by (rule collect_new [OF assms(1) small, of "?pad @ rest"]) (rule that, simp_all only: sub)
qed

lemma vlan_request_read:
  assumes "length name < 60000" and "CHR 0x00 \<notin> set name" and "utf8_valid (bytes_of_str name)"
  shows "vlan_request_of L (attrs_bytes (nl_le L) (vlan_tree (nl_le L) name idx vid))
      (length (attrs_bytes (nl_le L) (vlan_tree (nl_le L) name idx vid))) =
    Some (Some name, Some idx, Some ''vlan'', Some vid)"
proof -
  let ?le = "nl_le L"
  let ?v = "[(IFLA_VLAN_ID, ne16 ?le vid)]"
  let ?k = "[(IFLA_INFO_KIND, bytes_of_str ''vlan'' @ [0]), (or IFLA_INFO_DATA NLA_F_NESTED, items_bytes ?le ?v)]"
  let ?t = "[(IFLA_IFNAME, bytes_of_str name @ [0]), (IFLA_LINK, ne32 ?le idx),
    (or IFLA_LINKINFO NLA_F_NESTED, items_bytes ?le ?k)]"
  have tree: "attrs_bytes ?le (vlan_tree ?le name idx vid) = items_bytes ?le ?t"
    by (simp add: vlan_tree_def items_bytes_def)
  have len: "length (items_bytes ?le ?v) = 8" "length (items_bytes ?le ?k) = 24"
    by (simp_all add: items_bytes_def length_nla_bytes) (simp_all add: align_defs)
  have total: "length (items_bytes ?le ?t) < 2 ^ 31"
    using assms(1) len align_props(2) [of "length name + 1"]
    by (simp add: items_bytes_def length_nla_bytes) (simp add: align_defs)
  obtain as where as: "nla_collect L (NlaIter_new (items_bytes ?le ?t) (length (items_bytes ?le ?t))) = Some as"
      "list_all2 (\<lambda>a (t, d). \<exists>rest. a = nla_bytes ?le t d @ rest) as ?t"
    using collect_new [OF _ total, of "[]"] assms(1) len by auto
  then obtain r1 r2 r3 where as': "as = [nla_bytes ?le IFLA_IFNAME (bytes_of_str name @ [0]) @ r1,
      nla_bytes ?le IFLA_LINK (ne32 ?le idx) @ r2,
      nla_bytes ?le (or IFLA_LINKINFO NLA_F_NESTED) (items_bytes ?le ?k) @ r3]"
    by (auto simp: list_all2_Cons2)
  obtain bs where bs: "sub_attrs L (nla_bytes ?le (or IFLA_LINKINFO NLA_F_NESTED) (items_bytes ?le ?k) @ r3) = Some bs"
      "list_all2 (\<lambda>a (t, d). \<exists>rest. a = nla_bytes ?le t d @ rest) bs ?k"
    using sub_attrs_nested [of ?k "or IFLA_LINKINFO NLA_F_NESTED" r3] len by auto
  then obtain r4 r5 where bs': "bs = [nla_bytes ?le IFLA_INFO_KIND (bytes_of_str ''vlan'' @ [0]) @ r4,
      nla_bytes ?le (or IFLA_INFO_DATA NLA_F_NESTED) (items_bytes ?le ?v) @ r5]"
    by (auto simp: list_all2_Cons2)
  obtain cs where cs: "sub_attrs L (nla_bytes ?le (or IFLA_INFO_DATA NLA_F_NESTED) (items_bytes ?le ?v) @ r5) = Some cs"
      "list_all2 (\<lambda>a (t, d). \<exists>rest. a = nla_bytes ?le t d @ rest) cs ?v"
    using sub_attrs_nested [of ?v "or IFLA_INFO_DATA NLA_F_NESTED" r5] len by auto
  then obtain r6 where cs': "cs = [nla_bytes ?le IFLA_VLAN_ID (ne16 ?le vid) @ r6]"
    by (auto simp: list_all2_Cons2)
  have kind: "utf8_valid (bytes_of_str ''vlan'')"
    by code_simp
  show ?thesis
    using assms as(1) bs(1) cs(1) unfolding tree as' bs' cs'
    by (simp add: vlan_request_of_def getters_read [where s = name] getters_read(4) [where s = "''vlan''", OF _ _ kind])
qed

lemma flags_request:
  assumes "unl_rtnl_msg L RTM_SETLINK = Some msg" and "32 \<le> cap"
  shows "set_flags L idx flags change =
    link_send L (nl_extend (msg\<lparr>nm_flags := 5\<rparr>) (build_ifi (nl_le L) idx flags change)) ()"
proof -
  have "length (build_ifi (nl_le L) idx flags change) = 16"
    by (simp add: build_ifi_def)
  moreover have "nl_wf (msg\<lparr>nm_flags := 5\<rparr>)" "nm_len (msg\<lparr>nm_flags := 5\<rparr>) = 16"
    using rtnl_msg [OF assms(1)] by (auto simp: nl_wf_def)
  ultimately have "msg_append L (msg\<lparr>nm_flags := 5\<rparr>) (build_ifi (nl_le L) idx flags change) =
      (Inr (), nl_extend (msg\<lparr>nm_flags := 5\<rparr>) (build_ifi (nl_le L) idx flags change))"
    using append_room [of "msg\<lparr>nm_flags := 5\<rparr>" "build_ifi (nl_le L) idx flags change"] assms(2)
    by (simp add: msg_append_def)
  then show ?thesis
    using assms(1) by (simp add: set_flags_def alloc_msg_def nl_consts)
qed

lemma route_request:
  assumes oif: "CHR 0x00 \<notin> set oif" "if_nametoindex L oif = idx" "idx \<noteq> 0"
    and msg: "unl_rtnl_msg L cmd = Some msg" and room: "60 \<le> cap"
    and octets: "length dst = 4" "length gw = 4"
  shows "route_add_del L cmd dst prefix_len (Some gw) oif =
    plain_send L (nl_extend msg (rtmsg_bytes (nl_le L) prefix_len @
      attrs_bytes (nl_le L) [Attr RTA_DST dst, Attr RTA_GATEWAY gw, Attr RTA_OIF (ne32 (nl_le L) idx)]))"
proof -
  let ?le = "nl_le L"
  define r where "r = rtmsg_bytes ?le prefix_len"
  define d where "d = nla_bytes ?le RTA_DST dst"
  define g where "g = nla_bytes ?le RTA_GATEWAY gw"
  have a4: "nla_align 4 = 4"
    by (simp add: align_defs)
  have len: "length r = 12" "length d = 8" "length g = 8"
    using octets by (simp_all add: r_def rtmsg_bytes_def d_def g_def length_nla_bytes a4)
  have wf: "nl_wf msg" "nm_len msg = 16"
    using rtnl_msg [OF msg] by auto
  then have W: "nl_wf (nl_extend msg r)" "nl_wf (nl_extend msg (r @ d))" "nl_wf (nl_extend msg (r @ d @ g))"
    by (simp_all add: nl_wf_extend len)
  have "msg_append L msg r = (Inr (), nl_extend msg r)"
    using append_room [OF wf(1), of r] wf(2) len room by (simp add: msg_append_def)
  moreover have "attr_put L (nl_extend msg r) RTA_DST dst = (0, nl_extend msg (r @ d))"
    using put_attr [OF W(1), of dst RTA_DST] wf(2) len room octets by (simp add: d_def a4)
  moreover have "attr_put L (nl_extend msg (r @ d)) RTA_GATEWAY gw = (0, nl_extend msg (r @ d @ g))"
    using put_attr [OF W(2), of gw RTA_GATEWAY] wf(2) len room octets by (simp add: g_def a4)
  moreover have "put_u32 L (nl_extend msg (r @ d @ g)) RTA_OIF idx =
      (0, nl_extend msg (r @ d @ g @ nla_bytes ?le RTA_OIF (ne32 ?le idx)))"
    using put_attr [OF W(3), of "ne32 ?le idx" RTA_OIF] wf(2) len room by (simp add: put_u32_def a4)
  ultimately show ?thesis
    using oif msg
    by (simp add: route_add_del_def with_index_def ifindex_def plain_alloc_def Let_def
        r_def rtmsg_bytes_def d_def g_def)
qed

lemma address_request:
  assumes iface: "CHR 0x00 \<notin> set iface" "if_nametoindex L iface = idx" "idx \<noteq> 0"
    and msg: "unl_rtnl_msg L cmd = Some msg" and room: "40 \<le> cap" and octets: "length addr = 4"
  shows "addr_add_del L cmd iface addr prefix_len =
    plain_send L (nl_extend msg ([AF_INET, prefix_len, 0, 0] @ ne32 (nl_le L) idx @
      attrs_bytes (nl_le L) [Attr IFA_LOCAL addr, Attr IFA_ADDRESS addr]))"
proof -
  let ?le = "nl_le L"
  define r where "r = [AF_INET, prefix_len, 0, 0] @ ne32 ?le idx"
  define d where "d = nla_bytes ?le IFA_LOCAL addr"
  have a4: "nla_align 4 = 4"
    by (simp add: align_defs)
  have len: "length r = 8" "length d = 8"
    using octets by (simp_all add: r_def d_def length_nla_bytes a4)
  have wf: "nl_wf msg" "nm_len msg = 16"
    using rtnl_msg [OF msg] by auto
  then have W: "nl_wf (nl_extend msg r)" "nl_wf (nl_extend msg (r @ d))"
    by (simp_all add: nl_wf_extend len)
  have "msg_append L msg r = (Inr (), nl_extend msg r)"
    using append_room [OF wf(1), of r] wf(2) len room by (simp add: msg_append_def)
  moreover have "attr_put L (nl_extend msg r) IFA_LOCAL addr = (0, nl_extend msg (r @ d))"
    using put_attr [OF W(1), of addr IFA_LOCAL] wf(2) len room octets by (simp add: d_def a4)
  moreover have "attr_put L (nl_extend msg (r @ d)) IFA_ADDRESS addr =
      (0, nl_extend msg (r @ d @ nla_bytes ?le IFA_ADDRESS addr))"
    using put_attr [OF W(2), of addr IFA_ADDRESS] wf(2) len room octets by (simp add: a4)
  ultimately show ?thesis
    using iface msg
    by (simp add: addr_add_del_def with_index_def ifindex_def plain_alloc_def Let_def r_def d_def)
qed

end

text \<open>A VLAN request says what was asked for.  With any C library that keeps its documented contract and
  has room for the message, \<open>add_vlan\<close> sends one \<open>RTM_NEWLINK\<close> message with the flags REQUEST, ACK, CREATE and
  EXCL, an empty \<open>ifinfomsg\<close> after the header, and attributes in which a receiver that walks
  them with the iterator and getters of this library finds the interface name \<open>parent.vid\<close>, the parent's index,
  the kind \<open>vlan\<close> and, two nests deep, the VLAN id.\<close>

lemma netlink_vlan_request:
  assumes "libnl L cap" and "CHR 0x00 \<notin> set parent" and "utf8_valid (bytes_of_str (link_vlan_name parent vid))"
    and "if_nametoindex L parent = idx" and "idx \<noteq> 0" and "unl_rtnl_msg L RTM_NEWLINK = Some msg"
    and "length parent + 100 \<le> cap" and "length parent < 50000"
  shows "\<exists>sent. add_vlan L parent vid = link_send L sent (link_vlan_name parent vid) \<and>
    nm_type sent = RTM_NEWLINK \<and>
    nm_flags sent = or (or NLM_F_REQUEST NLM_F_ACK) (or NLM_F_CREATE NLM_F_EXCL) \<and>
    nm_len sent = length (nm_buf sent) \<and> take 32 (nm_buf sent) = nm_buf msg @ replicate 16 0 \<and>
    vlan_request_of L (drop 32 (nm_buf sent)) (nm_len sent - 32) =
      Some (Some (link_vlan_name parent vid), Some idx, Some ''vlan'', Some vid)"
proof -
  let ?name = "link_vlan_name parent vid"
  let ?attrs = "attrs_bytes (nl_le L) (vlan_tree (nl_le L) ?name idx vid)"
  let ?ifi = "build_ifi (nl_le L) 0 0 0"
  let ?sent = "nl_extend (msg\<lparr>nm_flags := 0x605\<rparr>) (?ifi @ ?attrs)"
  have msg: "nm_type msg = RTM_NEWLINK" "nm_len msg = 16" "length (nm_buf msg) = 16"
    using libnl.rtnl_msg [OF assms(1,6)] by (auto simp: nl_wf_def)
  have ifi: "?ifi = replicate 16 0" "length ?ifi = 16"
    by (simp_all add: build_ifi_def zero_fields numeral_eq_Suc)
  have name: "length ?name < 60000" "CHR 0x00 \<notin> set ?name"
    using assms(2,8) show_nat_u16(1) [of vid] show_nat_u16(2) [of "unat vid"] by (auto simp: link_vlan_name_def)
  have "add_vlan L parent vid = link_send L ?sent ?name"
    using assms by (intro libnl.add_vlan_request [OF assms(1)]) auto
  moreover have "vlan_request_of L ?attrs (length ?attrs) = Some (Some ?name, Some idx, Some ''vlan'', Some vid)"
    using name assms(3) by (intro libnl.vlan_request_read [OF assms(1)])
  ultimately show ?thesis
    using msg ifi by (intro exI [of _ ?sent]) (simp add: nl_consts)
qed

lemma netlink_vlan_request_witness:
  "\<exists>sent. add_vlan (sample_lib False 200) ''eth0'' 35 = Returns (Inr ''eth0.35'', [sent]) \<and>
     vlan_request_of (sample_lib False 200) (drop 32 (nm_buf sent)) (nm_len sent - 32) =
       Some (Some ''eth0.35'', Some 2, Some ''vlan'', Some 35)"
proof -
  have name: "link_vlan_name ''eth0'' 35 = ''eth0.35''"
    by code_simp
  have utf8: "utf8_valid (bytes_of_str ''eth0.35'')"
    by code_simp
  show ?thesis
    using netlink_vlan_request [OF buffered.libnl_axioms, of "''eth0''" 35 False 200 "\<lambda>name. if name = ''eth0'' then 2 else 0" "\<lambda>_. 0" "\<lambda>_. 0" 19 2
        "\<lparr>nm_type = RTM_NEWLINK, nm_flags = 0, nm_len = 16, nm_buf = replicate 16 0\<rparr>"] utf8
    unfolding name by (auto simp: sample_lib_def buffer_lib_def link_send_def)
qed

text \<open>C32. The walk over attributes from the wire always ends and never leaves the buffer: whatever the
  bytes, iterating over the first \<open>n\<close> of them returns, with at most one attribute per four bytes, and
  each attribute returned starts at a multiple of four and ends, payload included, inside the \<open>n\<close> bytes.\<close>

theorem attr_walk_bounded:
  assumes "libnl L cap" and "n \<le> length bs" and "n < 2 ^ 31"
  shows "\<exists>attrs. nla_collect L (NlaIter_new bs n) = Some attrs \<and> 4 * length attrs \<le> n \<and>
    (\<forall>a\<in>set attrs. \<exists>off len. off mod 4 = 0 \<and> a = drop off bs \<and> payload_len L a = Some len \<and> off + 4 + len \<le> n)"
proof -
  from libnl.collect_bounded [OF assms(1), of "int n" bs] assms(2) NlaIter_new_small [OF assms(3)]
  obtain attrs where attrs: "nla_collect L (NlaIter_new bs n) = Some attrs" "4 * length attrs \<le> n"
    "\<forall>a\<in>set attrs. \<exists>off. off mod 4 = 0 \<and> a = drop off bs \<and> 4 \<le> nla_len L a \<and> off + nla_len L a \<le> n"
    by auto
  have "\<exists>off len. off mod 4 = 0 \<and> a = drop off bs \<and> payload_len L a = Some len \<and> off + 4 + len \<le> n"
    if off: "off mod 4 = 0 \<and> a = drop off bs \<and> 4 \<le> nla_len L a \<and> off + nla_len L a \<le> n" for off a
    using off by (rule_tac exI [of _ off], rule_tac exI [of _ "nla_len L a - 4"]) (auto simp: payload_len_def NLA_HDRLEN_def)
  with attrs show ?thesis
    by meson
qed

theorem attr_walk_bounded_witness:
  "\<exists>attrs. nla_collect (sample_lib True 200) (NlaIter_new [5, 0, 1, 0, 42, 0, 0, 0, 9, 0, 2, 0, 1] 13) = Some attrs \<and>
     attrs = [[5, 0, 1, 0, 42, 0, 0, 0, 9, 0, 2, 0, 1]] \<and> 4 * length attrs \<le> 13"
proof -
  let ?bs = "[5, 0, 1, 0, 42, 0, 0, 0, 9, 0, 2, 0, 1] :: bytes"
  have new: "NlaIter_new ?bs 13 = \<lparr>it_ptr = ?bs, it_remaining = 13\<rparr>"
    by (simp add: NlaIter_new_small)
  have "nla_next (sample_lib True 200) \<lparr>it_ptr = ?bs, it_remaining = 13\<rparr> =
      Some (?bs, \<lparr>it_ptr = [9, 0, 2, 0, 1], it_remaining = 5\<rparr>)"
    "nla_next (sample_lib True 200) \<lparr>it_ptr = [9, 0, 2, 0, 1], it_remaining = 5\<rparr> = None"
    by code_simp+
  then have "nla_collect (sample_lib True 200) (NlaIter_new ?bs 13) = Some [?bs]"
    unfolding new by (simp add: nla_collect.simps)
  moreover have "\<exists>attrs. nla_collect (sample_lib True 200) (NlaIter_new ?bs 13) = Some attrs \<and> 4 * length attrs \<le> 13"
    using attr_walk_bounded [OF buffered.libnl_axioms [where cap = 200], of 13 ?bs] unfolding sample_lib_def by fastforce
  ultimately show ?thesis
    by simp
qed

section \<open>Requests whose content is lost\<close>

text \<open>The results of the \<open>put\<close> calls are dropped: with a message buffer that is full after the two nests were
  opened, \<open>add_vlan\<close> reports success for a request that carries no VLAN id.\<close>

lemma vlan_id_lost:
  "add_vlan (sample_lib True 72) ''eth0'' 7 =
     Returns (Inr ''eth0.7'',
       [\<lparr>nm_type = RTM_NEWLINK, nm_flags = 0x605, nm_len = 72,
         nm_buf = replicate 32 0 @ attrs_bytes True
           [Attr IFLA_IFNAME (bytes_of_str ''eth0.7'' @ [0]), Attr IFLA_LINK [2, 0, 0, 0],
            Nested IFLA_LINKINFO [Attr IFLA_INFO_KIND (bytes_of_str ''vlan'' @ [0]), Nested IFLA_INFO_DATA []]]\<rparr>])"
  by code_simp

text \<open>A new route is requested with the flags the library put in the message, which are none: no REQUEST,
  no ACK and no CREATE.\<close>

lemma route_flags:
  assumes "libnl L cap" and "CHR 0x00 \<notin> set oif" and "if_nametoindex L oif \<noteq> 0"
    and "unl_rtnl_msg L RTM_NEWROUTE = Some msg" and "60 \<le> cap" and "length dst = 4" and "length gw = 4"
  shows "\<exists>sent. route_add_v4 L dst prefix_len (Some gw) oif = plain_send L sent \<and> nm_flags sent = 0"
  using libnl.route_request [OF assms(1,2) refl assms(3-7)] libnl.rtnl_msg [OF assms(1,4)]
  by (auto simp: route_add_v4_def)

end
