(* ===== verification/Capture.thy ===== *)
theory Capture
  imports AfPacket
begin

text \<open>
  Captures: the pcap writer (\<open>pcap.rs\<close>) and the sniffer of the selftest module
  (\<open>selftest.rs\<close>).  A file that is being written is its content so far and a parameter
  \<open>W\<close> that says what one \<open>write_all\<close> answers and leaves behind; \<open>good_file\<close> is the
  file on which writes succeed.  The endless loop of the sniffer is a fold over the answers of the
  socket.  \<open>read_capture\<close> reads a capture file back as the format is defined.
\<close>

section \<open>Capture files\<close>

definition PCAP_MAGIC :: u32 where "PCAP_MAGIC = 0xa1b2c3d4"
definition VERSION_MAJOR :: u16 where "VERSION_MAJOR = 2"
definition VERSION_MINOR :: u16 where "VERSION_MINOR = 4"
definition SNAPLEN :: u32 where "SNAPLEN = 65535"
definition LINKTYPE_ETHERNET :: u32 where "LINKTYPE_ETHERNET = 1"

type_synonym file_io = "bytes \<Rightarrow> bytes \<Rightarrow> io_error option \<times> bytes"

definition pcap_header :: bytes where
  "pcap_header =
     (let hdr = replicate 24 0;
          hdr = overwrite 0x00 (to_le32 PCAP_MAGIC) hdr;
          hdr = overwrite 0x04 (to_le16 VERSION_MAJOR) hdr;
          hdr = overwrite 0x06 (to_le16 VERSION_MINOR) hdr;
          hdr = overwrite 0x10 (to_le32 SNAPLEN) hdr
      in overwrite 0x14 (to_le32 LINKTYPE_ETHERNET) hdr)"

text \<open>\<open>opened\<close> is the answer of \<open>File::create\<close>.\<close>

definition pcap_create :: "file_io \<Rightarrow> (io_error + unit) \<Rightarrow> io_error + bytes" where
  "pcap_create W opened =
     (case opened of
        Inl e \<Rightarrow> Inl e
      | Inr _ \<Rightarrow> (case W [] pcap_header of (Some e, _) \<Rightarrow> Inl e | (None, file) \<Rightarrow> Inr file))"

text \<open>A time before the epoch has no duration since it; otherwise seconds and nanoseconds.\<close>

datatype sys_time = BeforeEpoch | SinceEpoch u64 u32

definition since_epoch :: "sys_time \<Rightarrow> u64 \<times> u32" where
  "since_epoch now = (case now of BeforeEpoch \<Rightarrow> (0, 0) | SinceEpoch secs nanos \<Rightarrow> (secs, nanos))"

definition pcap_record :: "sys_time \<Rightarrow> bytes \<Rightarrow> bytes" where
  "pcap_record now frame =
     (let (secs, nanos) = since_epoch now;
          ts_sec = ucast secs :: u32;
          ts_usec = nanos div 1000;
          len = of_nat (length frame) :: u32;
          rec = replicate 16 0;
          rec = overwrite 0x00 (to_le32 ts_sec) rec;
          rec = overwrite 0x04 (to_le32 ts_usec) rec;
          rec = overwrite 0x08 (to_le32 len) rec
      in overwrite 0x0c (to_le32 len) rec)"

definition pcap_write :: "file_io \<Rightarrow> bytes \<Rightarrow> sys_time \<Rightarrow> bytes \<Rightarrow> io_error option \<times> bytes" where
  "pcap_write W file now frame =
     (case W file (pcap_record now frame) of
        (Some e, file) \<Rightarrow> (Some e, file)
      | (None, file) \<Rightarrow> W file frame)"

section \<open>The sniffer\<close>

text \<open>\<open>chunks(n)\<close> of a slice.\<close>

function chunks :: "nat \<Rightarrow> 'a list \<Rightarrow> 'a list list" where
  "chunks n xs = (if xs = [] \<or> n = 0 then [] else take n xs # chunks n (drop n xs))"
  by auto
termination by (relation "measure (\<lambda>(n, xs). length xs)") auto

declare chunks.simps [simp del]

primrec join_with :: "string \<Rightarrow> string list \<Rightarrow> string" where
  "join_with sep [] = []"
| "join_with sep (s # ss) = (if ss = [] then s else s @ sep @ join_with sep ss)"

definition printable :: "byte \<Rightarrow> char" where
  "printable b = (if 32 \<le> b \<and> b \<le> 126 then char_of (unat b) else CHR ''.'')"

text \<open>One line of the dump: offset, the bytes in hexadecimal padded to 48 columns, the text.\<close>

definition dump_line :: "nat \<Rightarrow> bytes \<Rightarrow> string" where
  "dump_line off chunk =
     (let hex = join_with '' '' (map (hex_octet False) chunk);
          offset = [hex_digit False (off div 4096 mod 16), hex_digit False (off div 256 mod 16),
            hex_digit False (off div 16 mod 16), hex_digit False (off mod 16)]
      in ''  '' @ offset @ ''  '' @ hex @ replicate (48 - length hex) (CHR '' '') @ ''  '' @ map printable chunk)"

definition dump_lines :: "bytes \<Rightarrow> string list" where
  "dump_lines data =
     (let cs = chunks 16 (take (min (length data) 64) data)
      in map (\<lambda>(i, chunk). dump_line (16 * i) chunk) (enumerate 0 cs))"

datatype direction = Outgoing | Incoming | UnknownDirection

definition direction_of :: "byte \<Rightarrow> direction" where
  "direction_of pkt_type = (if pkt_type = 0 then Outgoing else if pkt_type = 1 then Incoming else UnknownDirection)"

text \<open>What the sniffer shows: the log line of a frame with its number, direction, ethertype, size and
  addresses, the lines of its dump, the errors.\<close>

datatype sniff_event =
    Seen u32 direction u16 nat bytes bytes
  | DumpLine string
  | RecvError io_error
  | PcapFailed io_error

record sniffer =
  sx_count :: u32
  sx_pcap :: "bytes option"
  sx_shown :: "sniff_event list"

definition show_event :: "sniff_event \<Rightarrow> sniffer \<Rightarrow> sniffer" where
  "show_event e st = st\<lparr>sx_shown := sx_shown st @ [e]\<rparr>"

text \<open>The filter on length and ethertype.\<close>

definition management :: "bytes \<Rightarrow> bool" where
  "management data =
     (if length data < 14 then False
      else let ethertype = from_be16 [data ! 12, data ! 13] in \<not> (ethertype \<noteq> 0x88B5 \<and> ethertype \<noteq> 0x88B6))"

definition sniff_packet :: "file_io \<Rightarrow> sys_time \<Rightarrow> bytes \<Rightarrow> byte \<Rightarrow> sniffer \<Rightarrow> sniffer" where
  "sniff_packet W now data pkt_type st =
     (if \<not> management data then st
      else
        let ethertype = from_be16 [data ! 12, data ! 13];
            count = sx_count st + 1;
            st = st\<lparr>sx_count := count\<rparr>;
            st = show_event (Seen count (direction_of pkt_type) ethertype (length data)
                   (subslice 0 6 data) (subslice 6 6 data)) st;
            st = st\<lparr>sx_shown := sx_shown st @ map DumpLine (dump_lines data)\<rparr>
        in (case sx_pcap st of
              None \<Rightarrow> st
            | Some file \<Rightarrow>
                (case pcap_write W file now data of
                   (None, file) \<Rightarrow> st\<lparr>sx_pcap := Some file\<rparr>
                 | (Some e, file) \<Rightarrow> show_event (PcapFailed e) (st\<lparr>sx_pcap := Some file\<rparr>))))"

text \<open>One answer of the socket, the time at which a capture record would be stamped, and the packet type.\<close>

datatype rx_answer = RxPacket sys_time bytes byte | RxError io_error

definition sniff_step :: "file_io \<Rightarrow> rx_answer \<Rightarrow> sniffer \<Rightarrow> sniffer" where
  "sniff_step W answer st =
     (case answer of
        RxPacket now data pkt_type \<Rightarrow> sniff_packet W now data pkt_type st
      | RxError WouldBlock \<Rightarrow> st
      | RxError e \<Rightarrow> show_event (RecvError e) st)"

text \<open>\<open>dump\<close> is the answer of \<open>File::create\<close> when a dump file was asked for; the sniffer goes on
  without it when it cannot be made.  The loop has no end of its own: the result is its state after the given
  answers.  Without a socket it does nothing.\<close>

definition sniff ::
  "file_io \<Rightarrow> (io_error + unit) \<Rightarrow> (io_error + unit) option \<Rightarrow> rx_answer list \<Rightarrow> sniffer option" where
  "sniff W opened dump answers =
     (case opened of
        Inl e \<Rightarrow> None
      | Inr _ \<Rightarrow>
          (let pcap = (case dump of
                 Some created \<Rightarrow> (case pcap_create W created of Inr f \<Rightarrow> Some f | Inl e \<Rightarrow> None)
               | None \<Rightarrow> None)
           in Some (fold (sniff_step W) answers \<lparr>sx_count = 0, sx_pcap = pcap, sx_shown = []\<rparr>)))"

section \<open>Reading a capture back\<close>

text \<open>The capture format: a header, then records of time, included and original length, and the frame.\<close>

function read_records :: "bytes \<Rightarrow> (u32 \<times> u32 \<times> bytes) list option" where
  "read_records bs =
     (if bs = [] then Some []
      else if length bs < 16 \<or> le32_at bs 8 \<noteq> le32_at bs 12 \<or> length bs < 16 + unat (le32_at bs 8) then None
      else
        let n = unat (le32_at bs 8) in
        case read_records (drop (16 + n) bs) of
          None \<Rightarrow> None
        | Some rs \<Rightarrow> Some ((le32_at bs 0, le32_at bs 4, subslice 16 n bs) # rs))"
  by auto
termination by (relation "measure length") auto

declare read_records.simps [simp del]

definition read_capture :: "bytes \<Rightarrow> (u32 \<times> u32 \<times> bytes) list option" where
  "read_capture bs =
     (if length bs < 24 \<or> le32_at bs 0 \<noteq> 0xa1b2c3d4 \<or> subslice 4 4 bs \<noteq> [2, 0, 4, 0] \<or> le32_at bs 20 \<noteq> 1 then None
      else read_records (drop 24 bs))"

definition good_file :: file_io where
  "good_file file data = (None, file @ data)"

text \<open>What the records of the captured frames hold.\<close>

definition stamp :: "sys_time \<Rightarrow> u32 \<times> u32" where
  "stamp now = (ucast (fst (since_epoch now)), snd (since_epoch now) div 1000)"

definition captured :: "rx_answer \<Rightarrow> (u32 \<times> u32 \<times> bytes) list" where
  "captured answer =
     (case answer of
        RxPacket now data _ \<Rightarrow> (if management data then [(fst (stamp now), snd (stamp now), data)] else [])
      | RxError _ \<Rightarrow> [])"

lemma pcap_header_bytes:
  "pcap_header = [0xd4, 0xc3, 0xb2, 0xa1, 2, 0, 4, 0, 0, 0, 0, 0, 0, 0, 0, 0, 255, 255, 0, 0, 1, 0, 0, 0]"
  by code_simp

lemma pcap_record_bytes:
  "pcap_record now frame =
     to_le32 (fst (stamp now)) @ to_le32 (snd (stamp now)) @
     to_le32 (of_nat (length frame)) @ to_le32 (of_nat (length frame))"
proof -
  have four: "replicate 16 (0 :: byte) = replicate 4 0 @ replicate 4 0 @ replicate 4 0 @ replicate 4 0"
    by (simp add: numeral_eq_Suc)
  show ?thesis
    by (simp add: pcap_record_def stamp_def Let_def split_beta four overwrite_here overwrite_skip)
qed

lemma read_record:
  assumes "length frame < 2 ^ 32"
  shows "read_records (pcap_record now frame @ frame @ rest) =
    map_option (\<lambda>rs. (fst (stamp now), snd (stamp now), frame) # rs) (read_records rest)"
proof -
  let ?bs = "pcap_record now frame @ frame @ rest"
  have len: "unat (of_nat (length frame) :: u32) = length frame"
    using assms by (simp only: unsigned_of_nat) (simp add: take_bit_nat_eq_self)
  have fields: "le32_at ?bs 0 = fst (stamp now)" "le32_at ?bs 4 = snd (stamp now)"
    "le32_at ?bs 8 = of_nat (length frame)" "le32_at ?bs 12 = of_nat (length frame)"
    by (simp_all add: pcap_record_bytes le32_at_def subslice_def le32.dec_enc)
  have "drop (16 + length frame) ?bs = rest" "subslice 16 (length frame) ?bs = frame" "length ?bs = 16 + length frame + length rest"
    by (simp_all add: pcap_record_bytes subslice_def)
  then show ?thesis
    by (subst read_records.simps) (auto simp: fields len split: option.split)
qed

lemma sniff_step_pcap:
  assumes "sx_pcap st = Some file"
  shows "sx_pcap (sniff_step good_file answer st) =
    Some (file @ (case answer of
       RxPacket now data _ \<Rightarrow> if management data then pcap_record now data @ data else [] | RxError _ \<Rightarrow> []))"
  using assms
  by (cases answer)
     (auto simp: sniff_step_def sniff_packet_def pcap_write_def good_file_def show_event_def Let_def split: io_error.split)

lemma sniff_run_pcap:
  assumes "sx_pcap st = Some f0" and "\<forall>now data t. RxPacket now data t \<in> set answers \<longrightarrow> length data < 2 ^ 32"
  shows "\<exists>records. sx_pcap (fold (sniff_step good_file) answers st) = Some (f0 @ records) \<and>
    read_records records = Some (concat (map captured answers))"
  using assms
proof (induction answers arbitrary: st f0)
  case Nil
  then show ?case
    by (simp add: read_records.simps)
next
  case (Cons a answers)
  let ?new = "case a of RxPacket now data _ \<Rightarrow> if management data then pcap_record now data @ data else [] | RxError _ \<Rightarrow> []"
  from Cons.IH [OF sniff_step_pcap [OF Cons.prems(1)], of a] Cons.prems(2) obtain records where records:
    "sx_pcap (fold (sniff_step good_file) answers (sniff_step good_file a st)) = Some ((f0 @ ?new) @ records)"
    "read_records records = Some (concat (map captured answers))"
    by auto
  have "read_records (?new @ records) = Some (captured a @ concat (map captured answers))"
    using records(2) Cons.prems(2) read_record by (cases a) (auto simp: captured_def)
  then show ?case
    using records(1) by (intro exI [of _ "?new @ records"]) simp
qed

lemma sniff_step_count:
  "sx_count (sniff_step W answer st) = sx_count st + of_nat (length (captured answer))"
  by (cases answer)
     (auto simp: sniff_step_def sniff_packet_def show_event_def captured_def Let_def split: io_error.split option.split prod.split)

lemma sniff_run_count:
  "sx_count (fold (sniff_step W) answers st) = sx_count st + of_nat (length (concat (map captured answers)))"
  by (induction answers arbitrary: st) (simp_all add: sniff_step_count)

text \<open>C36. A capture holds what the sniffer saw: when the dump file can be written, the file read back by the
  definition of the format (header, link type, one record per frame with equal lengths) yields, in the order
  of arrival, exactly the received frames of at least 14 bytes whose ethertype is 0x88B5 or 0x88B6, whole, each
  with the seconds (modulo two to the 32) and microseconds of its time, and the frame counter is their
  number; timeouts, receive errors and other frames leave no trace in the file.\<close>

theorem capture_read_back:
  assumes "\<forall>now data t. RxPacket now data t \<in> set answers \<longrightarrow> length data < 2 ^ 32"
  shows "\<exists>st f. sniff good_file (Inr ()) (Some (Inr ())) answers = Some st \<and> sx_pcap st = Some f \<and>
    read_capture f = Some (concat (map captured answers)) \<and>
    sx_count st = of_nat (length (concat (map captured answers)))"
proof -
  let ?st = "\<lparr>sx_count = 0, sx_pcap = Some pcap_header, sx_shown = []\<rparr>"
  obtain records where records: "sx_pcap (fold (sniff_step good_file) answers ?st) = Some (pcap_header @ records)"
    "read_records records = Some (concat (map captured answers))"
    using sniff_run_pcap [OF _ assms, of ?st pcap_header] by auto
  have "sniff good_file (Inr ()) (Some (Inr ())) answers = Some (fold (sniff_step good_file) answers ?st)"
    by (simp add: sniff_def pcap_create_def good_file_def)
  moreover have "read_capture (pcap_header @ records) = read_records records"
    by (simp add: read_capture_def pcap_header_bytes le32_at_def subslice_def from_le32_def from_be32_def)
  ultimately show ?thesis
    using records by (auto simp: sniff_run_count)
qed

theorem capture_read_back_witness:
  "\<exists>st f. sniff good_file (Inr ()) (Some (Inr ()))
       [RxError WouldBlock, RxPacket (SinceEpoch 5 7000) sample_frame 0, RxPacket BeforeEpoch [1, 2] 0] = Some st \<and>
     sx_pcap st = Some f \<and> read_capture f = Some [(5, 7, sample_frame)] \<and> sx_count st = 1"
proof -
  have "management sample_frame" "\<not> management [1, 2]" "stamp (SinceEpoch 5 7000) = (5, 7)"
    "int (length sample_frame) < 4294967296"
    by code_simp+
  then show ?thesis
    using capture_read_back [of "[RxError WouldBlock, RxPacket (SinceEpoch 5 7000) sample_frame 0, RxPacket BeforeEpoch [1, 2] 0]"]
    by (simp add: captured_def)
qed

end
