(* ===== verification/Selftest.thy ===== *)
theory Selftest
  imports Capture Daemon
begin

text \<open>
  The hardware selftest (\<open>rbctl_dsl/src/selftest.rs\<close>).  The host is a parameter, the record
  \<open>host\<close>: its files, its route-netlink calls, its interface table, opening the board socket and UCI, each
  reading or changing a state.  Interface names come from the command line and hold no NUL, so
  \<open>CString::new\<close> does not fail.  Of the lines that are only logged the numbers shown are left out, and so is
  the pause after an interface was brought up.
\<close>

section \<open>The host\<close>

record ('s, 't) host =
  h_read_file :: "'s \<Rightarrow> string \<Rightarrow> string option"
  h_rtnl_new :: "'s \<Rightarrow> string + unit"
  h_set_up :: "'s \<Rightarrow> string \<Rightarrow> (string + unit) \<times> 's"
  h_set_down :: "'s \<Rightarrow> string \<Rightarrow> (string + unit) \<times> 's"
  h_add_vlan :: "'s \<Rightarrow> string \<Rightarrow> u16 \<Rightarrow> (string + string) \<times> 's"
  h_del :: "'s \<Rightarrow> string \<Rightarrow> (string + unit) \<times> 's"
  h_if_nametoindex :: "'s \<Rightarrow> string \<Rightarrow> u32"
  h_open :: "'s \<Rightarrow> string \<Rightarrow> u16 \<Rightarrow> string + 't"
  h_set_timeout :: "'t \<Rightarrow> nat \<Rightarrow> string + unit"
  h_uci_new :: "'s \<Rightarrow> string + unit"
  h_uci_get :: "'s \<Rightarrow> string \<Rightarrow> string option"

type_synonym 's verdict = "(string + string) \<times> 's"

definition st_ifindex :: "('s, 't) host \<Rightarrow> 's \<Rightarrow> string \<Rightarrow> string + u32" where
  "st_ifindex H s name =
     (let idx = h_if_nametoindex H s name
      in if idx = 0 then Inl (''if_nametoindex('' @ name @ '') failed'') else Inr idx)"

section \<open>The individual tests\<close>

definition has_carrier :: "('s, 't) host \<Rightarrow> 's \<Rightarrow> string \<Rightarrow> bool" where
  "has_carrier H s iface =
     (case h_read_file H s (''/sys/class/net/'' @ iface @ ''/carrier'') of
        None \<Rightarrow> False
      | Some text \<Rightarrow> (case parse_u32 (trim text) of None \<Rightarrow> False | Some v \<Rightarrow> v = 1))"

definition bring_up :: "('s, 't) host \<Rightarrow> 's \<Rightarrow> string \<Rightarrow> (string + unit) \<times> 's" where
  "bring_up H s iface =
     (let state = trim (case h_read_file H s (''/sys/class/net/'' @ iface @ ''/operstate'') of
                          None \<Rightarrow> [] | Some text \<Rightarrow> text) in
      if state = ''up'' then (Inr (), s)
      else
        (case h_rtnl_new H s of
           Inl e \<Rightarrow> (Inl (''rtnl: '' @ e), s)
         | Inr _ \<Rightarrow>
             (case h_set_up H s iface of
                (Inl e, s) \<Rightarrow> (Inl (''set_up '' @ iface @ '': '' @ e), s)
              | (Inr _, s) \<Rightarrow> (Inr (), s))))"

definition test_link_up :: "('s, 't) host \<Rightarrow> string \<Rightarrow> 's \<Rightarrow> 's verdict" where
  "test_link_up H config_iface s =
     (let parent = parent_iface config_iface in
      case (if parent \<noteq> config_iface then bring_up H s parent else (Inr (), s)) of
        (Inl e, s) \<Rightarrow> (Inl e, s)
      | (Inr _, s) \<Rightarrow>
          (case bring_up H s config_iface of
             (Inl e, s) \<Rightarrow> (Inl e, s)
           | (Inr _, s) \<Rightarrow>
               if \<not> has_carrier H s config_iface
               then (Inl (config_iface @ '' is up but has no carrier''), s)
               else (Inr (config_iface @ '' up with carrier''), s)))"

definition test_socket :: "('s, 't) host \<Rightarrow> 't transport \<Rightarrow> string \<Rightarrow> 's \<Rightarrow> 's verdict" where
  "test_socket H T config_iface s =
     (case h_open H s config_iface 0x88B5 of
        Inl e \<Rightarrow> (Inl e, s)
      | Inr sock \<Rightarrow>
          (let mac = tr_local_mac T sock in
           case h_set_timeout H sock 500 of
             Inl e \<Rightarrow> (Inl e, s)
           | Inr _ \<Rightarrow>
               (Inr (''bound '' @ config_iface @ '', MAC ['' @ join_with '', '' (map (hex_octet False) mac) @
                     ''], BPF 0x88B5''), s)))"

text \<open>A right arrow in UTF-8.\<close>

definition arrow :: string where "arrow = [CHR 0xE2, CHR 0x86, CHR 0x92]"

definition test_vid :: u16 where "test_vid = 2001"

text \<open>The closure of \<open>test_vlan\<close>.\<close>

definition exercise_vlan :: "('s, 't) host \<Rightarrow> string \<Rightarrow> string \<Rightarrow> 's \<Rightarrow> 's verdict" where
  "exercise_vlan H parent name s =
     (case st_ifindex H s parent of
        Inl e \<Rightarrow> (Inl e, s)
      | Inr parent_idx \<Rightarrow>
      (case st_ifindex H s name of
        Inl e \<Rightarrow> (Inl e, s)
      | Inr vlan_idx \<Rightarrow>
        if vlan_idx = 0 then (Inl (name @ '' was not created''), s)
        else
          (case h_set_up H s name of
             (Inl e, s) \<Rightarrow> (Inl (''set_up: '' @ e), s)
           | (Inr _, s) \<Rightarrow>
               (case h_set_down H s name of
                  (Inl e, s) \<Rightarrow> (Inl (''set_down: '' @ e), s)
                | (Inr _, s) \<Rightarrow>
                    (Inr (''create'' @ arrow @ ''up'' @ arrow @ ''down'' @ arrow @ ''del '' @ name @ '' (parent idx '' @ show_nat (unat parent_idx) @ '')''), s)))))"

definition test_vlan :: "('s, 't) host \<Rightarrow> string \<Rightarrow> 's \<Rightarrow> 's verdict" where
  "test_vlan H config_iface s =
     (let parent = parent_iface config_iface in
      case h_rtnl_new H s of
        Inl e \<Rightarrow> (Inl e, s)
      | Inr _ \<Rightarrow>
          (let name = parent @ ''.'' @ show_nat (unat test_vid);
               s = snd (h_del H s name) in
           case h_add_vlan H s parent test_vid of
             (Inl e, s) \<Rightarrow> (Inl (''add_vlan: '' @ e), s)
           | (Inr _, s) \<Rightarrow>
               (let (result, s) = exercise_vlan H parent name s;
                    s = snd (h_del H s name) in
                if (\<exists>msg. result = Inr msg) \<and> (case st_ifindex H s name of Inl _ \<Rightarrow> 0 | Inr idx \<Rightarrow> idx) \<noteq> 0
                then (Inl (name @ '' was not deleted''), s)
                else (result, s))))"

text \<open>What one opcode answered: the flag that something came back, and the logged lines.\<close>

datatype probe_line = Answered nat | NoResponse nat | ProbeError nat board_error

definition probe :: "nat \<Rightarrow> (board_error + 'a) \<Rightarrow> bool \<times> probe_line list \<Rightarrow> bool \<times> probe_line list" where
  "probe op r st =
     (let (got_response, lines) = st in
      case r of
        Inr _ \<Rightarrow> (True, lines @ [Answered op])
      | Inl Timeout \<Rightarrow> (got_response, lines @ [NoResponse op])
      | Inl e \<Rightarrow> (got_response, lines @ [ProbeError op e]))"

definition selftest_atm :: atm_link_params where
  "selftest_atm = AtmLinkParams_default\<lparr>alp_vpi := 8, alp_vci := 35, alp_encap := Llc, alp_link_type := Eoa,
     alp_qos := Ubr, alp_pcr := 1000\<rparr>"

definition probe_board ::
  "'t transport \<Rightarrow> 'd crc_engine \<Rightarrow> 't \<Rightarrow> ((bool \<times> probe_line list) \<times> 't board) outcome" where
  "probe_board T E sock =
     (let b = board_set_retries 3 (board_set_timeout T 2000 (Board_new T sock)) in
      bind_outcome (get_line_obj T E b) (\<lambda>(o2, b).
      bind_outcome (get_channel_stats T E b) (\<lambda>(o4, b).
      bind_outcome (line_config_up T E Vdsl2 Annex_B THIRTY_A True True b) (\<lambda>(o1, b).
      bind_outcome (atm_link_add T E selftest_atm b) (\<lambda>(o5, b).
        Returns (probe 5 o5 (probe 1 o1 (probe 4 o4 (probe 2 o2 (False, [])))), b))))))"

definition test_board :: "('s, 't) host \<Rightarrow> 't transport \<Rightarrow> 'd crc_engine \<Rightarrow> string \<Rightarrow> 's \<Rightarrow> 's verdict outcome" where
  "test_board H T E config_iface s =
     (case h_open H s config_iface 0x88B5 of
        Inl e \<Rightarrow> Returns (Inl e, s)
      | Inr sock \<Rightarrow>
          bind_outcome (probe_board T E sock) (\<lambda>((got_response, lines), b).
            Returns (Inr (if got_response then ''board is alive'' else ''no board response''), s)))"

text \<open>\<open>{:?}\<close> of a text without characters that are escaped.\<close>

definition quoted :: "string \<Rightarrow> string" where
  "quoted v = CHR 0x22 # v @ [CHR 0x22]"

definition test_uci :: "('s, 't) host \<Rightarrow> 's \<Rightarrow> 's verdict" where
  "test_uci H s =
     (case h_uci_new H s of
        Inl e \<Rightarrow> (Inl (''uci_alloc: '' @ e), s)
      | Inr _ \<Rightarrow>
          (case h_uci_get H s ''network.@device[0].name'' of
             Some v \<Rightarrow> (Inr (''context OK; device[0].name = '' @ quoted v), s)
           | None \<Rightarrow> (Inr ''context OK'', s)))"

definition test_uloop :: "'s \<Rightarrow> 's verdict" where
  "test_uloop s = (Inr ''uloop not used (Rust polling loop)'', s)"

section \<open>The run\<close>

record tally =
  ty_pass :: nat
  ty_fail :: nat
  ty_log :: "(string \<times> (string + string)) list"

definition record_result :: "string \<Rightarrow> (string + string) \<Rightarrow> tally \<Rightarrow> tally" where
  "record_result label result st =
     (let st = st\<lparr>ty_log := ty_log st @ [(label, result)]\<rparr> in
      case result of
        Inr _ \<Rightarrow> st\<lparr>ty_pass := ty_pass st + 1\<rparr>
      | Inl _ \<Rightarrow> st\<lparr>ty_fail := ty_fail st + 1\<rparr>)"

definition execute ::
  "('s, 't) host \<Rightarrow> 't transport \<Rightarrow> 'd crc_engine \<Rightarrow> string \<Rightarrow> tally \<times> 's \<Rightarrow> (nat \<times> tally \<times> 's) outcome" where
  "execute H T E config_iface ts =
     (let (st, s) = ts;
          (r, s) = test_link_up H config_iface s;
          st = record_result ''link'' r st in
      bind_outcome
        (if has_carrier H s config_iface then
           let (r, s) = test_socket H T config_iface s;
               st = record_result ''socket'' r st;
               (r, s) = test_vlan H config_iface s;
               st = record_result ''vlan'' r st
           in bind_outcome (test_board H T E config_iface s) (\<lambda>(r, s). Returns (record_result ''board'' r st, s))
         else Returns (st, s))
        (\<lambda>(st, s).
          let (r, s) = test_uci H s;
              st = record_result ''uci'' r st;
              (r, s) = test_uloop s;
              st = record_result ''uloop'' r st
          in Returns (if ty_fail st > 0 then 1 else 0, st, s)))"

definition selftest_run ::
  "('s, 't) host \<Rightarrow> 't transport \<Rightarrow> 'd crc_engine \<Rightarrow> string \<Rightarrow> 's \<Rightarrow> (nat \<times> tally \<times> 's) outcome" where
  "selftest_run H T E config_iface s = execute H T E config_iface (\<lparr>ty_pass = 0, ty_fail = 0, ty_log = []\<rparr>, s)"

section \<open>Link operations of a kernel\<close>

text \<open>Which interfaces exist, and what a request does to that: a request that is refused changes nothing, a
  deletion leaves no interface of the name.\<close>

locale kernel_links =
  fixes H :: "('s, 't) host" and links :: "'s \<Rightarrow> string set"
  assumes up_links: "h_set_up H s n = (r, s') \<Longrightarrow> links s' = links s"
    and down_links: "h_set_down H s n = (r, s') \<Longrightarrow> links s' = links s"
    and add_links: "h_add_vlan H s p v = (added, s') \<Longrightarrow>
      links s' = (case added of Inl _ \<Rightarrow> links s | Inr _ \<Rightarrow> insert (p @ ''.'' @ show_nat (unat v)) (links s))"
    and del_links: "h_del H s n = (r, s') \<Longrightarrow> links s' = links s - {n}"
    and index_links: "h_if_nametoindex H s n \<noteq> 0 \<longleftrightarrow> n \<in> links s"
begin

lemma exercise_links: "exercise_vlan H p n s = (r, s') \<Longrightarrow> links s' = links s"
  using up_links down_links by (auto simp: exercise_vlan_def Let_def split: sum.splits prod.splits if_splits)

lemma bring_up_links: "bring_up H s n = (r, s') \<Longrightarrow> links s' = links s"
  using up_links by (auto simp: bring_up_def Let_def split: sum.splits prod.splits if_splits)

lemma test_link_links: "test_link_up H c s = (r, s') \<Longrightarrow> links s' = links s"
  using bring_up_links by (auto simp: test_link_up_def Let_def split: sum.splits prod.splits if_splits)

lemma test_vlan_links:
  assumes "h_rtnl_new H s = Inr ()" and "test_vlan H c s = (r, s')"
  shows "links s' = links s - {vlan_name (parent_iface c) test_vid}"
proof -
  let ?p = "parent_iface c"
  let ?n = "?p @ ''.'' @ show_nat (unat test_vid)"
  obtain d1 s1 where s1: "h_del H s ?n = (d1, s1)"
    by fastforce
  obtain a s2 where s2: "h_add_vlan H s1 ?p test_vid = (a, s2)"
    by fastforce
  obtain x s3 where s3: "exercise_vlan H ?p ?n s2 = (x, s3)"
    by fastforce
  obtain d2 s4 where s4: "h_del H s3 ?n = (d2, s4)"
    by fastforce
  have "s' = (case a of Inl _ \<Rightarrow> s2 | Inr _ \<Rightarrow> s4)"
    using assms s1 s2 s3 s4 by (auto simp: test_vlan_def Let_def split: sum.splits if_splits)
  moreover have "links s1 = links s - {?n}" "links s3 = links s2" "links s4 = links s3 - {?n}"
    using del_links [OF s1] exercise_links [OF s3] del_links [OF s4] by simp_all
  moreover have "links s2 = (case a of Inl _ \<Rightarrow> links s1 | Inr _ \<Rightarrow> insert ?n (links s1))"
    by (rule add_links [OF s2])
  ultimately show ?thesis
    by (auto simp: vlan_name_def split: sum.splits)
qed

end

section \<open>The parts of a run\<close>

lemma record_log:
  "ty_log (record_result l r st) = ty_log st @ [(l, r)]"
  "ty_pass (record_result l r st) = ty_pass st + (if isl r then 0 else 1)"
  "ty_fail (record_result l r st) = ty_fail st + (if isl r then 1 else 0)"
  by (simp_all add: record_result_def Let_def split: sum.split)

lemma test_socket_state: "snd (test_socket H T c s) = s"
  by (simp add: test_socket_def Let_def split: sum.split)

lemma test_board_state: "test_board H T E c s = Returns (r, s') \<Longrightarrow> s' = s \<and> (\<forall>e. r = Inl e \<longrightarrow> h_open H s c 0x88B5 = Inl e)"
  by (auto simp: test_board_def bind_outcome_Returns split: sum.splits)

lemma test_uci_state: "snd (test_uci H s) = s"
  by (simp add: test_uci_def split: sum.split option.split)

definition tally_of :: "(string \<times> (string + string)) list \<Rightarrow> tally" where
  "tally_of results =
     \<lparr>ty_pass = length (filter (\<lambda>(l, r). \<not> isl r) results), ty_fail = length (filter (\<lambda>(l, r). isl r) results),
      ty_log = results\<rparr>"

lemma record_tally: "record_result l r (tally_of results) = tally_of (results @ [(l, r)])"
  by (cases r) (simp_all add: record_result_def tally_of_def Let_def)

lemma selftest_run_parts:
  assumes run: "selftest_run H T E c s = Returns (code, st, s')"
    and link: "test_link_up H c s = (r1, s1)"
    and carrier: "has_carrier H s1 c" and vlan: "test_vlan H c s1 = (r3, s3)"
  shows "\<exists>r4. test_board H T E c s3 = Returns (r4, s3) \<and> s' = s3 \<and>
    st = tally_of [(''link'', r1), (''socket'', fst (test_socket H T c s1)), (''vlan'', r3), (''board'', r4),
      (''uci'', fst (test_uci H s3)), (''uloop'', Inr ''uloop not used (Rust polling loop)'')] \<and>
    code = (if ty_fail st > 0 then 1 else 0)"
proof -
  have empty: "\<lparr>ty_pass = 0, ty_fail = 0, ty_log = []\<rparr> = tally_of []"
    by (simp add: tally_of_def)
  obtain r4 s4 where board: "test_board H T E c s3 = Returns (r4, s4)"
    using run test_socket_state [of H T c s1] carrier
    unfolding selftest_run_def execute_def empty
    by (auto simp: link vlan record_tally bind_outcome_Returns split_beta Let_def)
  then have s4: "s4 = s3"
    using test_board_state by metis
  show ?thesis
    using run test_socket_state [of H T c s1] test_uci_state [of H s3] carrier board
    unfolding selftest_run_def execute_def empty s4
    by (auto simp: link vlan record_tally bind_outcome_Returns test_uloop_def split_beta Let_def)
qed

lemma selftest_run_no_carrier:
  assumes run: "selftest_run H T E c s = Returns (code, st, s')"
    and link: "test_link_up H c s = (r1, s1)" and carrier: "\<not> has_carrier H s1 c"
  shows "s' = s1 \<and> code = (if ty_fail st > 0 then 1 else 0) \<and>
    st = tally_of [(''link'', r1), (''uci'', fst (test_uci H s1)), (''uloop'', Inr ''uloop not used (Rust polling loop)'')]"
proof -
  have empty: "\<lparr>ty_pass = 0, ty_fail = 0, ty_log = []\<rparr> = tally_of []"
    by (simp add: tally_of_def)
  show ?thesis
    using run test_uci_state [of H s1] carrier
    unfolding selftest_run_def execute_def empty
    by (auto simp: link record_tally test_uloop_def split_beta Let_def)
qed

section \<open>A kernel with a table of interfaces\<close>

record net =
  net_links :: "string list"
  net_up :: "string list"

definition net_file :: "net \<Rightarrow> string \<Rightarrow> string option" where
  "net_file s path =
     (if path \<in> set (map (\<lambda>n. ''/sys/class/net/'' @ n @ ''/carrier'') (net_up s)) then Some (''1'' @ [nl])
      else if path \<in> set (map (\<lambda>n. ''/sys/class/net/'' @ n @ ''/operstate'') (net_up s)) then Some (''up'' @ [nl])
      else None)"

definition net_set_up :: "net \<Rightarrow> string \<Rightarrow> (string + unit) \<times> net" where
  "net_set_up s n =
     (if n \<in> set (net_links s) then (Inr (), s\<lparr>net_up := n # net_up s\<rparr>) else (Inl ''no such device'', s))"

definition net_set_down :: "net \<Rightarrow> string \<Rightarrow> (string + unit) \<times> net" where
  "net_set_down s n =
     (if n \<in> set (net_links s) then (Inr (), s\<lparr>net_up := removeAll n (net_up s)\<rparr>) else (Inl ''no such device'', s))"

definition net_add_vlan :: "net \<Rightarrow> string \<Rightarrow> u16 \<Rightarrow> (string + string) \<times> net" where
  "net_add_vlan s p v =
     (let n = p @ ''.'' @ show_nat (unat v) in
      if p \<notin> set (net_links s) then (Inl ''no such device'', s)
      else if n \<in> set (net_links s) then (Inl ''file exists'', s)
      else (Inr n, s\<lparr>net_links := n # net_links s\<rparr>))"

definition net_del :: "net \<Rightarrow> string \<Rightarrow> (string + unit) \<times> net" where
  "net_del s n =
     (if n \<in> set (net_links s)
      then (Inr (), s\<lparr>net_links := removeAll n (net_links s), net_up := removeAll n (net_up s)\<rparr>)
      else (Inl ''no such device'', s))"

definition net_host :: "(string + 't) \<Rightarrow> (net, 't) host" where
  "net_host sock =
     \<lparr>h_read_file = net_file, h_rtnl_new = (\<lambda>_. Inr ()), h_set_up = net_set_up, h_set_down = net_set_down,
      h_add_vlan = net_add_vlan, h_del = net_del,
      h_if_nametoindex = (\<lambda>s n. if n \<in> set (net_links s) then 1 else 0),
      h_open = (\<lambda>_ _ _. sock), h_set_timeout = (\<lambda>_ _. Inr ()), h_uci_new = (\<lambda>_. Inr ()), h_uci_get = (\<lambda>_ _. None)\<rparr>"

interpretation net: kernel_links "net_host sock" "\<lambda>s. set (net_links s)" for sock
  by unfold_locales
     (auto simp: net_host_def net_set_up_def net_set_down_def net_add_vlan_def net_del_def Let_def
       split: if_splits)

definition net_sample :: net where
  "net_sample = \<lparr>net_links = [''lan0'', ''lan0.500'', ''lan0.2001''], net_up = [''lan0'', ''lan0.500'', ''lan0.2001'']\<rparr>"

lemma probe_silent:
  "\<exists>b. probe_board silent_transport null_engine [] =
     Returns ((False, [NoResponse 2, NoResponse 4, NoResponse 1, NoResponse 5]), b)"
proof -
  let ?b = "board_set_retries 3 (board_set_timeout silent_transport 2000 (Board_new silent_transport []))"
  have b: "b_sock ?b = []" "length (b_mac ?b) = 6"
    by (simp_all add: board_set_retries_def board_set_timeout_def Board_new_def silent_transport_def script_transport_def Let_def)
  have silent: "request silent_transport null_engine b op pl = Returns (Inl Timeout, b\<lparr>b_seq := b_seq b + 1\<rparr>)"
    if "b_sock b = []" "length (b_mac b) = 6" "length pl \<le> 188" for b op pl
    using that by (rule silent_request_any)
  have len: "length (pack_dsl_line Vdsl2 Annex_B True True THIRTY_A) \<le> 187" "length (pack_atm_link selftest_atm) \<le> 187"
    by code_simp+
  show ?thesis
    using b len
    by (simp add: probe_board_def get_line_obj_def get_channel_stats_def line_config_up_def atm_link_add_def
        then_reply_def silent probe_def Let_def)
qed

lemma net_carrier:
  "\<exists>text. net_file net_sample ''/sys/class/net/lan0.500/carrier'' = Some text \<and> parse_u32 (trim text) = Some 1"
proof -
  have "net_file net_sample ''/sys/class/net/lan0.500/carrier'' = Some (''1'' @ [nl])"
    by code_simp
  moreover have "trim (''1'' @ [nl]) = ''1''"
    by code_simp
  moreover have "parse_u32 ''1'' = Some 1"
    by (simp add: parse_u32_def parse_unsigned_def digit_value_def)
  ultimately show ?thesis
    by simp
qed

lemma net_sample_link:
  "has_carrier (net_host (Inr ([] :: script))) net_sample ''lan0.500''"
  "test_link_up (net_host (Inr ([] :: script))) ''lan0.500'' net_sample = (Inr ''lan0.500 up with carrier'', net_sample)"
proof -
  let ?H = "net_host (Inr ([] :: script))"
  let ?c = "''lan0.500''"
  show carrier: "has_carrier ?H net_sample ?c"
    using net_carrier by (auto simp: has_carrier_def net_host_def)
  have "bring_up ?H net_sample ''lan0'' = (Inr (), net_sample)" "bring_up ?H net_sample ?c = (Inr (), net_sample)"
    by code_simp+
  moreover have "parent_iface ?c = ''lan0''"
    by code_simp
  ultimately show "test_link_up ?H ?c net_sample = (Inr ''lan0.500 up with carrier'', net_sample)"
    using carrier by (simp add: test_link_up_def)
qed

lemma net_sample_vlan:
  "\<exists>m s. test_vlan (net_host (Inr ([] :: script))) ''lan0.500'' net_sample = (Inr m, s)"
proof -
  have name: "show_nat 2001 = ''2001''"
    by (simp add: show_nat_def show_radix.simps digit_char_def) code_simp
  have parent: "parent_iface ''lan0.500'' = ''lan0''"
    by code_simp
  show ?thesis
    by (simp add: test_vlan_def test_vid_def name parent net_host_def net_sample_def net_del_def net_add_vlan_def
        exercise_vlan_def st_ifindex_def net_set_up_def net_set_down_def Let_def)
qed

lemma silent_selftest:
  obtains st s' where
    "selftest_run (net_host (Inr [])) silent_transport null_engine ''lan0.500'' net_sample = Returns (0, st, s')"
proof -
  let ?H = "net_host (Inr ([] :: script))"
  have socket: "\<exists>m. test_socket ?H silent_transport ''lan0.500'' net_sample = (Inr m, net_sample)"
    by (simp add: test_socket_def net_host_def Let_def)
  have board: "test_board ?H silent_transport null_engine ''lan0.500'' s = Returns (Inr ''no board response'', s)" for s
    using probe_silent by (auto simp: test_board_def net_host_def)
  have uci: "test_uci ?H s = (Inr ''context OK'', s)" for s
    by (simp add: test_uci_def net_host_def)
  show ?thesis
    using socket net_sample_vlan that
    by (auto simp: selftest_run_def execute_def net_sample_link board uci test_uloop_def record_log(3) Let_def)
qed

section \<open>Properties\<close>

text \<open>The verdict of the selftest: the exit code is 1 exactly when a recorded test failed, the counters
  add up, six tests are recorded when the interface has a carrier after the link test and three when it has
  none, and the test of the board fails only when its socket cannot be opened, whatever the board answers.\<close>

lemma selftest_verdict:
  assumes "selftest_run H T E c s = Returns (code, st, s')"
  shows "code = (if list_ex (\<lambda>(l, r). isl r) (ty_log st) then 1 else 0) \<and>
    ty_pass st + ty_fail st = length (ty_log st) \<and>
    map fst (ty_log st) =
      (if has_carrier H (snd (test_link_up H c s)) c
       then [''link'', ''socket'', ''vlan'', ''board'', ''uci'', ''uloop''] else [''link'', ''uci'', ''uloop'']) \<and>
    (\<forall>e. (''board'', Inl e) \<in> set (ty_log st) \<longrightarrow> h_open H s' c 0x88B5 = Inl e)"
proof -
  obtain r1 s1 where link: "test_link_up H c s = (r1, s1)"
    by fastforce
  have counts: "ty_pass (tally_of rs) + ty_fail (tally_of rs) = length rs"
    "ty_fail (tally_of rs) > 0 \<longleftrightarrow> list_ex (\<lambda>(l, r). isl r) rs" "ty_log (tally_of rs) = rs" for rs
    by (induction rs) (auto simp: tally_of_def)
  show ?thesis
  proof (cases "has_carrier H s1 c")
    case True
    obtain r3 s3 where vlan: "test_vlan H c s1 = (r3, s3)"
      by fastforce
    from selftest_run_parts [OF assms link True vlan] True show ?thesis
      by (auto simp: counts link dest: test_board_state)
  next
    case False
    from selftest_run_no_carrier [OF assms link False] False show ?thesis
      by (simp add: counts link)
  qed
qed

lemma selftest_verdict_witness:
  "\<exists>st s'. selftest_run (net_host (Inr [])) silent_transport null_engine ''lan0.500'' net_sample = Returns (0, st, s') \<and>
     \<not> list_ex (\<lambda>(l, r). isl r) (ty_log st) \<and> ty_pass st + ty_fail st = length (ty_log st)"
proof -
  obtain st s' where run:
    "selftest_run (net_host (Inr [])) silent_transport null_engine ''lan0.500'' net_sample = Returns (0, st, s')"
    by (rule silent_selftest)
  from selftest_verdict [OF run] run show ?thesis
    by (auto split: if_splits)
qed



end
