(* ===== verification/UbusTransport.thy ===== *)
theory UbusTransport
  imports Wire "HOL-Library.Sublist"
begin

text \<open>
  The byte pipe under the ubus object (\<open>transport.rs\<close>): sending a frame over a socket that takes
  it in pieces, and collecting what arrives until it holds a frame.  The codec of the ubus crate is a parameter;
  what the pipe relies on of it is the locale \<open>frame_codec\<close>.  The socket is the list of its answers
  to successive calls; after a list of read answers it would block, after a list of write answers the call is
  still going on.
\<close>

datatype ubus_error = Short | Malformed string | Closed | UbusIo string

record 'f codec =
  write_frame :: "'f \<Rightarrow> bytes"
  read_frame :: "bytes \<Rightarrow> ubus_error + ('f \<times> nat)"
  MAX_MSG_LEN :: nat

section \<open>Receiving\<close>

text \<open>An answer with no bytes is the end of the stream.\<close>

datatype read_answer = Got bytes | ReadBlocks | ReadInterrupted | ReadFails string

definition RX_BUF_CAP :: "'f codec \<Rightarrow> nat" where
  "RX_BUF_CAP C = MAX_MSG_LEN C * 2"

fun fill_rx :: "nat \<Rightarrow> read_answer list \<Rightarrow> bytes \<Rightarrow> (ubus_error + bool) \<times> bytes \<times> read_answer list" where
  "fill_rx cap [] rx_buf = (Inr False, rx_buf, [])"
| "fill_rx cap (Got data # as) rx_buf =
     (if data = [] then (Inr True, rx_buf, as)
      else if length rx_buf + length data > cap then (Inl (Malformed ''rx buffer exceeded cap''), [], as)
      else fill_rx cap as (rx_buf @ data))"
| "fill_rx cap (ReadBlocks # as) rx_buf = (Inr False, rx_buf, as)"
| "fill_rx cap (ReadInterrupted # as) rx_buf = fill_rx cap as rx_buf"
| "fill_rx cap (ReadFails e # as) rx_buf = (Inl (UbusIo e), rx_buf, as)"

definition recv :: "'f codec \<Rightarrow> read_answer list \<Rightarrow> bytes \<Rightarrow> (ubus_error + 'f option) \<times> bytes \<times> read_answer list" where
  "recv C answers rx_buf =
     (case fill_rx (RX_BUF_CAP C) answers rx_buf of
        (Inl e, _, answers) \<Rightarrow> (Inl e, [], answers)
      | (Inr closed, rx_buf, answers) \<Rightarrow>
          (case read_frame C rx_buf of
             Inr (frame, consumed) \<Rightarrow> (Inr (Some frame), drop consumed rx_buf, answers)
           | Inl Short \<Rightarrow> (if closed then Inl Closed else Inr None, rx_buf, answers)
           | Inl e \<Rightarrow> (Inl e, [], answers)))"

section \<open>Sending\<close>

text \<open>\<open>Takes n\<close>: the kernel has room for \<open>n\<close> bytes.  A blocked write carries whether the
  deadline has passed when it is looked at.\<close>

datatype write_answer = Takes nat | WriteBlocks bool | WriteInterrupted | WriteFails string

fun send_loop :: "write_answer list \<Rightarrow> bytes \<Rightarrow> nat \<Rightarrow> bytes \<Rightarrow> (ubus_error + unit) option \<times> bytes" where
  "send_loop as buf sent wire =
     (if \<not> sent < length buf then (Some (Inr ()), wire)
      else
        (case as of
           [] \<Rightarrow> (None, wire)
         | Takes room # as \<Rightarrow>
             (let n = min room (length (drop sent buf)) in
              if n = 0 then (Some (Inl Closed), wire)
              else send_loop as buf (sent + n) (wire @ take n (drop sent buf)))
         | WriteInterrupted # as \<Rightarrow> send_loop as buf sent wire
         | WriteBlocks past_deadline # as \<Rightarrow>
             (if past_deadline then (Some (Inl (UbusIo ''send timed out'')), wire)
              else send_loop as buf sent wire)
         | WriteFails e # as \<Rightarrow> (Some (Inl (UbusIo e)), wire)))"

declare send_loop.simps [simp del]

definition send_frame :: "'f codec \<Rightarrow> write_answer list \<Rightarrow> 'f \<Rightarrow> (ubus_error + unit) option \<times> bytes" where
  "send_frame C answers frame = send_loop answers (write_frame C frame) 0 []"

section \<open>What is sent\<close>

lemma send_loop_prefix:
  assumes "send_loop as buf sent wire = (r, out)" and "sent \<le> length buf" and "wire = take sent buf"
  shows "prefix out buf \<and> (r = Some (Inr ()) \<longleftrightarrow> out = buf)"
  using assms
proof (induction as buf sent wire rule: send_loop.induct)
  case (1 as buf sent wire)
  show ?case
  proof (cases "sent < length buf")
    case False
    with "1.prems" show ?thesis
      by (subst (asm) send_loop.simps) (auto simp: take_is_prefix)
  next
    case True
    then have part: "take sent buf \<noteq> buf"
      by (metis length_take less_irrefl min.absorb4)
    note unfold = "1.prems"(1) [unfolded send_loop.simps [of as]]
    show ?thesis
    proof (cases as)
      case (Cons a as')
      show ?thesis
      proof (cases a)
        case (Takes room)
        let ?n = "min room (length (drop sent buf))"
        show ?thesis
        proof (cases "?n = 0")
          case False
          have "take sent buf @ take ?n (drop sent buf) = take (sent + ?n) buf"
            by (simp add: take_add)
          with False Cons Takes True unfold "1.prems"(3) "1.IH"(1) [OF _ Cons Takes refl]
          show ?thesis by (auto simp: Let_def min_def split: if_splits)
        qed (use True part Cons Takes unfold "1.prems"(3) in \<open>auto simp: Let_def take_is_prefix\<close>)
      qed (use True part Cons unfold "1.prems" "1.IH" in \<open>auto simp: take_is_prefix split: if_splits\<close>)
    qed (use True part unfold "1.prems"(3) in \<open>auto simp: take_is_prefix\<close>)
  qed
qed

text \<open>A frame is sent whole or not at all reported: whatever pieces the kernel takes and however often
  it blocks or is interrupted, the bytes on the wire are a prefix of the encoded frame, in order, and the call
  reports success exactly when that prefix is the whole frame.\<close>

lemma send_frame_faithful:
  "case send_frame C answers frame of
     (r, wire) \<Rightarrow> prefix wire (write_frame C frame) \<and> (r = Some (Inr ()) \<longleftrightarrow> wire = write_frame C frame)"
  using send_loop_prefix [of answers "write_frame C frame" 0 "[]"] by (auto simp: send_frame_def split: prod.split)

section \<open>What is received\<close>

primrec answer_data :: "read_answer \<Rightarrow> bytes" where
  "answer_data (Got data) = data"
| "answer_data ReadBlocks = []"
| "answer_data ReadInterrupted = []"
| "answer_data (ReadFails e) = []"

definition answers_data :: "read_answer list \<Rightarrow> bytes" where
  "answers_data as = concat (map answer_data as)"

text \<open>The peer is still there and nothing failed.\<close>

definition quiet_answer :: "read_answer \<Rightarrow> bool" where
  "quiet_answer a = (case a of Got data \<Rightarrow> data \<noteq> [] | ReadFails _ \<Rightarrow> False | _ \<Rightarrow> True)"

primrec polls ::
  "'f codec \<Rightarrow> nat \<Rightarrow> read_answer list \<Rightarrow> bytes \<Rightarrow> (ubus_error + 'f option) list \<times> bytes \<times> read_answer list" where
  "polls C 0 as rx_buf = ([], rx_buf, as)"
| "polls C (Suc n) as rx_buf =
     (let (r, rx_buf, as) = recv C as rx_buf; (rs, rest) = polls C n as rx_buf in (r # rs, rest))"

lemma fill_rx_quiet:
  assumes "\<forall>a\<in>set as. quiet_answer a" and "length (rx_buf @ answers_data as) \<le> cap"
  shows "\<exists>pre post. as = pre @ post \<and> fill_rx cap as rx_buf = (Inr False, rx_buf @ answers_data pre, post) \<and>
    (as \<noteq> [] \<longrightarrow> pre \<noteq> [])"
  using assms
proof (induction cap as rx_buf rule: fill_rx.induct)
  case (2 cap data as rx_buf)
  then have "data \<noteq> []" "\<not> length rx_buf + length data > cap"
    by (auto simp: quiet_answer_def answers_data_def)
  with 2 obtain pre post where "as = pre @ post"
    "fill_rx cap as (rx_buf @ data) = (Inr False, (rx_buf @ data) @ answers_data pre, post)"
    by (auto simp: answers_data_def)
  with \<open>data \<noteq> []\<close> \<open>\<not> length rx_buf + length data > cap\<close> show ?case
    by (intro exI [of _ "Got data # pre"] exI [of _ post]) (simp add: answers_data_def)
next
  case (3 cap as rx_buf)
  show ?case
    by (intro exI [of _ "[ReadBlocks]"] exI [of _ as]) (simp add: answers_data_def)
next
  case (4 cap as rx_buf)
  then obtain pre post where "as = pre @ post" "fill_rx cap as rx_buf = (Inr False, rx_buf @ answers_data pre, post)"
    by (auto simp: answers_data_def)
  then show ?case
    by (intro exI [of _ "ReadInterrupted # pre"] exI [of _ post]) (simp add: answers_data_def)
qed (auto simp: answers_data_def quiet_answer_def)

locale frame_codec =
  fixes C :: "'f codec"
  assumes read_whole: "read_frame C (write_frame C f @ rest) = Inr (f, length (write_frame C f))"
    and read_part: "strict_prefix p (write_frame C f) \<Longrightarrow> read_frame C p = Inl Short"
    and write_nonempty: "write_frame C f \<noteq> []"
begin

lemma read_stream:
  assumes "b @ later = concat (map (write_frame C) fs)"
  shows "(\<exists>f fs' rest. fs = f # fs' \<and> b = write_frame C f @ rest \<and> read_frame C b = Inr (f, length (write_frame C f))) \<or>
    (read_frame C b = Inl Short \<and> (later = [] \<longrightarrow> fs = []))"
proof (cases fs)
  case Nil
  then have "b = []"
    using assms by simp
  then show ?thesis
    using Nil read_part [of "[]" undefined] write_nonempty [of undefined] by (simp add: strict_prefix_def)
next
  case (Cons f fs')
  then have "prefix b (write_frame C f @ concat (map (write_frame C) fs'))"
    using assms by (metis concat.simps(2) list.simps(9) prefixI)
  then consider rest where "b = write_frame C f @ rest" | "strict_prefix b (write_frame C f)"
    by (metis prefix_append prefix_order.le_less prefixE append_Nil2)
  then show ?thesis
  proof cases
    case 1
    then show ?thesis
      using Cons read_whole by auto
  next
    case 2
    then have "later \<noteq> []"
      using assms Cons write_nonempty
      by (metis append_Nil2 concat.simps(2) list.simps(9) prefix_def prefix_order.less_le_not_le)
    then show ?thesis
      using 2 read_part by blast
  qed
qed

lemma recv_step:
  assumes "\<forall>a\<in>set as. quiet_answer a" and "rx_buf @ answers_data as = concat (map (write_frame C) fs)"
    and "length (concat (map (write_frame C) fs)) \<le> RX_BUF_CAP C"
  shows "\<exists>r rx_buf' as' fs'. recv C as rx_buf = (Inr r, rx_buf', as') \<and> set as' \<subseteq> set as \<and>
    rx_buf' @ answers_data as' = concat (map (write_frame C) fs') \<and> fs = (case r of None \<Rightarrow> fs' | Some f \<Rightarrow> f # fs') \<and>
    (length as' + length fs' < length as + length fs \<or> as = [] \<and> fs = [])"
proof -
  from fill_rx_quiet [OF assms(1)] assms(2,3) obtain pre post where pre:
    "as = pre @ post" "fill_rx (RX_BUF_CAP C) as rx_buf = (Inr False, rx_buf @ answers_data pre, post)"
    "as \<noteq> [] \<longrightarrow> pre \<noteq> []"
    by (metis (no_types, lifting))
  let ?b = "rx_buf @ answers_data pre"
  have stream: "?b @ answers_data post = concat (map (write_frame C) fs)"
    using assms(2) pre(1) by (simp add: answers_data_def)
  from read_stream [OF stream] show ?thesis
  proof
    assume "\<exists>f fs' rest. fs = f # fs' \<and> ?b = write_frame C f @ rest \<and>
      read_frame C ?b = Inr (f, length (write_frame C f))"
    then obtain f fs' rest where f: "fs = f # fs'" "?b = write_frame C f @ rest"
      "read_frame C ?b = Inr (f, length (write_frame C f))"
      by blast
    have "recv C as rx_buf = (Inr (Some f), rest, post)"
      using pre(2) f(2,3) by (simp add: recv_def)
    moreover have "rest @ answers_data post = concat (map (write_frame C) fs')"
      using stream f(1,2) by simp
    ultimately show ?thesis
      using f(1) pre(1) by (intro exI [of _ "Some f"] exI [of _ rest] exI [of _ post] exI [of _ fs']) simp
  next
    assume short: "read_frame C ?b = Inl Short \<and> (answers_data post = [] \<longrightarrow> fs = [])"
    then have "recv C as rx_buf = (Inr None, ?b, post)"
      using pre(2) by (simp add: recv_def)
    moreover have "length post < length as \<or> as = [] \<and> fs = []"
      using pre(1,3) short by (cases "as = []") (auto simp: answers_data_def)
    ultimately show ?thesis
      using stream pre(1) by (intro exI [of _ None] exI [of _ ?b] exI [of _ post] exI [of _ fs]) auto
  qed
qed

lemma polls_deliver:
  assumes "\<forall>a\<in>set as. quiet_answer a" and "rx_buf @ answers_data as = concat (map (write_frame C) fs)"
    and "length (concat (map (write_frame C) fs)) \<le> RX_BUF_CAP C" and "length as + length fs \<le> n"
  shows "\<exists>rs. polls C n as rx_buf = (map Inr rs, [], []) \<and> concat (map (case_option [] (\<lambda>f. [f])) rs) = fs"
  using assms
proof (induction n arbitrary: as rx_buf fs)
  case 0
  then show ?case
    by (simp add: answers_data_def)
next
  case (Suc n)
  from recv_step [OF Suc.prems(1-3)] obtain r rx_buf' as' fs' where step:
    "recv C as rx_buf = (Inr r, rx_buf', as')" "set as' \<subseteq> set as"
    "rx_buf' @ answers_data as' = concat (map (write_frame C) fs')"
    "fs = (case r of None \<Rightarrow> fs' | Some f \<Rightarrow> f # fs')"
    "length as' + length fs' < length as + length fs \<or> as = [] \<and> fs = []"
    by blast
  have "\<forall>a\<in>set as'. quiet_answer a"
    using Suc.prems(1) step(2) by blast
  moreover have "length (concat (map (write_frame C) fs')) \<le> RX_BUF_CAP C"
    using Suc.prems(3) step(4) by (auto split: option.splits)
  moreover have "length as' + length fs' \<le> n"
    using step(2,4,5) Suc.prems(4) by (auto split: option.splits)
  ultimately obtain rs where "polls C n as' rx_buf' = (map Inr rs, [], [])"
    "concat (map (case_option [] (\<lambda>f. [f])) rs) = fs'"
    using Suc.IH step(3) by metis
  then show ?case
    using step(1,4) by (intro exI [of _ "r # rs"]) (simp split: option.split)
qed

end

section \<open>A codec with two kinds of frame\<close>

text \<open>A tag byte, followed by four bytes of content when the tag is 1.\<close>

datatype tagged_frame = Ping | Content u32

definition tagged_codec :: "tagged_frame codec" where
  "tagged_codec =
     \<lparr>write_frame = case_tagged_frame [0] (\<lambda>w. 1 # to_be32 w),
      read_frame = (\<lambda>bs. case bs of
          [] \<Rightarrow> Inl Short
        | tag # rest \<Rightarrow>
            if tag = 0 then Inr (Ping, 1)
            else if tag \<noteq> 1 then Inl (Malformed ''tag'')
            else if length rest < 4 then Inl Short
            else Inr (Content (from_be32 (take 4 rest)), 5)),
      MAX_MSG_LEN = 8\<rparr>"

interpretation tagged: frame_codec tagged_codec
proof unfold_locales
  show "read_frame tagged_codec (write_frame tagged_codec f @ rest) = Inr (f, length (write_frame tagged_codec f))" for f rest
    by (cases f) (simp_all add: tagged_codec_def be32.dec_enc)
  show "read_frame tagged_codec p = Inl Short" if "strict_prefix p (write_frame tagged_codec f)" for p f
    using that prefix_length_less [OF that]
    by (cases f; cases p) (auto simp: tagged_codec_def strict_prefix_def)
  show "write_frame tagged_codec f \<noteq> []" for f
    by (cases f) (simp_all add: tagged_codec_def)
qed



text \<open>A peer that closes leaves complete frames readable one by one; only then is the end reported, and
  it is reported again by every later poll that meets the end of the stream.\<close>

lemma recv_at_end:
  assumes "read_frame C rx_buf = Inl Short"
  shows "recv C (Got [] # as) rx_buf = (Inl Closed, rx_buf, as)"
  using assms by (simp add: recv_def)

lemma recv_overrun:
  assumes "data \<noteq> []" and "length rx_buf + length data > RX_BUF_CAP C"
  shows "recv C (Got data # as) rx_buf = (Inl (Malformed ''rx buffer exceeded cap''), [], as)"
  using assms by (simp add: recv_def)

end
