(* ===== verification/Interleaving.thy ===== *)
theory Interleaving
  imports Daemon
begin

text \<open>
  The threads of the daemon around a firmware upgrade, as a transition relation: the control thread that
  forwards commands and spawns a thread per firmware request, the request threads
  (\<open>handle_firmware_ipc\<close> in \<open>daemon.rs\<close>), and the worker
  (\<open>run\<close> and \<open>handle_firmware_upgrade\<close> in \<open>board_worker.rs\<close>).  They share the
  status under its lock, the first-in-first-out command channel of the worker and one reply channel per request.
  A step is what happens while one lock is held or one channel operation; any thread may make the next one.
\<close>

section \<open>State\<close>

text \<open>The worker waits for a command; has taken an upgrade; uploads; has sent a progress event and not yet
  published it; has published the final status and not yet sent the last event.\<close>

datatype wphase =
    Waiting
  | Taken bytes nat
  | Uploading nat
  | Reporting nat fw_progress
  | Closing nat "string + fw_upgrade_result"

text \<open>A request has not come; has its thread; has passed the check of the status; has handed its image to the
  worker; has ended.\<close>

datatype rphase = NotCome | Spawned | Cleared | Submitted | Ended

text \<open>The number beside a queued command is the request whose reply channel it carries, 0 for the control thread.\<close>

record sys =
  sy_status :: fw_status
  sy_queue :: "(worker_cmd \<times> nat) list"
  sy_worker :: wphase
  sy_req :: "nat \<Rightarrow> rphase"
  sy_chan :: "nat \<Rightarrow> fw_event list"
  sy_got :: "nat \<Rightarrow> fw_event list"

definition sys_init :: sys where
  "sys_init = \<lparr>sy_status = FwIdle, sy_queue = [], sy_worker = Waiting, sy_req = (\<lambda>_. NotCome),
     sy_chan = (\<lambda>_. []), sy_got = (\<lambda>_. [])\<rparr>"

section \<open>Steps of the threads\<close>

definition enqueue :: "worker_cmd \<Rightarrow> nat \<Rightarrow> sys \<Rightarrow> sys" where
  "enqueue c i s = s\<lparr>sy_queue := sy_queue s @ [(c, i)]\<rparr>"

definition set_req :: "nat \<Rightarrow> rphase \<Rightarrow> sys \<Rightarrow> sys" where
  "set_req i p s = s\<lparr>sy_req := (sy_req s)(i := p)\<rparr>"

definition reply :: "nat \<Rightarrow> fw_event \<Rightarrow> sys \<Rightarrow> sys" where
  "reply i ev s = s\<lparr>sy_chan := (sy_chan s)(i := sy_chan s i @ [ev])\<rparr>"

definition final_status :: "string + fw_upgrade_result \<Rightarrow> fw_status" where
  "final_status r = (case r of Inr _ \<Rightarrow> FwDone | Inl msg \<Rightarrow> FwFailed msg)"

inductive control_moves :: "sys \<Rightarrow> sys \<Rightarrow> bool" where
  forward_reload: "control_moves s (enqueue Reload 0 s)"
| forward_restart: "control_moves s (enqueue RestartLine 0 s)"
| spawn: "sy_req s i = NotCome \<Longrightarrow> 0 < i \<Longrightarrow> control_moves s (set_req i Spawned s)"

inductive request_moves :: "nat \<Rightarrow> sys \<Rightarrow> sys \<Rightarrow> bool" where
  refuse: "sy_req s i = Spawned \<Longrightarrow> \<not> upgrade_idle (sy_status s) \<Longrightarrow> request_moves i s (set_req i Ended s)"
| clear: "sy_req s i = Spawned \<Longrightarrow> upgrade_idle (sy_status s) \<Longrightarrow> request_moves i s (set_req i Cleared s)"
| bad_file: "sy_req s i = Cleared \<Longrightarrow> request_moves i s (set_req i Ended s)"
| submit: "sy_req s i = Cleared \<Longrightarrow> validate_image img = Inr hdr \<Longrightarrow>
    request_moves i s (set_req i Submitted (enqueue (FirmwareUpgrade img) i s))"
| hang_up: "sy_req s i = Submitted \<Longrightarrow> sy_chan s i = FwEvProgress p # evs \<Longrightarrow>
    request_moves i s (set_req i Ended
      (s\<lparr>sy_chan := (sy_chan s)(i := evs), sy_got := (sy_got s)(i := sy_got s i @ [FwEvProgress p])\<rparr>))"
| receive: "sy_req s i = Submitted \<Longrightarrow> sy_chan s i = ev # evs \<Longrightarrow>
    request_moves i s (set_req i (case ev of FwEvDone _ \<Rightarrow> Ended | FwEvProgress _ \<Rightarrow> Submitted)
      (s\<lparr>sy_chan := (sy_chan s)(i := evs), sy_got := (sy_got s)(i := sy_got s i @ [ev])\<rparr>))"

inductive worker_moves :: "sys \<Rightarrow> sys \<Rightarrow> bool" where
  serve: "sy_worker s = Waiting \<Longrightarrow> sy_queue s = (c, i) # q \<Longrightarrow> c = Reload \<or> c = RestartLine \<Longrightarrow>
    worker_moves s (s\<lparr>sy_queue := q\<rparr>)"
| take_upgrade: "sy_worker s = Waiting \<Longrightarrow> sy_queue s = (FirmwareUpgrade img, i) # q \<Longrightarrow>
    worker_moves s (s\<lparr>sy_queue := q, sy_worker := Taken img i\<rparr>)"
| begin_upload: "sy_worker s = Taken img i \<Longrightarrow> worker_moves s (s\<lparr>sy_status := FwUpgrading, sy_worker := Uploading i\<rparr>)"
| report: "sy_worker s = Uploading i \<Longrightarrow>
    worker_moves s (reply i (FwEvProgress p) (s\<lparr>sy_worker := Reporting i p\<rparr>))"
| publish: "sy_worker s = Reporting i p \<Longrightarrow>
    worker_moves s (s\<lparr>sy_status := FwProgressing (fp_stage p) (fp_pct p), sy_worker := Uploading i\<rparr>)"
| conclude: "sy_worker s = Uploading i \<Longrightarrow>
    worker_moves s (s\<lparr>sy_status := final_status r, sy_worker := Closing i r\<rparr>)"
| notify: "sy_worker s = Closing i r \<Longrightarrow> worker_moves s (reply i (FwEvDone r) (s\<lparr>sy_worker := Waiting\<rparr>))"

definition sys_step :: "sys \<Rightarrow> sys \<Rightarrow> bool" where
  "sys_step s s' \<longleftrightarrow> control_moves s s' \<or> (\<exists>i>0. request_moves i s s') \<or> worker_moves s s'"

abbreviation sys_reachable :: "sys \<Rightarrow> bool" where
  "sys_reachable s \<equiv> sys_step\<^sup>*\<^sup>* sys_init s"

lemmas thread_ops = enqueue_def set_req_def reply_def final_status_def

section \<open>Invariants of the threads\<close>

text \<open>A property of the shared state that no thread breaks holds in every reachable state.\<close>

locale thread_invariant =
  fixes I :: "sys \<Rightarrow> bool"
  assumes initial: "I sys_init"
    and control: "control_moves s s' \<Longrightarrow> I s \<Longrightarrow> I s'"
    and request: "request_moves i s s' \<Longrightarrow> I s \<Longrightarrow> I s'"
    and worker: "worker_moves s s' \<Longrightarrow> I s \<Longrightarrow> I s'"
begin

lemma step: "sys_step s s' \<Longrightarrow> I s \<Longrightarrow> I s'"
  using control request worker unfolding sys_step_def by blast

lemma reachable: "sys_reachable s \<Longrightarrow> I s"
  by (induction rule: rtranclp_induct) (auto intro: initial step)

end

section \<open>The status and the worker\<close>

definition uploading :: "wphase \<Rightarrow> bool" where
  "uploading p = (case p of Uploading _ \<Rightarrow> True | Reporting _ _ \<Rightarrow> True | _ \<Rightarrow> False)"

definition status_inv :: "sys \<Rightarrow> bool" where
  "status_inv s \<longleftrightarrow> (upgrade_idle (sy_status s) \<longleftrightarrow> \<not> uploading (sy_worker s))"

lemma status_inv_control: "control_moves s s' \<Longrightarrow> status_inv s \<Longrightarrow> status_inv s'"
  by (induction rule: control_moves.induct) (auto simp: status_inv_def thread_ops)

lemma status_inv_request: "request_moves i s s' \<Longrightarrow> status_inv s \<Longrightarrow> status_inv s'"
  by (induction rule: request_moves.induct) (auto simp: status_inv_def thread_ops)

lemma status_inv_worker: "worker_moves s s' \<Longrightarrow> status_inv s \<Longrightarrow> status_inv s'"
  by (induction rule: worker_moves.induct)
     (auto simp: status_inv_def thread_ops uploading_def upgrade_idle_def split: sum.splits)

lemma status_inv_init: "status_inv sys_init"
  by (simp add: status_inv_def sys_init_def uploading_def upgrade_idle_def)

interpretation status_truth: thread_invariant status_inv
  by unfold_locales (rule status_inv_init status_inv_control status_inv_request status_inv_worker; assumption?)+

section \<open>The events of a request\<close>

definition is_verdict :: "fw_event \<Rightarrow> bool" where
  "is_verdict ev = (case ev of FwEvDone _ \<Rightarrow> True | FwEvProgress _ \<Rightarrow> False)"

definition events_of :: "nat \<Rightarrow> sys \<Rightarrow> fw_event list" where
  "events_of i s = sy_got s i @ sy_chan s i"

definition queued_for :: "nat \<Rightarrow> worker_cmd \<times> nat \<Rightarrow> bool" where
  "queued_for i e = (case e of (FirmwareUpgrade _, j) \<Rightarrow> j = i | _ \<Rightarrow> False)"

definition works_on :: "nat \<Rightarrow> wphase \<Rightarrow> bool" where
  "works_on i p = (case p of Waiting \<Rightarrow> False | Taken _ j \<Rightarrow> j = i | Uploading j \<Rightarrow> j = i | Reporting j _ \<Rightarrow> j = i
     | Closing j _ \<Rightarrow> j = i)"

definition jobs :: "nat \<Rightarrow> sys \<Rightarrow> nat" where
  "jobs i s = length (filter (queued_for i) (sy_queue s)) + (if works_on i (sy_worker s) then 1 else 0)"

definition verdicts :: "nat \<Rightarrow> sys \<Rightarrow> nat" where
  "verdicts i s = length (filter is_verdict (events_of i s))"

definition request_inv :: "nat \<Rightarrow> sys \<Rightarrow> bool" where
  "request_inv i s \<longleftrightarrow>
     filter is_verdict (butlast (events_of i s)) = [] \<and>
     (if sy_req s i \<in> {NotCome, Spawned, Cleared} then events_of i s = [] \<and> jobs i s = 0
      else if sy_req s i = Submitted then jobs i s + verdicts i s = 1 \<and> filter is_verdict (sy_got s i) = []
      else (events_of i s = [] \<and> jobs i s = 0) \<or> jobs i s + verdicts i s = 1)"

lemmas request_inv_defs = request_inv_def events_of_def verdicts_def jobs_def

lemma is_verdict_simps [simp]: "\<not> is_verdict (FwEvProgress p)" "is_verdict (FwEvDone r)"
  by (simp_all add: is_verdict_def)

lemma request_inv_control: "control_moves s s' \<Longrightarrow> request_inv i s \<Longrightarrow> request_inv i s'"
  by (induction rule: control_moves.induct) (auto simp: request_inv_defs thread_ops queued_for_def)

lemma request_inv_frame:
  "sy_req s' i = sy_req s i \<Longrightarrow> sy_chan s' i = sy_chan s i \<Longrightarrow> sy_got s' i = sy_got s i \<Longrightarrow> jobs i s' = jobs i s \<Longrightarrow>
   request_inv i s' = request_inv i s"
  by (simp add: request_inv_def events_of_def verdicts_def)

lemma request_frame:
  "request_moves j s s' \<Longrightarrow> i \<noteq> j \<Longrightarrow>
   sy_req s' i = sy_req s i \<and> sy_chan s' i = sy_chan s i \<and> sy_got s' i = sy_got s i \<and> jobs i s' = jobs i s"
  by (induction rule: request_moves.induct) (simp_all add: thread_ops jobs_def queued_for_def)

text \<open>The invariant speaks of four quantities only; what a step does to them decides whether it is kept.\<close>

lemma request_inv_quantities:
  "request_inv i s \<longleftrightarrow>
     (let es = events_of i s; n = jobs i s; v = length (filter is_verdict es) in
      filter is_verdict (butlast es) = [] \<and>
      (case sy_req s i of
         Submitted \<Rightarrow> n + v = 1 \<and> filter is_verdict (sy_got s i) = []
       | Ended \<Rightarrow> es = [] \<and> n = 0 \<or> n + v = 1
       | _ \<Rightarrow> es = [] \<and> n = 0))"
  by (cases "sy_req s i") (simp_all add: request_inv_def verdicts_def Let_def)

lemma receive_quantities:
  assumes "sy_chan s i = ev # evs"
    and "s' = set_req i p (s\<lparr>sy_chan := (sy_chan s)(i := evs), sy_got := (sy_got s)(i := sy_got s i @ [ev])\<rparr>)"
  shows "events_of i s' = events_of i s" "jobs i s' = jobs i s" "sy_req s' i = p" "sy_got s' i = sy_got s i @ [ev]"
  using assms by (simp_all add: events_of_def jobs_def set_req_def)

lemma request_inv_own: "request_moves i s s' \<Longrightarrow> request_inv i s \<Longrightarrow> request_inv i s'"
proof (induction rule: request_moves.induct)
  case (hang_up s i p evs)
  from hang_up.prems hang_up.hyps(1) receive_quantities [OF hang_up.hyps(2) refl, of Ended] show ?case
    unfolding request_inv_quantities Let_def by simp
next
  case (receive s i ev evs)
  from receive.prems receive.hyps(1) receive_quantities [OF receive.hyps(2) refl]
  show ?case
    unfolding request_inv_quantities Let_def by (cases ev) simp_all
qed (simp_all add: request_inv_quantities events_of_def jobs_def thread_ops queued_for_def Let_def)

lemma request_inv_request: "request_moves j s s' \<Longrightarrow> request_inv i s \<Longrightarrow> request_inv i s'"
  using request_inv_own request_inv_frame request_frame by (metis (no_types, lifting))

lemma works_on_verdicts:
  assumes "request_inv i s" and "works_on i (sy_worker s)"
  shows "filter is_verdict (events_of i s) = []" and "sy_req s i = Submitted \<or> sy_req s i = Ended"
    and "jobs i s = 1"
proof -
  have "1 \<le> jobs i s"
    using assms(2) by (simp add: jobs_def)
  then show "filter is_verdict (events_of i s) = []" "sy_req s i = Submitted \<or> sy_req s i = Ended" "jobs i s = 1"
    using assms(1) unfolding request_inv_quantities Let_def
    by (cases "sy_req s i"; auto simp flip: length_0_conv)+
qed

lemma reply_quantities:
  assumes "s' = reply j ev (s\<lparr>sy_worker := ph\<rparr>)"
  shows "events_of i s' = events_of i s @ (if i = j then [ev] else [])" "sy_req s' i = sy_req s i"
    "sy_got s' i = sy_got s i"
    "works_on j (sy_worker s) \<Longrightarrow> (\<forall>k. k \<noteq> j \<longrightarrow> \<not> works_on k (sy_worker s) \<and> \<not> works_on k ph) \<Longrightarrow>
      jobs i s' = (if i = j \<and> \<not> works_on j ph then jobs i s - 1 else jobs i s)"
  using assms by (auto simp: events_of_def jobs_def reply_def)

lemma request_inv_reply:
  assumes inv: "request_inv i s" and phase: "works_on j (sy_worker s)"
    and "\<And>k. k \<noteq> j \<Longrightarrow> \<not> works_on k (sy_worker s) \<and> \<not> works_on k ph" and ev: "works_on j ph \<longleftrightarrow> \<not> is_verdict ev"
  shows "request_inv i (reply j ev (s\<lparr>sy_worker := ph\<rparr>))"
proof -
  let ?s' = "reply j ev (s\<lparr>sy_worker := ph\<rparr>)"
  note q = reply_quantities [OF refl, where i = i and j = j and ev = ev and s = s and ph = ph]
  have jobs: "jobs i ?s' = (if i = j \<and> is_verdict ev then jobs i s - 1 else jobs i s)"
    using q(4) assms(2-4) by simp
  show ?thesis
  proof (cases "i = j")
    case True
    with phase inv have "filter is_verdict (events_of i s) = []" "sy_req s i = Submitted \<or> sy_req s i = Ended" "jobs i s = 1"
      using works_on_verdicts [of i s] by auto
    with True jobs q(1-3) inv show ?thesis
      by (elim disjE) (simp_all add: request_inv_quantities Let_def)
  next
    case False
    with jobs inv show ?thesis
      using request_inv_frame [of ?s' i s] by (simp add: reply_def)
  qed
qed

lemma request_inv_phase:
  "works_on i ph = works_on i (sy_worker s) \<Longrightarrow>
   request_inv i (s\<lparr>sy_status := st, sy_worker := ph\<rparr>) = request_inv i s"
  by (rule request_inv_frame) (simp_all add: jobs_def)

lemma request_inv_worker: "worker_moves s s' \<Longrightarrow> request_inv i s \<Longrightarrow> request_inv i s'"
proof (induction rule: worker_moves.induct)
  case (report s j p)
  then show ?case
    by (intro request_inv_reply) (simp_all add: works_on_def)
next
  case (notify s j r)
  then show ?case
    by (intro request_inv_reply) (simp_all add: works_on_def)
next
  case (serve s c j q)
  then have "\<not> queued_for i (c, j)"
    by (auto simp: queued_for_def)
  with serve have "jobs i (s\<lparr>sy_queue := q\<rparr>) = jobs i s"
    by (simp add: jobs_def)
  with serve.prems show ?case
    using request_inv_frame [of "s\<lparr>sy_queue := q\<rparr>" i s] by simp
next
  case (take_upgrade s img j q)
  then have "jobs i (s\<lparr>sy_queue := q, sy_worker := Taken img j\<rparr>) = jobs i s"
    by (simp add: jobs_def queued_for_def works_on_def)
  with take_upgrade.prems show ?case
    using request_inv_frame [of "s\<lparr>sy_queue := q, sy_worker := Taken img j\<rparr>" i s] by simp
qed (simp_all add: request_inv_phase works_on_def)

lemma request_inv_init: "request_inv i sys_init"
  by (simp add: request_inv_def events_of_def jobs_def sys_init_def works_on_def)

interpretation verdict: thread_invariant "request_inv i" for i
  by unfold_locales (rule request_inv_init request_inv_control request_inv_request request_inv_worker; assumption?)+

section \<open>Runs\<close>

lemma run_control: "sys_step\<^sup>*\<^sup>* a s \<Longrightarrow> control_moves s s' \<Longrightarrow> sys_step\<^sup>*\<^sup>* a s'"
  by (rule rtranclp.rtrancl_into_rtrancl) (auto simp: sys_step_def)

lemma run_request: "sys_step\<^sup>*\<^sup>* a s \<Longrightarrow> request_moves i s s' \<Longrightarrow> 0 < i \<Longrightarrow> sys_step\<^sup>*\<^sup>* a s'"
  by (rule rtranclp.rtrancl_into_rtrancl) (auto simp: sys_step_def)

lemma run_worker: "sys_step\<^sup>*\<^sup>* a s \<Longrightarrow> worker_moves s s' \<Longrightarrow> sys_step\<^sup>*\<^sup>* a s'"
  by (rule rtranclp.rtrancl_into_rtrancl) (auto simp: sys_step_def)

lemma run_clear:
  assumes "sys_step\<^sup>*\<^sup>* a s" and "sy_req s i = NotCome" and "0 < i" and "upgrade_idle (sy_status s)"
  shows "sys_step\<^sup>*\<^sup>* a (set_req i Cleared s)"
proof -
  have "sys_step\<^sup>*\<^sup>* a (set_req i Spawned s)"
    using assms(1-3) by (blast intro: run_control spawn)
  moreover have "request_moves i (set_req i Spawned s) (set_req i Cleared (set_req i Spawned s))"
    using assms(4) by (intro clear) (simp_all add: set_req_def)
  moreover have "set_req i Cleared (set_req i Spawned s) = set_req i Cleared s"
    by (simp add: set_req_def)
  ultimately show ?thesis
    using assms(3) by (metis run_request)
qed

lemma run_submit:
  "sys_step\<^sup>*\<^sup>* a s \<Longrightarrow> sy_req s i = Cleared \<Longrightarrow> validate_image img = Inr hdr \<Longrightarrow> 0 < i \<Longrightarrow>
   sys_step\<^sup>*\<^sup>* a (set_req i Submitted (enqueue (FirmwareUpgrade img) i s))"
  by (blast intro: run_request submit)

definition both_submitted :: "bytes \<Rightarrow> sys" where
  "both_submitted img =
     set_req 2 Submitted (enqueue (FirmwareUpgrade img) 2
       (set_req 1 Submitted (enqueue (FirmwareUpgrade img) 1 (set_req 2 Cleared (set_req 1 Cleared sys_init)))))"

lemma both_submitted_reachable:
  assumes "validate_image img = Inr hdr"
  shows "sys_reachable (both_submitted img)"
proof -
  have "sys_reachable (set_req 1 Cleared sys_init)"
    by (rule run_clear) (simp_all add: sys_init_def upgrade_idle_def)
  then have "sys_reachable (set_req 2 Cleared (set_req 1 Cleared sys_init))"
    by (rule run_clear) (simp_all add: sys_init_def set_req_def upgrade_idle_def)
  then have "sys_reachable (set_req 1 Submitted (enqueue (FirmwareUpgrade img) 1
      (set_req 2 Cleared (set_req 1 Cleared sys_init))))"
    by (rule run_submit [OF _ _ assms]) (simp_all add: set_req_def)
  then show ?thesis
    unfolding both_submitted_def
    by (rule run_submit [OF _ _ assms]) (simp_all add: set_req_def enqueue_def)
qed

text \<open>What the worker does with the upgrade at the front of its queue.\<close>

lemma run_upgrade:
  assumes "sy_worker s = Waiting" and "sy_queue s = (FirmwareUpgrade img, i) # q"
  shows "sys_step\<^sup>*\<^sup>* s (s\<lparr>sy_queue := q, sy_status := FwUpgrading, sy_worker := Uploading i\<rparr>)"
    and "sys_step\<^sup>*\<^sup>* s (reply i (FwEvDone r) (s\<lparr>sy_queue := q, sy_status := final_status r, sy_worker := Waiting\<rparr>))"
proof -
  have 1: "sys_step\<^sup>*\<^sup>* s (s\<lparr>sy_queue := q, sy_worker := Taken img i\<rparr>)"
    using assms by (blast intro: run_worker take_upgrade)
  have "sys_step\<^sup>*\<^sup>* s ((s\<lparr>sy_queue := q, sy_worker := Taken img i\<rparr>)\<lparr>sy_status := FwUpgrading, sy_worker := Uploading i\<rparr>)"
    by (rule run_worker [OF 1 begin_upload]) simp
  then show 2: "sys_step\<^sup>*\<^sup>* s (s\<lparr>sy_queue := q, sy_status := FwUpgrading, sy_worker := Uploading i\<rparr>)"
    by simp
  have "sys_step\<^sup>*\<^sup>* s ((s\<lparr>sy_queue := q, sy_status := FwUpgrading, sy_worker := Uploading i\<rparr>)
      \<lparr>sy_status := final_status r, sy_worker := Closing i r\<rparr>)"
    by (rule run_worker [OF 2 conclude]) simp
  then have 3: "sys_step\<^sup>*\<^sup>* s (s\<lparr>sy_queue := q, sy_status := final_status r, sy_worker := Closing i r\<rparr>)"
    by simp
  have "sys_step\<^sup>*\<^sup>* s (reply i (FwEvDone r)
      ((s\<lparr>sy_queue := q, sy_status := final_status r, sy_worker := Closing i r\<rparr>)\<lparr>sy_worker := Waiting\<rparr>))"
    by (rule run_worker [OF 3 notify]) simp
  then show "sys_step\<^sup>*\<^sup>* s (reply i (FwEvDone r) (s\<lparr>sy_queue := q, sy_status := final_status r, sy_worker := Waiting\<rparr>))"
    by simp
qed

section \<open>Properties\<close>

text \<open>C26. The shared status says whether an upload is going on: in every state the threads can reach, whatever
  their interleaving, the status is one that lets a request pass exactly when the worker is not between the start
  and the end of an upload; so a request that looks at it during an upload is refused, nothing is queued for it
  and its client is told so.\<close>

theorem upgrade_status_truth:
  assumes "sys_reachable s"
  shows "(upgrade_idle (sy_status s) \<longleftrightarrow> \<not> uploading (sy_worker s)) \<and>
    (if uploading (sy_worker s) \<and> ds_fw_status st = sy_status s
     then request_upgrade show_io st file path worker_alive stream =
       (None, put (err_reply ''upgrade already in progress'') stream)
     else True)"
  using status_truth.reachable [OF assms] by (simp add: status_inv_def request_upgrade_def)

theorem upgrade_status_truth_witness:
  "\<exists>s. sys_reachable s \<and> sy_worker s = Uploading 1 \<and> \<not> upgrade_idle (sy_status s)"
proof -
  let ?q = "both_submitted forged_image"
  have "sys_reachable ?q"
    by (rule both_submitted_reachable [OF forged_image_accepted])
  moreover have "sys_step\<^sup>*\<^sup>* ?q (?q\<lparr>sy_queue := [(FirmwareUpgrade forged_image, 2)], sy_status := FwUpgrading,
      sy_worker := Uploading 1\<rparr>)"
    by (rule run_upgrade(1) [where img = forged_image]) (simp_all add: both_submitted_def set_req_def enqueue_def sys_init_def)
  ultimately have "sys_reachable (?q\<lparr>sy_queue := [(FirmwareUpgrade forged_image, 2)], sy_status := FwUpgrading,
      sy_worker := Uploading 1\<rparr>)"
    by (rule rtranclp_trans)
  from upgrade_status_truth [OF this] this show ?thesis
    by (auto simp: uploading_def intro!: exI)
qed





section \<open>The worker's handler as a run of its steps\<close>

lemma progress_events: "w_events (fold on_progress evs w) = w_events w @ map FwEvProgress evs"
  by (induction evs arbitrary: w) (simp_all add: on_progress_def set_fw_status_def send_event_def)

lemma run_progress:
  assumes "sy_worker s = Uploading i" and "sy_status s = ds_fw_status (w_state w)"
  shows "worker_moves\<^sup>*\<^sup>* s
    (s\<lparr>sy_status := ds_fw_status (w_state (fold on_progress evs w)),
       sy_chan := (sy_chan s)(i := sy_chan s i @ map FwEvProgress evs)\<rparr>)"
  using assms
proof (induction evs arbitrary: s w)
  case Nil
  then have "s\<lparr>sy_status := ds_fw_status (w_state w), sy_chan := (sy_chan s)(i := sy_chan s i @ [])\<rparr> = s"
    by (cases s) simp
  then show ?case
    by simp
next
  case (Cons p evs)
  let ?a = "reply i (FwEvProgress p) (s\<lparr>sy_worker := Reporting i p\<rparr>)"
  let ?b = "?a\<lparr>sy_status := FwProgressing (fp_stage p) (fp_pct p), sy_worker := Uploading i\<rparr>"
  have "worker_moves s ?a"
    using Cons.prems(1) by (rule report)
  moreover have "worker_moves ?a ?b"
    by (rule publish) (simp add: reply_def)
  moreover have "worker_moves\<^sup>*\<^sup>* ?b
      (?b\<lparr>sy_status := ds_fw_status (w_state (fold on_progress evs (on_progress p w))),
         sy_chan := (sy_chan ?b)(i := sy_chan ?b i @ map FwEvProgress evs)\<rparr>)"
    by (rule Cons.IH) (simp_all add: on_progress_def set_fw_status_def)
  ultimately have "worker_moves\<^sup>*\<^sup>* s
      (?b\<lparr>sy_status := ds_fw_status (w_state (fold on_progress evs (on_progress p w))),
         sy_chan := (sy_chan ?b)(i := sy_chan ?b i @ map FwEvProgress evs)\<rparr>)"
    by (meson converse_rtranclp_into_rtranclp)
  moreover have "?b\<lparr>sy_status := ds_fw_status (w_state (fold on_progress evs (on_progress p w))),
         sy_chan := (sy_chan ?b)(i := sy_chan ?b i @ map FwEvProgress evs)\<rparr> =
      s\<lparr>sy_status := ds_fw_status (w_state (fold on_progress (p # evs) w)),
        sy_chan := (sy_chan s)(i := sy_chan s i @ map FwEvProgress (p # evs))\<rparr>"
    using Cons.prems(1) by (simp add: reply_def)
  ultimately show ?case
    by (simp only:)
qed

text \<open>C29. The handler of the worker that the sequential model runs in one go is a run of the steps of the
  worker's thread: from the state in which the worker has taken the upgrade, its thread can move, without any other
  thread, to one in which it waits again, the shared status is the handler's final status and the reply channel
  has received exactly the events the handler sent, in their order; the queue and the other requests are
  untouched.\<close>

theorem handler_is_a_run:
  assumes "handle_firmware_upgrade T E show_io img w = Returns w'" and "sy_worker s = Taken img i"
  shows "\<exists>s' sent. worker_moves\<^sup>*\<^sup>* s s' \<and> sy_worker s' = Waiting \<and> sy_status s' = ds_fw_status (w_state w') \<and>
    w_events w' = w_events w @ sent \<and> sy_chan s' = (sy_chan s)(i := sy_chan s i @ sent) \<and>
    sy_queue s' = sy_queue s \<and> sy_req s' = sy_req s \<and> sy_got s' = sy_got s"
proof -
  let ?w = "set_fw_status FwUpgrading w"
  from assms(1) obtain r evs b where run: "firmware_upgrade T E img (w_board ?w) = Returns (r, evs, b)"
    by (auto simp: handle_firmware_upgrade_def bind_outcome_Returns Let_def)
  define v :: "string + fw_upgrade_result" where "v = map_sum (board_error_text show_io) id r"
  have w': "w' = send_event (FwEvDone v) (set_fw_status (final_status v) ((fold on_progress evs ?w)\<lparr>w_board := b\<rparr>))"
    using assms(1) run by (auto simp: handle_firmware_upgrade_def v_def final_status_def Let_def split: sum.splits)
  let ?u = "s\<lparr>sy_status := FwUpgrading, sy_worker := Uploading i\<rparr>"
  let ?p = "?u\<lparr>sy_status := ds_fw_status (w_state (fold on_progress evs ?w)),
    sy_chan := (sy_chan ?u)(i := sy_chan ?u i @ map FwEvProgress evs)\<rparr>"
  let ?c = "?p\<lparr>sy_status := final_status v, sy_worker := Closing i v\<rparr>"
  let ?s' = "reply i (FwEvDone v) (?c\<lparr>sy_worker := Waiting\<rparr>)"
  have "worker_moves s ?u"
    using assms(2) by (rule begin_upload)
  moreover have "worker_moves\<^sup>*\<^sup>* ?u ?p"
    by (rule run_progress) (simp_all add: set_fw_status_def)
  moreover have "worker_moves ?p ?c"
    by (rule conclude) simp
  moreover have "worker_moves ?c ?s'"
    by (rule notify) simp
  ultimately have "worker_moves\<^sup>*\<^sup>* s ?s'"
    by (meson converse_rtranclp_into_rtranclp rtranclp.rtrancl_into_rtrancl)
  moreover have "w_events w' = w_events w @ map FwEvProgress evs @ [FwEvDone v]"
    by (simp add: w' send_event_def set_fw_status_def progress_events)
  moreover have "sy_status ?s' = ds_fw_status (w_state w')"
    by (simp add: w' reply_def send_event_def set_fw_status_def)
  ultimately show ?thesis
    by (intro exI [of _ ?s'] exI [of _ "map FwEvProgress evs @ [FwEvDone v]"]) (simp add: reply_def)
qed

theorem handler_is_a_run_witness:
  "\<exists>w' s'. handle_firmware_upgrade silent_transport null_engine (\<lambda>e. []) [1, 2, 3] (sample_worker None) = Returns w' \<and>
     worker_moves\<^sup>*\<^sup>* (sys_init\<lparr>sy_worker := Taken [1, 2, 3] 1\<rparr>) s' \<and> sy_worker s' = Waiting \<and>
     sy_status s' = ds_fw_status (w_state w')"
proof -
  obtain w' where run:
    "handle_firmware_upgrade silent_transport null_engine (\<lambda>e. []) [1, 2, 3] (sample_worker None) = Returns w'"
    using upgrade_command_completes_witness by blast
  from handler_is_a_run [OF run, of "sys_init\<lparr>sy_worker := Taken [1, 2, 3] 1\<rparr>" 1] run show ?thesis
    by auto
qed

end
