(* ===== verification/Cli.thy ===== *)
theory Cli
  imports Daemon
begin

text \<open>
  The command line (\<open>rbctl_dsl/src/main.rs\<close>): the arguments of the daemon, their translation into the
  overrides of the configuration loader, and which part of the program a command runs.  Splitting the command line
  into these arguments is the work of a third-party parser.
\<close>

record daemon_args =
  da_config_iface :: string
  da_notify :: "string option"
  da_syslog :: bool
  da_annex :: "string option"
  da_line_mode :: "string option"
  da_tone :: "string option"
  da_xfer_mode :: "string option"
  da_vpi :: "string option"
  da_vci :: "string option"
  da_encaps :: "string option"
  da_payload :: "string option"
  da_bitswap :: "bool option"
  da_sra :: "bool option"
  da_transport_vlan :: "byte option"

definition to_overrides :: "daemon_args \<Rightarrow> cli_overrides" where
  "to_overrides args =
     \<lparr>ov_annex = da_annex args,
      ov_line_mode = da_line_mode args,
      ov_tone = da_tone args,
      ov_xfer_mode = da_xfer_mode args,
      ov_vpi = da_vpi args,
      ov_vci = da_vci args,
      ov_encaps = da_encaps args,
      ov_payload = da_payload args,
      ov_bitswap = da_bitswap args,
      ov_sra = da_sra args,
      ov_transport_vlan = da_transport_vlan args\<rparr>"

datatype command =
    ArgDaemon daemon_args
  | ArgStatus
  | ArgReload
  | ArgRestartLine
  | ArgStop
  | ArgFirmwareUpgrade string
  | ArgSelftest string
  | ArgSniff string "string option"

datatype log_sink = Syslog | Stderr

definition log_sink_of :: "command \<Rightarrow> log_sink" where
  "log_sink_of cmd =
     (case cmd of ArgDaemon args \<Rightarrow> (if da_syslog args then Syslog else Stderr) | _ \<Rightarrow> Stderr)"

text \<open>What \<open>main\<close> runs, with the exit code of each part given by that part; the sniffer only ends when
  its socket cannot be opened.\<close>

definition main_exit ::
  "(string \<Rightarrow> string option \<Rightarrow> cli_overrides \<Rightarrow> nat) \<Rightarrow> (ipc_cmd \<Rightarrow> nat) \<Rightarrow> (string \<Rightarrow> nat) \<Rightarrow> (string \<Rightarrow> nat) \<Rightarrow>
   (string \<Rightarrow> string option \<Rightarrow> nat) \<Rightarrow> command \<Rightarrow> nat" where
  "main_exit daemon client upgrade selftest sniff cmd =
     (case cmd of
        ArgDaemon args \<Rightarrow> daemon (da_config_iface args) (da_notify args) (to_overrides args)
      | ArgStatus \<Rightarrow> client CmdStatus
      | ArgReload \<Rightarrow> client CmdReload
      | ArgRestartLine \<Rightarrow> client CmdRestart
      | ArgStop \<Rightarrow> client CmdStop
      | ArgFirmwareUpgrade path \<Rightarrow> upgrade path
      | ArgSelftest iface \<Rightarrow> selftest iface
      | ArgSniff iface dump \<Rightarrow> sniff iface dump)"

text \<open>Every text option given, over a stored configuration of nonsense.\<close>

definition sample_args :: daemon_args where
  "sample_args =
     \<lparr>da_config_iface = ''lan0.500'', da_notify = None, da_syslog = False, da_annex = Some ''j'',
      da_line_mode = Some ''vdsl'', da_tone = Some ''av'', da_xfer_mode = Some ''ptm'', da_vpi = None, da_vci = None,
      da_encaps = None, da_payload = None, da_bitswap = Some False, da_sra = None, da_transport_vlan = Some 3\<rparr>"

section \<open>Options win over the stored configuration\<close>

definition given :: "string option \<Rightarrow> (string \<Rightarrow> bool) \<Rightarrow> bool" where
  "given opt P = (case nonempty opt of None \<Rightarrow> True | Some v \<Rightarrow> P v)"

lemma given_resolved: "P (resolve get_opt opt key d) \<Longrightarrow> given opt P"
  by (auto simp: given_def resolve_def or_else_def unwrap_or_def split: option.split)

text \<open>C30. An option on the command line decides its setting: whatever the stored configuration says, in every
  configuration the daemon loads with its arguments, an annex, line mode, tone or transfer mode that is given and not
  empty is the one in force (the tone only where the modulation has profiles), the bitswap and SRA flags are the given
  ones, the VLAN base is the given one cut to seven, and on an ATM line the given circuit is used.\<close>

theorem options_decide:
  assumes "load_config (Inr get_opt) (to_overrides args) = Inr c"
  shows "given (da_annex args) (\<lambda>a. parse_annex a = Inr (dc_annex c)) \<and>
    given (da_xfer_mode args) (\<lambda>x. parse_xfer_mode x = Inr (dc_xfer_mode c)) \<and>
    given (da_line_mode args) (\<lambda>m. \<exists>x. parse_modulation m x = Inr (dc_modulation c)) \<and>
    given (da_tone args) (\<lambda>t. \<exists>p. parse_tone t = Inr p \<and>
      dc_profiles c = (if dc_modulation c = Vdsl2 \<or> dc_modulation c = Multimode then p else 0)) \<and>
    (case da_bitswap args of None \<Rightarrow> True | Some b \<Rightarrow> dc_bitswap c = b) \<and>
    (case da_sra args of None \<Rightarrow> True | Some b \<Rightarrow> dc_sra c = b) \<and>
    (case da_transport_vlan args of None \<Rightarrow> True | Some v \<Rightarrow> dc_transport_vlan_base c = min v 7) \<and>
    (case dc_atm c of
       None \<Rightarrow> dc_xfer_mode c = Ptm
     | Some atm \<Rightarrow> dc_xfer_mode c = Atm \<and>
         given (da_vpi args) (\<lambda>v. ac_vpi atm = unwrap_or (parse_u8 v) 8) \<and>
         given (da_vci args) (\<lambda>v. ac_vci atm = unwrap_or (parse_u16 v) 35) \<and>
         given (da_encaps args) (\<lambda>e. parse_encaps e = Inr (ac_encap atm)) \<and>
         given (da_payload args) (\<lambda>p. parse_payload p = Inr (ac_link_type atm)))"
proof -
  let ?ov = "to_overrides args"
  let ?lm = "resolve_line_mode get_opt ?ov"
  let ?xs = "resolve get_opt (ov_xfer_mode ?ov) ''network.dsl.xfer_mode'' (fst (smart_defaults ?lm))"
  let ?tn = "resolve get_opt (ov_tone ?ov) ''network.dsl.tone'' (snd (smart_defaults ?lm))"
  let ?an = "resolve get_opt (ov_annex ?ov) ''network.dsl.annex'' ''b''"
  obtain p where parts: "parse_modulation ?lm ?xs = Inr (dc_modulation c)" "parse_annex ?an = Inr (dc_annex c)"
    "parse_tone ?tn = Inr p" "parse_xfer_mode ?xs = Inr (dc_xfer_mode c)"
    "dc_profiles c = (if dc_modulation c = Vdsl2 \<or> dc_modulation c = Multimode then p else 0)"
    "(if dc_xfer_mode c = Atm then map_sum id Some (build_atm get_opt ?ov) else Inr None) = Inr (dc_atm c)"
    "dc_bitswap c = unwrap_or (ov_bitswap ?ov) (uci_flag get_opt ''network.dsl.bitswap'')"
    "dc_sra c = unwrap_or (ov_sra ?ov) (uci_flag get_opt ''network.dsl.sra'')"
    "dc_transport_vlan_base c = min (unwrap_or (ov_transport_vlan ?ov)
      (unwrap_or (parse_u8 (uci_get get_opt ''network.dsl.transport_vlan'')) 0)) 7"
    using assms
    by (auto simp: load_config_def build_config_def Let_def split_beta split: sum.splits if_splits)
  have "given (da_line_mode args) (\<lambda>m. ?lm = m)"
    by (auto simp: given_def resolve_line_mode_def to_overrides_def or_else_def unwrap_or_def split: option.split)
  then have lm: "given (da_line_mode args) (\<lambda>m. \<exists>x. parse_modulation m x = Inr (dc_modulation c))"
    using parts(1) by (auto simp: given_def split: option.splits)
  have strings: "given (da_annex args) (\<lambda>a. parse_annex a = Inr (dc_annex c))"
    "given (da_xfer_mode args) (\<lambda>x. parse_xfer_mode x = Inr (dc_xfer_mode c))"
    "given (da_tone args) (\<lambda>t. \<exists>p. parse_tone t = Inr p \<and>
      dc_profiles c = (if dc_modulation c = Vdsl2 \<or> dc_modulation c = Multimode then p else 0))"
    using parts(2-5) by (auto intro!: given_resolved simp: to_overrides_def)
  have flags: "case da_bitswap args of None \<Rightarrow> True | Some b \<Rightarrow> dc_bitswap c = b"
    "case da_sra args of None \<Rightarrow> True | Some b \<Rightarrow> dc_sra c = b"
    "case da_transport_vlan args of None \<Rightarrow> True | Some v \<Rightarrow> dc_transport_vlan_base c = min v 7"
    using parts(7-9) by (simp_all add: to_overrides_def unwrap_or_def split: option.split)
  have circuit: "given (da_vpi args) (\<lambda>v. ac_vpi atm = unwrap_or (parse_u8 v) 8)"
    "given (da_vci args) (\<lambda>v. ac_vci atm = unwrap_or (parse_u16 v) 35)"
    "given (da_encaps args) (\<lambda>e. parse_encaps e = Inr (ac_encap atm))"
    "given (da_payload args) (\<lambda>p. parse_payload p = Inr (ac_link_type atm))"
    if "build_atm get_opt ?ov = Inr atm" for atm
    using that
    by (auto simp: build_atm_def to_overrides_def Let_def intro!: given_resolved split: sum.splits)
  have "case dc_atm c of
       None \<Rightarrow> dc_xfer_mode c = Ptm
     | Some atm \<Rightarrow> dc_xfer_mode c = Atm \<and>
         given (da_vpi args) (\<lambda>v. ac_vpi atm = unwrap_or (parse_u8 v) 8) \<and>
         given (da_vci args) (\<lambda>v. ac_vci atm = unwrap_or (parse_u16 v) 35) \<and>
         given (da_encaps args) (\<lambda>e. parse_encaps e = Inr (ac_encap atm)) \<and>
         given (da_payload args) (\<lambda>p. parse_payload p = Inr (ac_link_type atm))"
    using parts(6) circuit
    by (cases "build_atm get_opt ?ov"; cases "dc_xfer_mode c"; cases "dc_atm c") auto
  with lm strings flags show ?thesis
    by blast
qed

theorem options_decide_witness:
  "\<exists>c. load_config (Inr (\<lambda>_. Inr (Some ''a''))) (to_overrides sample_args) = Inr c \<and>
     parse_annex ''j'' = Inr (dc_annex c) \<and> dc_transport_vlan_base c = 3"
proof -
  have "trim ''j'' = ''j''"
    by code_simp
  then have "\<exists>c. load_config (Inr (\<lambda>_. Inr (Some ''a''))) (to_overrides sample_args) = Inr c"
    by (simp add: load_config_def build_simps to_overrides_def sample_args_def Let_def)
  then obtain c where c: "load_config (Inr (\<lambda>_. Inr (Some ''a''))) (to_overrides sample_args) = Inr c"
    by blast
  from options_decide [OF c] c show ?thesis
    by (auto simp: given_def nonempty_def sample_args_def)
qed

end
