(* ===== verification/Logging.thy ===== *)
theory Logging
  imports RustStr
begin

text \<open>
  The log setup (\<open>rbctl_dsl/src/log_init.rs\<close>): the level chosen by the environment variable
  \<open>RUST_LOG\<close> for both sinks, and what the syslog sink hands to the system log for a record.  The
  logger of the other sink is a third-party crate.
\<close>

datatype level = LError | LWarn | LInfo | LDebug | LTrace

datatype level_filter = FOff | FError | FWarn | FInfo | FDebug | FTrace

text \<open>The order of \<open>Level\<close>, from the most severe up, and the comparison of a level with a filter.\<close>

primrec level_rank :: "level \<Rightarrow> nat" where
  "level_rank LError = 1"
| "level_rank LWarn = 2"
| "level_rank LInfo = 3"
| "level_rank LDebug = 4"
| "level_rank LTrace = 5"

primrec filter_rank :: "level_filter \<Rightarrow> nat" where
  "filter_rank FOff = 0"
| "filter_rank FError = 1"
| "filter_rank FWarn = 2"
| "filter_rank FInfo = 3"
| "filter_rank FDebug = 4"
| "filter_rank FTrace = 5"

lemma level_rank_inj: "level_rank l = level_rank l' \<longleftrightarrow> l = l'"
  by (cases l; cases l') simp_all

instantiation level :: linorder
begin

definition less_eq_level :: "level \<Rightarrow> level \<Rightarrow> bool" where
  "less_eq_level l l' \<longleftrightarrow> level_rank l \<le> level_rank l'"

definition less_level :: "level \<Rightarrow> level \<Rightarrow> bool" where
  "less_level l l' \<longleftrightarrow> level_rank l < level_rank l'"

instance
  by standard (auto simp: less_eq_level_def less_level_def level_rank_inj)

end

text \<open>Letters outside ASCII are left alone: none of them has a lower case in the words compared with.\<close>

definition lower_char :: "char \<Rightarrow> char" where
  "lower_char c =
     (let n = of_char c :: nat in if 65 \<le> n \<and> n \<le> 90 then char_of (n + 32) else c)"

definition to_lowercase :: "string \<Rightarrow> string" where
  "to_lowercase s = map lower_char s"

definition rust_log_filter :: "string option \<Rightarrow> level_filter" where
  "rust_log_filter var =
     (let v = to_lowercase (case var of None \<Rightarrow> [] | Some v \<Rightarrow> v) in
      if v = ''error'' then FError
      else if v = ''warn'' then FWarn
      else if v = ''debug'' \<or> v = ''trace'' then FDebug
      else FInfo)"

definition rust_log_level :: "level_filter \<Rightarrow> level" where
  "rust_log_level f =
     (case f of FError \<Rightarrow> LError | FWarn \<Rightarrow> LWarn | FInfo \<Rightarrow> LInfo | FDebug \<Rightarrow> LDebug | _ \<Rightarrow> LTrace)"

text \<open>The numbers of \<open>syslog.h\<close>: the lower, the more urgent.\<close>

datatype priority = LOG_ERR | LOG_WARNING | LOG_INFO | LOG_DEBUG

primrec priority_number :: "priority \<Rightarrow> nat" where
  "priority_number LOG_ERR = 3"
| "priority_number LOG_WARNING = 4"
| "priority_number LOG_INFO = 6"
| "priority_number LOG_DEBUG = 7"

lemma priority_number_inj: "priority_number p = priority_number q \<longleftrightarrow> p = q"
  by (cases p; cases q) simp_all

instantiation priority :: linorder
begin

definition less_eq_priority :: "priority \<Rightarrow> priority \<Rightarrow> bool" where
  "less_eq_priority p q \<longleftrightarrow> priority_number p \<le> priority_number q"

definition less_priority :: "priority \<Rightarrow> priority \<Rightarrow> bool" where
  "less_priority p q \<longleftrightarrow> priority_number p < priority_number q"

instance
  by standard (auto simp: less_eq_priority_def less_priority_def priority_number_inj)

end

definition priority_of :: "level \<Rightarrow> priority" where
  "priority_of l =
     (case l of LError \<Rightarrow> LOG_ERR | LWarn \<Rightarrow> LOG_WARNING | LInfo \<Rightarrow> LOG_INFO | LDebug \<Rightarrow> LOG_DEBUG
      | LTrace \<Rightarrow> LOG_DEBUG)"

text \<open>The text behind the last \<open>::\<close>.\<close>

fun until_colons :: "string \<Rightarrow> string" where
  "until_colons (a # b # s) =
     (if a = CHR '':'' \<and> b = CHR '':'' then [] else a # until_colons (b # s))"
| "until_colons s = s"

definition last_segment :: "string \<Rightarrow> string" where
  "last_segment target = rev (until_colons (rev target))"

text \<open>What \<open>SyslogLogger::log\<close> hands over: nothing below the level, and nothing for a text with a NUL.\<close>

definition syslog_record :: "level_filter \<Rightarrow> level \<Rightarrow> string \<Rightarrow> string \<Rightarrow> (priority \<times> string) option" where
  "syslog_record max_level l target args =
     (if \<not> level_rank l \<le> filter_rank max_level then None
      else
        let prio = priority_of l;
            msg = ''['' @ last_segment target @ ''] '' @ args
        in if CHR 0x00 \<in> set msg then None else Some (prio, msg))"

section \<open>What reaches the system log\<close>

text \<open>A more severe record never gets a less urgent priority, and is logged when a less severe one is.\<close>

lemma priority_mono: "mono priority_of"
proof
  fix l l' :: level
  show "l \<le> l' \<Longrightarrow> priority_of l \<le> priority_of l'"
    by (cases l; cases l') (simp_all add: less_eq_level_def less_eq_priority_def priority_of_def)
qed

lemma severity_logged:
  assumes "l \<le> l'" and "syslog_record m l' target args = Some (q, text)"
  obtains p where "syslog_record m l target args = Some (p, text)" "p \<le> q"
  using assms monoD [OF priority_mono assms(1)]
  by (auto simp: syslog_record_def less_eq_level_def Let_def split: if_splits)

lemma until_colons_app:
  "(\<forall>c\<in>set a. c \<noteq> CHR '':'') \<Longrightarrow> until_colons (a @ '':'' @ '':'' @ r) = a"
proof (induction a rule: until_colons.induct)
  case (1 a b s)
  then show ?case by simp
qed simp_all

text \<open>The module path is cut to its last name.\<close>

lemma last_segment_path:
  assumes "\<forall>c\<in>set name. c \<noteq> CHR '':''"
  shows "last_segment (path @ ''::'' @ name) = name"
  using until_colons_app [of "rev name" "rev path"] assms by (simp add: last_segment_def)

lemma mixed_case_variable: "rust_log_filter (Some ''Debug'') = FDebug"
  by code_simp

text \<open>Whatever the variable holds, errors are logged and trace records never are.\<close>

lemma trace_never_logged: "syslog_record (rust_log_filter var) LTrace target args = None"
  by (simp add: syslog_record_def rust_log_filter_def filter_rank_def level_rank_def Let_def)

lemma errors_logged:
  assumes "CHR 0x00 \<notin> set args" and "\<forall>c\<in>set name. c \<noteq> CHR '':'' \<and> c \<noteq> CHR 0x00"
  shows "syslog_record (rust_log_filter var) LError (path @ ''::'' @ name) args =
    Some (LOG_ERR, ''['' @ name @ ''] '' @ args)"
proof -
  have "last_segment (path @ ''::'' @ name) = name"
    using assms(2) by (intro last_segment_path) simp
  then show ?thesis
    using assms
    by (auto simp: syslog_record_def rust_log_filter_def filter_rank_def level_rank_def priority_of_def Let_def)
qed

end
