(* ===== verification/NetlinkSocket.thy ===== *)
theory NetlinkSocket
  imports Netlink
begin

text \<open>
  The owning wrappers of the netlink library: sockets (\<open>tinyln_rs/src/socket.rs\<close>), callback sets
  (\<open>cb.rs\<close>), generic netlink (\<open>genl.rs\<close>) and the connections of \<open>unl.rs\<close>, with
  what their \<open>Drop\<close> implementations release.  The objects live in the C library, whose state is the type \<open>'w\<close>
  and whose calls are the record \<open>nl_calls\<close>; a pointer to one of them is a number and a null pointer is
  \<open>None\<close>.  A \<open>struct unl\<close>, which the library fills in place, is a number too.  A Rust value that owns
  an object is a \<open>handle\<close>, and a program is a sequence of steps in which it only uses values that it owns.
\<close>

section \<open>The calls of the C library\<close>

record 'w nl_calls =
  c_errno :: "'w \<Rightarrow> int"
  c_socket_alloc :: "'w \<Rightarrow> nat option \<times> 'w"
  c_socket_free :: "nat \<Rightarrow> 'w \<Rightarrow> 'w"
  c_connect :: "nat \<Rightarrow> int \<Rightarrow> 'w \<Rightarrow> int \<times> 'w"
  c_send :: "nat \<Rightarrow> nat \<Rightarrow> 'w \<Rightarrow> int \<times> 'w"
  c_send_auto_complete :: "nat \<Rightarrow> nat \<Rightarrow> 'w \<Rightarrow> int \<times> 'w"
  c_wait_for_ack :: "nat \<Rightarrow> 'w \<Rightarrow> int \<times> 'w"
  c_send_simple :: "nat \<Rightarrow> int \<Rightarrow> int \<Rightarrow> bytes option \<Rightarrow> nat \<Rightarrow> 'w \<Rightarrow> int \<times> 'w"
  c_recvmsgs :: "nat \<Rightarrow> nat \<Rightarrow> 'w \<Rightarrow> int \<times> 'w"
  c_fd :: "nat \<Rightarrow> 'w \<Rightarrow> int"
  c_disable_seq_check :: "nat \<Rightarrow> 'w \<Rightarrow> 'w"
  c_add_memberships :: "nat \<Rightarrow> int list \<Rightarrow> 'w \<Rightarrow> int \<times> 'w"
  c_drop_memberships :: "nat \<Rightarrow> int list \<Rightarrow> 'w \<Rightarrow> int \<times> 'w"
  c_set_buffer_size :: "nat \<Rightarrow> int \<Rightarrow> int \<Rightarrow> 'w \<Rightarrow> int \<times> 'w"
  c_set_nonblocking :: "nat \<Rightarrow> 'w \<Rightarrow> int \<times> 'w"
  c_cb_alloc :: "nat \<Rightarrow> 'w \<Rightarrow> nat option \<times> 'w"
  c_cb_clone :: "nat \<Rightarrow> 'w \<Rightarrow> nat option \<times> 'w"
  c_cb_put :: "nat \<Rightarrow> 'w \<Rightarrow> 'w"
  c_msg_free :: "nat \<Rightarrow> 'w \<Rightarrow> 'w"
  c_rtnl_init :: "'w \<Rightarrow> int \<times> nat \<times> 'w"
  c_genl_init :: "string \<Rightarrow> 'w \<Rightarrow> int \<times> nat \<times> 'w"
  c_unl_free :: "nat \<Rightarrow> 'w \<Rightarrow> 'w"
  c_unl_send :: "nat \<Rightarrow> nat \<Rightarrow> 'w \<Rightarrow> int \<times> 'w"
  c_unl_wait :: "nat \<Rightarrow> 'w \<Rightarrow> int \<times> 'w"
  c_rtnl_msg :: "nat \<Rightarrow> int \<Rightarrow> bool \<Rightarrow> 'w \<Rightarrow> nat option \<times> 'w"
  c_genl_msg :: "nat \<Rightarrow> int \<Rightarrow> bool \<Rightarrow> 'w \<Rightarrow> nat option \<times> 'w"
  c_multicast_id :: "nat \<Rightarrow> string \<Rightarrow> 'w \<Rightarrow> int \<times> 'w"
  c_subscribe :: "nat \<Rightarrow> string \<Rightarrow> 'w \<Rightarrow> int \<times> 'w"
  c_unsubscribe :: "nat \<Rightarrow> string \<Rightarrow> 'w \<Rightarrow> int \<times> 'w"

text \<open>\<open>check\<close> of \<open>lib.rs\<close>: a negative answer is reported as the last error of the operating system.\<close>

definition check_ret :: "'w nl_calls \<Rightarrow> int \<times> 'w \<Rightarrow> (nl_error + unit) \<times> 'w" where
  "check_ret A ret = (if fst ret < 0 then Inl (Errno (c_errno A (snd ret))) else Inr (), snd ret)"

text \<open>Two calls of which the second is made when the first went well.\<close>

definition check_both :: "'w nl_calls \<Rightarrow> int \<times> 'w \<Rightarrow> ('w \<Rightarrow> int \<times> 'w) \<Rightarrow> (nl_error + unit) \<times> 'w" where
  "check_both A ret second =
     (case check_ret A ret of
        (Inl e, w) \<Rightarrow> (Inl e, w)
      | (Inr _, w) \<Rightarrow> check_ret A (second w))"

definition from_null :: "string \<Rightarrow> nat option \<times> 'w \<Rightarrow> (nl_error + nat) \<times> 'w" where
  "from_null what p =
     (case fst p of
        None \<Rightarrow> (Inl (NlOther (what @ '' failed'')), snd p)
      | Some ptr \<Rightarrow> (Inr ptr, snd p))"

section \<open>Sockets\<close>

definition NlSocket_alloc :: "'w nl_calls \<Rightarrow> 'w \<Rightarrow> (nl_error + nat) \<times> 'w" where
  "NlSocket_alloc A w = from_null ''nl_socket_alloc'' (c_socket_alloc A w)"

definition NlSocket_drop :: "'w nl_calls \<Rightarrow> nat \<Rightarrow> 'w \<Rightarrow> 'w" where
  "NlSocket_drop A sock w = c_socket_free A sock w"

text \<open>When the connection fails, the early return drops the socket.\<close>

definition NlSocket_connect :: "'w nl_calls \<Rightarrow> int \<Rightarrow> 'w \<Rightarrow> (nl_error + nat) \<times> 'w" where
  "NlSocket_connect A family w =
     (case NlSocket_alloc A w of
        (Inl e, w) \<Rightarrow> (Inl e, w)
      | (Inr sock, w) \<Rightarrow>
          (case check_ret A (c_connect A sock family w) of
             (Inl e, w) \<Rightarrow> (Inl e, NlSocket_drop A sock w)
           | (Inr _, w) \<Rightarrow> (Inr sock, w)))"

definition NlSocket_send :: "'w nl_calls \<Rightarrow> nat \<Rightarrow> nat \<Rightarrow> 'w \<Rightarrow> (nl_error + unit) \<times> 'w" where
  "NlSocket_send A sock msg w = check_ret A (c_send A sock msg w)"

definition NlSocket_send_auto :: "'w nl_calls \<Rightarrow> nat \<Rightarrow> nat \<Rightarrow> 'w \<Rightarrow> (nl_error + unit) \<times> 'w" where
  "NlSocket_send_auto A sock msg w = check_both A (c_send_auto_complete A sock msg w) (c_wait_for_ack A sock)"

text \<open>The family is not used; an empty payload is a null pointer.\<close>

definition NlSocket_send_simple ::
  "'w nl_calls \<Rightarrow> nat \<Rightarrow> int \<Rightarrow> int \<Rightarrow> int \<Rightarrow> bytes \<Rightarrow> 'w \<Rightarrow> (nl_error + unit) \<times> 'w" where
  "NlSocket_send_simple A sock family msg_type flags payload w =
     check_ret A (c_send_simple A sock msg_type flags (if payload = [] then None else Some payload) (length payload) w)"

definition NlSocket_recvmsgs :: "'w nl_calls \<Rightarrow> nat \<Rightarrow> nat \<Rightarrow> 'w \<Rightarrow> (nl_error + unit) \<times> 'w" where
  "NlSocket_recvmsgs A sock cb w = check_ret A (c_recvmsgs A sock cb w)"

definition NlSocket_fd :: "'w nl_calls \<Rightarrow> nat \<Rightarrow> 'w \<Rightarrow> int" where
  "NlSocket_fd A sock w = c_fd A sock w"

definition NlSocket_disable_seq_check :: "'w nl_calls \<Rightarrow> nat \<Rightarrow> 'w \<Rightarrow> 'w" where
  "NlSocket_disable_seq_check A sock w = c_disable_seq_check A sock w"

text \<open>The two variadic calls: the group, and the number behind it.\<close>

definition NlSocket_add_membership :: "'w nl_calls \<Rightarrow> nat \<Rightarrow> int \<Rightarrow> 'w \<Rightarrow> (nl_error + unit) \<times> 'w" where
  "NlSocket_add_membership A sock grp w = check_ret A (c_add_memberships A sock [grp, - 1] w)"

definition NlSocket_drop_membership :: "'w nl_calls \<Rightarrow> nat \<Rightarrow> int \<Rightarrow> 'w \<Rightarrow> (nl_error + unit) \<times> 'w" where
  "NlSocket_drop_membership A sock grp w = check_ret A (c_drop_memberships A sock [grp, - 1] w)"

definition NlSocket_set_buffer_size :: "'w nl_calls \<Rightarrow> nat \<Rightarrow> int \<Rightarrow> int \<Rightarrow> 'w \<Rightarrow> (nl_error + unit) \<times> 'w" where
  "NlSocket_set_buffer_size A sock rxbuf txbuf w = check_ret A (c_set_buffer_size A sock rxbuf txbuf w)"

definition NlSocket_set_nonblocking :: "'w nl_calls \<Rightarrow> nat \<Rightarrow> 'w \<Rightarrow> (nl_error + unit) \<times> 'w" where
  "NlSocket_set_nonblocking A sock w = check_ret A (c_set_nonblocking A sock w)"

section \<open>Callback sets\<close>

datatype cb_kind = CbDefault | CbVerbose | CbDebug | CbCustom

text \<open>The numbers are those of the library's enumeration.\<close>

primrec CbKind_as_raw :: "cb_kind \<Rightarrow> nat" where
  "CbKind_as_raw CbDefault = 0"
| "CbKind_as_raw CbVerbose = 1"
| "CbKind_as_raw CbDebug = 2"
| "CbKind_as_raw CbCustom = 3"

definition NlCb_alloc :: "'w nl_calls \<Rightarrow> cb_kind \<Rightarrow> 'w \<Rightarrow> (nl_error + nat) \<times> 'w" where
  "NlCb_alloc A kind w = from_null ''nl_cb_alloc'' (c_cb_alloc A (CbKind_as_raw kind) w)"

definition NlCb_clone :: "'w nl_calls \<Rightarrow> nat \<Rightarrow> 'w \<Rightarrow> (nl_error + nat) \<times> 'w" where
  "NlCb_clone A cb w = from_null ''nl_cb_clone'' (c_cb_clone A cb w)"

definition NlCb_drop :: "'w nl_calls \<Rightarrow> nat \<Rightarrow> 'w \<Rightarrow> 'w" where
  "NlCb_drop A cb w = c_cb_put A cb w"

definition NlMsg_drop :: "'w nl_calls \<Rightarrow> nat \<Rightarrow> 'w \<Rightarrow> 'w" where
  "NlMsg_drop A msg w = c_msg_free A msg w"

section \<open>Connections\<close>

text \<open>When the library cannot fill the \<open>struct unl\<close>, no Rust value is made and nothing is dropped.\<close>

definition unl_opened :: "'w nl_calls \<Rightarrow> int \<times> nat \<times> 'w \<Rightarrow> (nl_error + nat) \<times> 'w" where
  "unl_opened A r =
     (case r of (ret, unl, w) \<Rightarrow>
        (case check_ret A (ret, w) of
           (Inl e, w) \<Rightarrow> (Inl e, w)
         | (Inr _, w) \<Rightarrow> (Inr unl, w)))"

text \<open>\<open>CString::new(name).unwrap()\<close>.\<close>

definition with_cstring :: "string \<Rightarrow> 'a outcome \<Rightarrow> 'a outcome" where
  "with_cstring name m = (if CHR 0x00 \<in> set name then Panics else m)"

text \<open>The assertion that the library returned a message.\<close>

definition asserted :: "nat option \<times> 'w \<Rightarrow> (nat \<times> 'w) outcome" where
  "asserted p = (case fst p of None \<Rightarrow> Panics | Some msg \<Rightarrow> Returns (msg, snd p))"

definition Unl_rtnl :: "'w nl_calls \<Rightarrow> 'w \<Rightarrow> (nl_error + nat) \<times> 'w" where
  "Unl_rtnl A w = unl_opened A (c_rtnl_init A w)"

definition Unl_genl :: "'w nl_calls \<Rightarrow> string \<Rightarrow> 'w \<Rightarrow> ((nl_error + nat) \<times> 'w) outcome" where
  "Unl_genl A family w = with_cstring family (Returns (unl_opened A (c_genl_init A family w)))"

definition Unl_rtnl_msg :: "'w nl_calls \<Rightarrow> nat \<Rightarrow> int \<Rightarrow> bool \<Rightarrow> 'w \<Rightarrow> (nat \<times> 'w) outcome" where
  "Unl_rtnl_msg A unl cmd dump w = asserted (c_rtnl_msg A unl cmd dump w)"

definition Unl_genl_msg :: "'w nl_calls \<Rightarrow> nat \<Rightarrow> int \<Rightarrow> bool \<Rightarrow> 'w \<Rightarrow> (nat \<times> 'w) outcome" where
  "Unl_genl_msg A unl cmd dump w = asserted (c_genl_msg A unl cmd dump w)"

definition Unl_send :: "'w nl_calls \<Rightarrow> nat \<Rightarrow> nat \<Rightarrow> 'w \<Rightarrow> (nl_error + unit) \<times> 'w" where
  "Unl_send A unl msg w = check_both A (c_unl_send A unl msg w) (c_unl_wait A unl)"

definition Unl_drop :: "'w nl_calls \<Rightarrow> nat \<Rightarrow> 'w \<Rightarrow> 'w" where
  "Unl_drop A unl w = c_unl_free A unl w"

definition GenlSocket_new :: "'w nl_calls \<Rightarrow> string \<Rightarrow> 'w \<Rightarrow> ((nl_error + nat) \<times> 'w) outcome" where
  "GenlSocket_new A family_name w = with_cstring family_name (Returns (unl_opened A (c_genl_init A family_name w)))"

definition GenlSocket_msg :: "'w nl_calls \<Rightarrow> nat \<Rightarrow> int \<Rightarrow> bool \<Rightarrow> 'w \<Rightarrow> (nat \<times> 'w) outcome" where
  "GenlSocket_msg A unl cmd dump w = asserted (c_genl_msg A unl cmd dump w)"

definition GenlSocket_multicast_id :: "'w nl_calls \<Rightarrow> nat \<Rightarrow> string \<Rightarrow> 'w \<Rightarrow> ((nl_error + int) \<times> 'w) outcome" where
  "GenlSocket_multicast_id A unl name w =
     with_cstring name
       (let (id, w) = c_multicast_id A unl name w
        in Returns (if id < 0 then Inl (Errno (c_errno A w)) else Inr id, w))"

definition GenlSocket_subscribe :: "'w nl_calls \<Rightarrow> nat \<Rightarrow> string \<Rightarrow> 'w \<Rightarrow> ((nl_error + unit) \<times> 'w) outcome" where
  "GenlSocket_subscribe A unl name w = with_cstring name (Returns (check_ret A (c_subscribe A unl name w)))"

definition GenlSocket_unsubscribe :: "'w nl_calls \<Rightarrow> nat \<Rightarrow> string \<Rightarrow> 'w \<Rightarrow> ((nl_error + unit) \<times> 'w) outcome" where
  "GenlSocket_unsubscribe A unl name w = with_cstring name (Returns (check_ret A (c_unsubscribe A unl name w)))"

definition GenlSocket_drop :: "'w nl_calls \<Rightarrow> nat \<Rightarrow> 'w \<Rightarrow> 'w" where
  "GenlSocket_drop A unl w = c_unl_free A unl w"

section \<open>Programs over the wrappers\<close>

text \<open>The Rust values that own an object of the library.\<close>

datatype handle = SockH nat | CbH nat | MsgH nat | UnlH nat | GenlH nat

text \<open>What makes a value, and what only uses some.\<close>

datatype make_op =
    MkSocket | MkConnect int | MkCb cb_kind | MkCbClone nat
  | MkRtnl | MkUnlGenl string | MkGenl string
  | MkRtnlMsg nat int bool | MkUnlGenlMsg nat int bool | MkGenlMsg nat int bool

datatype use_op =
    UseSend nat nat | UseSendAuto nat nat | UseSendSimple nat int int int bytes | UseRecv nat nat
  | UseNoSeqCheck nat | UseJoin nat int | UseLeave nat int | UseBuffers nat int int | UseNonblocking nat
  | UseUnlSend nat nat | UseMulticastId nat string | UseSubscribe nat string | UseUnsubscribe nat string

primrec make_needs :: "make_op \<Rightarrow> handle set" where
  "make_needs MkSocket = {}"
| "make_needs (MkConnect f) = {}"
| "make_needs (MkCb k) = {}"
| "make_needs (MkCbClone c) = {CbH c}"
| "make_needs MkRtnl = {}"
| "make_needs (MkUnlGenl n) = {}"
| "make_needs (MkGenl n) = {}"
| "make_needs (MkRtnlMsg u c d) = {UnlH u}"
| "make_needs (MkUnlGenlMsg u c d) = {UnlH u}"
| "make_needs (MkGenlMsg u c d) = {GenlH u}"

primrec use_needs :: "use_op \<Rightarrow> handle set" where
  "use_needs (UseSend s m) = {SockH s, MsgH m}"
| "use_needs (UseSendAuto s m) = {SockH s, MsgH m}"
| "use_needs (UseSendSimple s f t l p) = {SockH s}"
| "use_needs (UseRecv s c) = {SockH s, CbH c}"
| "use_needs (UseNoSeqCheck s) = {SockH s}"
| "use_needs (UseJoin s g) = {SockH s}"
| "use_needs (UseLeave s g) = {SockH s}"
| "use_needs (UseBuffers s r t) = {SockH s}"
| "use_needs (UseNonblocking s) = {SockH s}"
| "use_needs (UseUnlSend u m) = {UnlH u, MsgH m}"
| "use_needs (UseMulticastId u n) = {GenlH u}"
| "use_needs (UseSubscribe u n) = {GenlH u}"
| "use_needs (UseUnsubscribe u n) = {GenlH u}"

definition owning :: "('a \<Rightarrow> handle) \<Rightarrow> (nl_error + 'a) \<times> 'w \<Rightarrow> handle option \<times> 'w" where
  "owning H r = (case fst r of Inl _ \<Rightarrow> None | Inr p \<Rightarrow> Some (H p), snd r)"

definition owning_msg :: "nat \<times> 'w \<Rightarrow> handle option \<times> 'w" where
  "owning_msg r = (Some (MsgH (fst r)), snd r)"

primrec run_make :: "'w nl_calls \<Rightarrow> make_op \<Rightarrow> 'w \<Rightarrow> (handle option \<times> 'w) outcome" where
  "run_make A MkSocket w = Returns (owning SockH (NlSocket_alloc A w))"
| "run_make A (MkConnect f) w = Returns (owning SockH (NlSocket_connect A f w))"
| "run_make A (MkCb k) w = Returns (owning CbH (NlCb_alloc A k w))"
| "run_make A (MkCbClone c) w = Returns (owning CbH (NlCb_clone A c w))"
| "run_make A MkRtnl w = Returns (owning UnlH (Unl_rtnl A w))"
| "run_make A (MkUnlGenl n) w = map_outcome (owning UnlH) (Unl_genl A n w)"
| "run_make A (MkGenl n) w = map_outcome (owning GenlH) (GenlSocket_new A n w)"
| "run_make A (MkRtnlMsg u c d) w = map_outcome owning_msg (Unl_rtnl_msg A u c d w)"
| "run_make A (MkUnlGenlMsg u c d) w = map_outcome owning_msg (Unl_genl_msg A u c d w)"
| "run_make A (MkGenlMsg u c d) w = map_outcome owning_msg (GenlSocket_msg A u c d w)"

primrec run_use :: "'w nl_calls \<Rightarrow> use_op \<Rightarrow> 'w \<Rightarrow> 'w outcome" where
  "run_use A (UseSend s m) w = Returns (snd (NlSocket_send A s m w))"
| "run_use A (UseSendAuto s m) w = Returns (snd (NlSocket_send_auto A s m w))"
| "run_use A (UseSendSimple s f t l p) w = Returns (snd (NlSocket_send_simple A s f t l p w))"
| "run_use A (UseRecv s c) w = Returns (snd (NlSocket_recvmsgs A s c w))"
| "run_use A (UseNoSeqCheck s) w = Returns (NlSocket_disable_seq_check A s w)"
| "run_use A (UseJoin s g) w = Returns (snd (NlSocket_add_membership A s g w))"
| "run_use A (UseLeave s g) w = Returns (snd (NlSocket_drop_membership A s g w))"
| "run_use A (UseBuffers s r t) w = Returns (snd (NlSocket_set_buffer_size A s r t w))"
| "run_use A (UseNonblocking s) w = Returns (snd (NlSocket_set_nonblocking A s w))"
| "run_use A (UseUnlSend u m) w = Returns (snd (Unl_send A u m w))"
| "run_use A (UseMulticastId u n) w = map_outcome snd (GenlSocket_multicast_id A u n w)"
| "run_use A (UseSubscribe u n) w = map_outcome snd (GenlSocket_subscribe A u n w)"
| "run_use A (UseUnsubscribe u n) w = map_outcome snd (GenlSocket_unsubscribe A u n w)"

primrec run_drop :: "'w nl_calls \<Rightarrow> handle \<Rightarrow> 'w \<Rightarrow> 'w" where
  "run_drop A (SockH s) w = NlSocket_drop A s w"
| "run_drop A (CbH c) w = NlCb_drop A c w"
| "run_drop A (MsgH m) w = NlMsg_drop A m w"
| "run_drop A (UnlH u) w = Unl_drop A u w"
| "run_drop A (GenlH u) w = GenlSocket_drop A u w"

text \<open>A program state is the library's state and the values owned; a value is dropped once, when it goes out of
  scope.\<close>

inductive client_step :: "'w nl_calls \<Rightarrow> 'w \<times> handle list \<Rightarrow> 'w \<times> handle list \<Rightarrow> bool" for A where
  make: "make_needs op \<subseteq> set vs \<Longrightarrow> run_make A op w = Returns (Some v, w') \<Longrightarrow>
    client_step A (w, vs) (w', v # vs)"
| make_fails: "make_needs op \<subseteq> set vs \<Longrightarrow> run_make A op w = Returns (None, w') \<Longrightarrow>
    client_step A (w, vs) (w', vs)"
| use: "use_needs op \<subseteq> set vs \<Longrightarrow> run_use A op w = Returns w' \<Longrightarrow> client_step A (w, vs) (w', vs)"
| drop_value: "v \<in> set vs \<Longrightarrow> client_step A (w, vs) (run_drop A v w, remove1 v vs)"

section \<open>Objects and their owners\<close>

text \<open>The object behind a value: the two kinds of connections own the same kind of object.\<close>

datatype nl_object = SockObj nat | CbObj nat | MsgObj nat | UnlObj nat

primrec object_of :: "handle \<Rightarrow> nl_object" where
  "object_of (SockH s) = SockObj s"
| "object_of (CbH c) = CbObj c"
| "object_of (MsgH m) = MsgObj m"
| "object_of (UnlH u) = UnlObj u"
| "object_of (GenlH u) = UnlObj u"

text \<open>The calls that make an object, those that release one and those that only get objects, each with
  the objects it gets.\<close>

inductive c_new :: "'w nl_calls \<Rightarrow> nl_object set \<Rightarrow> 'w \<Rightarrow> nl_object option \<Rightarrow> 'w \<Rightarrow> bool" for A where
  "c_socket_alloc A w = (p, w') \<Longrightarrow> c_new A {} w (map_option SockObj p) w'"
| "c_cb_alloc A k w = (p, w') \<Longrightarrow> c_new A {} w (map_option CbObj p) w'"
| "c_cb_clone A c w = (p, w') \<Longrightarrow> c_new A {CbObj c} w (map_option CbObj p) w'"
| "c_rtnl_init A w = (ret, u, w') \<Longrightarrow> c_new A {} w (if ret < 0 then None else Some (UnlObj u)) w'"
| "c_genl_init A n w = (ret, u, w') \<Longrightarrow> c_new A {} w (if ret < 0 then None else Some (UnlObj u)) w'"
| "c_rtnl_msg A u cmd d w = (p, w') \<Longrightarrow> c_new A {UnlObj u} w (map_option MsgObj p) w'"
| "c_genl_msg A u cmd d w = (p, w') \<Longrightarrow> c_new A {UnlObj u} w (map_option MsgObj p) w'"

inductive c_plain :: "'w nl_calls \<Rightarrow> nl_object set \<Rightarrow> 'w \<Rightarrow> 'w \<Rightarrow> bool" for A where
  "c_plain A {SockObj s} w (snd (c_connect A s f w))"
| "c_plain A {SockObj s, MsgObj m} w (snd (c_send A s m w))"
| "c_plain A {SockObj s, MsgObj m} w (snd (c_send_auto_complete A s m w))"
| "c_plain A {SockObj s} w (snd (c_wait_for_ack A s w))"
| "c_plain A {SockObj s} w (snd (c_send_simple A s t l pl n w))"
| "c_plain A {SockObj s, CbObj c} w (snd (c_recvmsgs A s c w))"
| "c_plain A {SockObj s} w (c_disable_seq_check A s w)"
| "c_plain A {SockObj s} w (snd (c_add_memberships A s gs w))"
| "c_plain A {SockObj s} w (snd (c_drop_memberships A s gs w))"
| "c_plain A {SockObj s} w (snd (c_set_buffer_size A s rx tx w))"
| "c_plain A {SockObj s} w (snd (c_set_nonblocking A s w))"
| "c_plain A {UnlObj u, MsgObj m} w (snd (c_unl_send A u m w))"
| "c_plain A {UnlObj u} w (snd (c_unl_wait A u w))"
| "c_plain A {UnlObj u} w (snd (c_multicast_id A u n w))"
| "c_plain A {UnlObj u} w (snd (c_subscribe A u n w))"
| "c_plain A {UnlObj u} w (snd (c_unsubscribe A u n w))"

inductive c_free :: "'w nl_calls \<Rightarrow> nl_object \<Rightarrow> 'w \<Rightarrow> 'w \<Rightarrow> bool" for A where
  "c_free A (SockObj s) w (c_socket_free A s w)"
| "c_free A (CbObj c) w (c_cb_put A c w)"
| "c_free A (MsgObj m) w (c_msg_free A m w)"
| "c_free A (UnlObj u) w (c_unl_free A u w)"

text \<open>What the library keeps account of: the objects alive, and that it was never handed one that was not.\<close>

locale nl_objects =
  fixes A :: "'w nl_calls" and alive :: "'w \<Rightarrow> nl_object set" and sound :: "'w \<Rightarrow> bool"
  assumes new: "c_new A got w made w' \<Longrightarrow>
      (case made of None \<Rightarrow> alive w' = alive w | Some obj \<Rightarrow> obj \<notin> alive w \<and> alive w' = insert obj (alive w)) \<and>
      (sound w' \<longleftrightarrow> sound w \<and> got \<subseteq> alive w)"
    and plain: "c_plain A got w w' \<Longrightarrow> alive w' = alive w \<and> (sound w' \<longleftrightarrow> sound w \<and> got \<subseteq> alive w)"
    and free: "c_free A obj w w' \<Longrightarrow> alive w' = alive w - {obj} \<and> (sound w' \<longleftrightarrow> sound w \<and> obj \<in> alive w)"
begin

lemmas new_calls = c_new.intros [THEN new]
lemmas plain_calls [simp] = c_plain.intros [THEN plain]
lemmas free_calls [simp] = c_free.intros [THEN free]

text \<open>A call that makes a value makes exactly its object, or nothing.\<close>

definition made_by :: "'w \<Rightarrow> handle option \<times> 'w \<Rightarrow> bool" where
  "made_by w r \<longleftrightarrow> sound (snd r) \<and>
     (case fst r of
        None \<Rightarrow> alive (snd r) = alive w
      | Some v \<Rightarrow> object_of v \<notin> alive w \<and> alive (snd r) = insert (object_of v) (alive w))"

lemma made_null:
  assumes "c_new A got w (map_option C (fst p)) (snd p)" and "sound w" and "got \<subseteq> alive w"
    and "\<And>x. object_of (H x) = C x"
  shows "made_by w (owning H (from_null what p))"
  using new [OF assms(1)] assms(2-4) by (cases "fst p") (auto simp: made_by_def owning_def from_null_def)

lemma made_unl:
  assumes "c_new A {} w (if ret < 0 then None else Some (UnlObj u)) w'" and "sound w"
    and "\<And>x. object_of (H x) = UnlObj x"
  shows "made_by w (owning H (unl_opened A (ret, u, w')))"
  using new [OF assms(1)] assms(2-3)
  by (auto simp: made_by_def owning_def unl_opened_def check_ret_def split: if_splits)

lemma made_msg:
  assumes "c_new A {UnlObj u} w (map_option MsgObj (fst p)) (snd p)" and "sound w" and "UnlObj u \<in> alive w"
    and "map_outcome owning_msg (asserted p) = Returns r"
  shows "made_by w r"
  using new [OF assms(1)] assms(2-4)
  by (cases "fst p") (auto simp: made_by_def owning_msg_def asserted_def)

lemma made_connect:
  assumes "sound w"
  shows "made_by w (owning SockH (NlSocket_connect A f w))"
proof -
  obtain p w1 where p: "c_socket_alloc A w = (p, w1)"
    by fastforce
  show ?thesis
    using new_calls(1) [OF p] assms p
    by (cases p)
       (auto simp: made_by_def owning_def NlSocket_connect_def NlSocket_alloc_def NlSocket_drop_def from_null_def
         check_ret_def)
qed

lemma run_make_made:
  assumes "run_make A op w = Returns r" and "sound w" and "object_of ` make_needs op \<subseteq> alive w"
  shows "made_by w r"
proof (cases op)
  case MkSocket
  have "made_by w (owning SockH (from_null ''nl_socket_alloc'' (c_socket_alloc A w)))"
    by (rule made_null [where got = "{}" and C = SockObj]) (use assms in \<open>auto intro: c_new.intros(1)\<close>)
  then show ?thesis
    using assms(1) by (simp add: MkSocket NlSocket_alloc_def)
next
  case (MkConnect f)
  then show ?thesis
    using assms(1,2) made_connect [of w f] by simp
next
  case (MkCb k)
  have "made_by w (owning CbH (from_null ''nl_cb_alloc'' (c_cb_alloc A (CbKind_as_raw k) w)))"
    by (rule made_null [where got = "{}" and C = CbObj]) (use assms in \<open>auto intro: c_new.intros(2)\<close>)
  then show ?thesis
    using assms(1) by (simp add: MkCb NlCb_alloc_def)
next
  case (MkCbClone c)
  have "made_by w (owning CbH (from_null ''nl_cb_clone'' (c_cb_clone A c w)))"
    by (rule made_null [where got = "{CbObj c}" and C = CbObj])
       (use assms MkCbClone in \<open>auto intro: c_new.intros(3)\<close>)
  then show ?thesis
    using assms(1) by (simp add: MkCbClone NlCb_clone_def)
next
  case MkRtnl
  obtain ret u w' where "c_rtnl_init A w = (ret, u, w')"
    using prod_cases3 by blast
  then show ?thesis
    using assms made_unl [OF c_new.intros(4)] by (auto simp: MkRtnl Unl_rtnl_def)
next
  case (MkUnlGenl n)
  obtain ret u w' where "c_genl_init A n w = (ret, u, w')"
    using prod_cases3 by blast
  then show ?thesis
    using assms made_unl [OF c_new.intros(5)] by (auto simp: MkUnlGenl Unl_genl_def with_cstring_def split: if_splits)
next
  case (MkGenl n)
  obtain ret u w' where "c_genl_init A n w = (ret, u, w')"
    using prod_cases3 by blast
  then show ?thesis
    using assms made_unl [OF c_new.intros(5)] by (auto simp: MkGenl GenlSocket_new_def with_cstring_def split: if_splits)
next
  case (MkRtnlMsg u c d)
  then show ?thesis
    using assms made_msg [OF c_new.intros(6) [of A u c d w]] by (auto simp: Unl_rtnl_msg_def)
next
  case (MkUnlGenlMsg u c d)
  then show ?thesis
    using assms made_msg [OF c_new.intros(7) [of A u c d w]] by (auto simp: Unl_genl_msg_def)
next
  case (MkGenlMsg u c d)
  then show ?thesis
    using assms made_msg [OF c_new.intros(7) [of A u c d w]] by (auto simp: GenlSocket_msg_def)
qed

lemma check_snd [simp]: "snd (check_ret A r) = snd r"
  by (simp add: check_ret_def)

lemma check_both_snd: "snd (check_both A r second) = (if fst r < 0 then snd r else snd (second (snd r)))"
  by (simp add: check_both_def check_ret_def)

lemma run_use_keeps:
  assumes "run_use A op w = Returns w'" and "sound w" and "object_of ` use_needs op \<subseteq> alive w"
  shows "alive w' = alive w \<and> sound w'"
  using assms
  by (cases op)
     (auto simp: NlSocket_send_def NlSocket_send_auto_def NlSocket_send_simple_def NlSocket_recvmsgs_def
       NlSocket_disable_seq_check_def NlSocket_add_membership_def NlSocket_drop_membership_def
       NlSocket_set_buffer_size_def NlSocket_set_nonblocking_def Unl_send_def GenlSocket_multicast_id_def
       GenlSocket_subscribe_def GenlSocket_unsubscribe_def with_cstring_def check_both_snd split_def Let_def
       split: if_splits)

lemma run_drop_frees:
  assumes "sound w" and "object_of v \<in> alive w"
  shows "alive (run_drop A v w) = alive w - {object_of v} \<and> sound (run_drop A v w)"
  using assms
  by (cases v) (simp_all add: NlSocket_drop_def NlCb_drop_def NlMsg_drop_def Unl_drop_def GenlSocket_drop_def)

text \<open>Each object alive has exactly one owner.\<close>

definition owned_once :: "'w \<times> handle list \<Rightarrow> bool" where
  "owned_once st \<longleftrightarrow> sound (fst st) \<and> distinct (map object_of (snd st)) \<and>
     alive (fst st) = set (map object_of (snd st))"

lemma drop_owned:
  assumes "owned_once (w, vs)" and "v \<in> set vs"
  shows "owned_once (run_drop A v w, remove1 v vs)"
proof -
  have "object_of v \<notin> object_of ` set (remove1 v vs)"
    using assms by (auto simp: owned_once_def distinct_map inj_on_def)
  moreover have "set vs = insert v (set (remove1 v vs))"
    using assms by (auto simp: owned_once_def distinct_map)
  ultimately have "object_of ` set vs - {object_of v} = object_of ` set (remove1 v vs)"
    by auto
  then show ?thesis
    using assms run_drop_frees [of w v]
    by (auto simp: owned_once_def distinct_map inj_on_def dest: notin_set_remove1)
qed

lemma step_owned:
  assumes "client_step A st st'" and "owned_once st"
  shows "owned_once st'"
  using assms
proof (induction rule: client_step.induct)
  case (make op vs w v w')
  then have "made_by w (Some v, w')"
    by (intro run_make_made [of op]) (auto simp: owned_once_def)
  with make show ?case
    by (auto simp: made_by_def owned_once_def)
next
  case (make_fails op vs w w')
  then have "made_by w (None, w')"
    by (intro run_make_made [of op]) (auto simp: owned_once_def)
  with make_fails show ?case
    by (auto simp: made_by_def owned_once_def)
next
  case (use op vs w w')
  then have "alive w' = alive w \<and> sound w'"
    by (intro run_use_keeps [of op]) (auto simp: owned_once_def)
  with use show ?case
    by (simp add: owned_once_def)
next
  case (drop_value v vs w)
  then show ?case
    by (intro drop_owned)
qed

lemma reachable_owned: "(client_step A)\<^sup>*\<^sup>* st st' \<Longrightarrow> owned_once st \<Longrightarrow> owned_once st'"
  by (induction rule: rtranclp_induct) (auto intro: step_owned)

lemma drop_all: "owned_once (w, vs) \<Longrightarrow> owned_once (fold (run_drop A) vs w, [])"
proof (induction vs arbitrary: w)
  case (Cons v vs)
  then show ?case
    using drop_owned [of w "v # vs" v] by simp
qed simp

end

section \<open>A library that keeps a ledger\<close>

text \<open>The objects alive, the answers still to come, and whether a call got an object that was not alive.  A new
  object has a number above those of all objects alive.\<close>

record ledger =
  lg_objects :: "nl_object list"
  lg_answers :: "int list"
  lg_ok :: bool

primrec number_of :: "nl_object \<Rightarrow> nat" where
  "number_of (SockObj n) = n"
| "number_of (CbObj n) = n"
| "number_of (MsgObj n) = n"
| "number_of (UnlObj n) = n"

definition fresh :: "ledger \<Rightarrow> nat" where
  "fresh w = foldr (\<lambda>obj m. max (Suc (number_of obj)) m) (lg_objects w) 0"

definition answer :: "ledger \<Rightarrow> int" where
  "answer w = (case lg_answers w of [] \<Rightarrow> 0 | a # _ \<Rightarrow> a)"

definition got :: "nl_object list \<Rightarrow> ledger \<Rightarrow> ledger" where
  "got objs w = w\<lparr>lg_answers := drop 1 (lg_answers w), lg_ok := lg_ok w \<and> set objs \<subseteq> set (lg_objects w)\<rparr>"

definition lg_plain :: "nl_object list \<Rightarrow> ledger \<Rightarrow> int \<times> ledger" where
  "lg_plain objs w = (answer w, got objs w)"

definition lg_new :: "(nat \<Rightarrow> nl_object) \<Rightarrow> nl_object list \<Rightarrow> ledger \<Rightarrow> int \<times> nat \<times> ledger" where
  "lg_new C objs w =
     (let n = fresh w; w' = got objs w
      in (answer w, n, if answer w < 0 then w' else w'\<lparr>lg_objects := C n # lg_objects w'\<rparr>))"

definition lg_pointer :: "int \<times> nat \<times> ledger \<Rightarrow> nat option \<times> ledger" where
  "lg_pointer r = (case r of (ret, n, w) \<Rightarrow> (if ret < 0 then None else Some n, w))"

definition lg_free :: "nl_object \<Rightarrow> ledger \<Rightarrow> ledger" where
  "lg_free obj w = (got [obj] w)\<lparr>lg_objects := filter (\<lambda>x. x \<noteq> obj) (lg_objects w)\<rparr>"

definition ledger_calls :: "ledger nl_calls" where
  "ledger_calls =
     \<lparr>c_errno = (\<lambda>_. 19),
      c_socket_alloc = (\<lambda>w. lg_pointer (lg_new SockObj [] w)), c_socket_free = (\<lambda>s. lg_free (SockObj s)),
      c_connect = (\<lambda>s _. lg_plain [SockObj s]), c_send = (\<lambda>s m. lg_plain [SockObj s, MsgObj m]),
      c_send_auto_complete = (\<lambda>s m. lg_plain [SockObj s, MsgObj m]), c_wait_for_ack = (\<lambda>s. lg_plain [SockObj s]),
      c_send_simple = (\<lambda>s _ _ _ _. lg_plain [SockObj s]), c_recvmsgs = (\<lambda>s c. lg_plain [SockObj s, CbObj c]),
      c_fd = (\<lambda>s _. int s), c_disable_seq_check = (\<lambda>s. got [SockObj s]),
      c_add_memberships = (\<lambda>s _. lg_plain [SockObj s]), c_drop_memberships = (\<lambda>s _. lg_plain [SockObj s]),
      c_set_buffer_size = (\<lambda>s _ _. lg_plain [SockObj s]), c_set_nonblocking = (\<lambda>s. lg_plain [SockObj s]),
      c_cb_alloc = (\<lambda>_ w. lg_pointer (lg_new CbObj [] w)), c_cb_clone = (\<lambda>c w. lg_pointer (lg_new CbObj [CbObj c] w)),
      c_cb_put = (\<lambda>c. lg_free (CbObj c)), c_msg_free = (\<lambda>m. lg_free (MsgObj m)),
      c_rtnl_init = lg_new UnlObj [], c_genl_init = (\<lambda>_. lg_new UnlObj []), c_unl_free = (\<lambda>u. lg_free (UnlObj u)),
      c_unl_send = (\<lambda>u m. lg_plain [UnlObj u, MsgObj m]), c_unl_wait = (\<lambda>u. lg_plain [UnlObj u]),
      c_rtnl_msg = (\<lambda>u _ _ w. lg_pointer (lg_new MsgObj [UnlObj u] w)),
      c_genl_msg = (\<lambda>u _ _ w. lg_pointer (lg_new MsgObj [UnlObj u] w)),
      c_multicast_id = (\<lambda>u _. lg_plain [UnlObj u]), c_subscribe = (\<lambda>u _. lg_plain [UnlObj u]),
      c_unsubscribe = (\<lambda>u _. lg_plain [UnlObj u])\<rparr>"

lemma fresh_above: "obj \<in> set (lg_objects w) \<Longrightarrow> number_of obj < fresh w"
proof -
  have "obj \<in> set objs \<Longrightarrow> number_of obj < foldr (\<lambda>obj m. max (Suc (number_of obj)) m) objs 0" for objs
    by (induction objs) (auto simp: less_max_iff_disj)
  then show "obj \<in> set (lg_objects w) \<Longrightarrow> number_of obj < fresh w"
    by (simp add: fresh_def)
qed

lemma fresh_object: "number_of obj = fresh w \<Longrightarrow> obj \<notin> set (lg_objects w)"
  using fresh_above by fastforce

lemmas ledger_defs = ledger_calls_def lg_plain_def lg_new_def lg_free_def lg_pointer_def got_def

interpretation ledgered: nl_objects ledger_calls "\<lambda>w. set (lg_objects w)" lg_ok
proof unfold_locales
  fix objs w made w'
  assume "c_new ledger_calls objs w made w'"
  then show "(case made of None \<Rightarrow> set (lg_objects w') = set (lg_objects w)
      | Some obj \<Rightarrow> obj \<notin> set (lg_objects w) \<and> set (lg_objects w') = insert obj (set (lg_objects w))) \<and>
      (lg_ok w' \<longleftrightarrow> lg_ok w \<and> objs \<subseteq> set (lg_objects w))"
    by (induction rule: c_new.induct) (auto simp: ledger_defs Let_def fresh_object split: if_splits)
next
  fix objs w w'
  assume "c_plain ledger_calls objs w w'"
  then show "set (lg_objects w') = set (lg_objects w) \<and> (lg_ok w' \<longleftrightarrow> lg_ok w \<and> objs \<subseteq> set (lg_objects w))"
    by (induction rule: c_plain.induct) (auto simp: ledger_defs)
next
  fix obj w w'
  assume "c_free ledger_calls obj w w'"
  then show "set (lg_objects w') = set (lg_objects w) - {obj} \<and> (lg_ok w' \<longleftrightarrow> lg_ok w \<and> obj \<in> set (lg_objects w))"
    by (induction rule: c_free.induct) (auto simp: ledger_defs)
qed

section \<open>Properties\<close>

text \<open>C35. Nothing leaks and nothing is released twice.  Take any program over the wrappers that starts with nothing
  alive, in which calls of the library succeed and fail as they like: at every moment each object that is
  alive in the library has exactly one owner among the Rust values (so a connection that failed has
  already released its socket), the library has never been handed an object that was not alive, and
  dropping the values that are left leaves nothing alive.\<close>

theorem objects_have_one_owner:
  assumes "nl_objects A alive sound" and "alive w0 = {}" and "sound w0"
    and "(client_step A)\<^sup>*\<^sup>* (w0, []) (w, vs)"
  shows "sound w \<and> distinct (map object_of vs) \<and> alive w = set (map object_of vs) \<and>
    sound (fold (run_drop A) vs w) \<and> alive (fold (run_drop A) vs w) = {}"
proof -
  have "nl_objects.owned_once alive sound (w0, [])"
    using assms(2,3) by (simp add: nl_objects.owned_once_def [OF assms(1)])
  from nl_objects.reachable_owned [OF assms(1,4) this]
  have "nl_objects.owned_once alive sound (w, vs)" .
  with nl_objects.drop_all [OF assms(1) this] show ?thesis
    by (simp add: nl_objects.owned_once_def [OF assms(1)])
qed

text \<open>A socket whose connection is refused, then a connection with a message that is sent.\<close>

definition sample_ledger :: ledger where
  "sample_ledger = \<lparr>lg_objects = [], lg_answers = [0, - 1, 0, 0, 0, 0, 0, 0], lg_ok = True\<rparr>"

lemma sample_program:
  "(client_step ledger_calls)\<^sup>*\<^sup>* (sample_ledger, [])
     (\<lparr>lg_objects = [MsgObj 1, UnlObj 0], lg_answers = [0], lg_ok = True\<rparr>, [MsgH 1, GenlH 0])"
proof -
  let ?w1 = "\<lparr>lg_objects = [], lg_answers = [0, 0, 0, 0, 0], lg_ok = True\<rparr>"
  let ?w2 = "\<lparr>lg_objects = [UnlObj 0], lg_answers = [0, 0, 0, 0], lg_ok = True\<rparr>"
  let ?w3 = "\<lparr>lg_objects = [MsgObj 1, UnlObj 0], lg_answers = [0, 0, 0], lg_ok = True\<rparr>"
  have "run_make ledger_calls (MkConnect 0) sample_ledger = Returns (None, ?w1)"
    by code_simp
  then have "client_step ledger_calls (sample_ledger, []) (?w1, [])"
    by (rule make_fails [rotated]) simp
  moreover have "run_make ledger_calls (MkGenl ''nl80211'') ?w1 = Returns (Some (GenlH 0), ?w2)"
    by code_simp
  then have "client_step ledger_calls (?w1, []) (?w2, [GenlH 0])"
    by (rule make [rotated]) simp
  moreover have "run_make ledger_calls (MkGenlMsg 0 5 False) ?w2 = Returns (Some (MsgH 1), ?w3)"
    by code_simp
  then have "client_step ledger_calls (?w2, [GenlH 0]) (?w3, [MsgH 1, GenlH 0])"
    by (rule make [rotated]) simp
  moreover have "run_use ledger_calls (UseSubscribe 0 ''scan'') ?w3 =
      Returns \<lparr>lg_objects = [MsgObj 1, UnlObj 0], lg_answers = [0, 0], lg_ok = True\<rparr>"
    by code_simp
  then have "client_step ledger_calls (?w3, [MsgH 1, GenlH 0])
      (\<lparr>lg_objects = [MsgObj 1, UnlObj 0], lg_answers = [0, 0], lg_ok = True\<rparr>, [MsgH 1, GenlH 0])"
    by (rule use [rotated]) simp
  moreover have "run_use ledger_calls (UseMulticastId 0 ''scan'') \<lparr>lg_objects = [MsgObj 1, UnlObj 0], lg_answers = [0, 0], lg_ok = True\<rparr> =
      Returns \<lparr>lg_objects = [MsgObj 1, UnlObj 0], lg_answers = [0], lg_ok = True\<rparr>"
    by code_simp
  then have "client_step ledger_calls (\<lparr>lg_objects = [MsgObj 1, UnlObj 0], lg_answers = [0, 0], lg_ok = True\<rparr>, [MsgH 1, GenlH 0])
      (\<lparr>lg_objects = [MsgObj 1, UnlObj 0], lg_answers = [0], lg_ok = True\<rparr>, [MsgH 1, GenlH 0])"
    by (rule use [rotated]) simp
  ultimately show ?thesis
    by (meson rtranclp.rtrancl_refl rtranclp.rtrancl_into_rtrancl)
qed

theorem objects_have_one_owner_witness:
  "lg_objects (fold (run_drop ledger_calls) [MsgH 1, GenlH 0]
     \<lparr>lg_objects = [MsgObj 1, UnlObj 0], lg_answers = [0], lg_ok = True\<rparr>) = []"
  using objects_have_one_owner [OF ledgered.nl_objects_axioms _ _ sample_program]
  by (simp add: sample_ledger_def)

text \<open>The calls that join and leave groups take a list that a zero ends and go through it until one group is
  refused; a negative number is no group.\<close>

locale nl_groups =
  fixes A :: "'w nl_calls" and join leave :: "nat \<Rightarrow> int \<Rightarrow> 'w \<Rightarrow> int \<times> 'w"
  assumes add_groups: "c_add_memberships A s (g # gs) w =
      (if g = 0 then (0, w) else if g < 0 then (- 7, w)
       else let (r, w') = join s g w in if r < 0 then (r, w') else c_add_memberships A s gs w')"
    and drop_groups: "c_drop_memberships A s (g # gs) w =
      (if g = 0 then (0, w) else if g < 0 then (- 7, w)
       else let (r, w') = leave s g w in if r < 0 then (r, w') else c_drop_memberships A s gs w')"
begin

lemma join_then_error:
  "NlSocket_add_membership A s g w =
     (if g = 0 then (Inr (), w)
      else let w' = (if g < 0 then w else snd (join s g w)) in (Inl (Errno (c_errno A w')), w'))"
  by (simp add: NlSocket_add_membership_def add_groups check_ret_def split_def Let_def)

lemma leave_then_error:
  "NlSocket_drop_membership A s g w =
     (if g = 0 then (Inr (), w)
      else let w' = (if g < 0 then w else snd (leave s g w)) in (Inl (Errno (c_errno A w')), w'))"
  by (simp add: NlSocket_drop_membership_def drop_groups check_ret_def split_def Let_def)

end

text \<open>The calls of the ledger with groups whose numbers are below 32.\<close>

fun lg_groups :: "nat \<Rightarrow> int list \<Rightarrow> ledger \<Rightarrow> int \<times> ledger" where
  "lg_groups s [] w = (0, w)"
| "lg_groups s (g # gs) w =
     (if g = 0 then (0, w) else if g < 0 then (- 7, w)
      else let (r, w') = (if g < 32 then lg_plain [SockObj s] w else (- 22, w))
           in if r < 0 then (r, w') else lg_groups s gs w')"

definition grouped_calls :: "ledger nl_calls" where
  "grouped_calls = ledger_calls\<lparr>c_add_memberships := lg_groups, c_drop_memberships := lg_groups\<rparr>"

definition lg_join :: "nat \<Rightarrow> int \<Rightarrow> ledger \<Rightarrow> int \<times> ledger" where
  "lg_join s g w = (if g < 32 then lg_plain [SockObj s] w else (- 22, w))"

interpretation grouped: nl_groups grouped_calls lg_join lg_join
  by unfold_locales (simp_all add: grouped_calls_def lg_join_def split_def Let_def)

text \<open>Joining or leaving a multicast group never reports success.  The list handed to the library ends in -1 where
  the library expects 0, so after the group itself was joined or left the call fails on the -1: for every
  group the result is an error, whatever the kernel said about the group, and the membership is changed as
  the kernel did it.\<close>

lemma membership_reports_error:
  assumes "nl_groups A join leave" and "0 < g"
  shows "NlSocket_add_membership A s g w = (Inl (Errno (c_errno A (snd (join s g w)))), snd (join s g w)) \<and>
    NlSocket_drop_membership A s g w = (Inl (Errno (c_errno A (snd (leave s g w)))), snd (leave s g w))"
  using assms(2) nl_groups.join_then_error [OF assms(1)] nl_groups.leave_then_error [OF assms(1)] by (simp add: Let_def)

lemma membership_reports_error_witness:
  "fst (lg_join 0 5 \<lparr>lg_objects = [SockObj 0], lg_answers = [0], lg_ok = True\<rparr>) = 0 \<and>
   fst (NlSocket_add_membership grouped_calls 0 5 \<lparr>lg_objects = [SockObj 0], lg_answers = [0], lg_ok = True\<rparr>) = Inl (Errno 19)"
  using membership_reports_error [OF grouped.nl_groups_axioms, of 5 0 "\<lparr>lg_objects = [SockObj 0], lg_answers = [0], lg_ok = True\<rparr>"]
  by (simp add: grouped_calls_def ledger_calls_def lg_join_def lg_plain_def answer_def)

end
