(* ===== verification/VlanStack.thy ===== *)
theory VlanStack
  imports Daemon NetlinkProps
begin

text \<open>
  The VLAN interface of the daemon on top of the netlink library.  \<open>Daemon\<close> takes the answers of the
  route-netlink calls as an argument; here \<open>create_vlan_iface\<close> and \<open>delete_vlan_iface\<close> of
  \<open>daemon.rs\<close> run on the requests of \<open>Netlink\<close>, each of which hands its message to a kernel with a
  state.  They refine the definitions of \<open>Daemon\<close>, and with a kernel that keeps the contract of the
  locale \<open>link_kernel\<close> the interface follows the life of the daemon.
\<close>

section \<open>Requests to a kernel\<close>

text \<open>The library on top of a kernel in a given state, and what the kernel does with a message.\<close>

record 'k netstack =
  ns_lib :: "'k \<Rightarrow> nl_lib"
  ns_deliver :: "nl_msg \<Rightarrow> 'k \<Rightarrow> 'k"

definition run_request ::
  "'k netstack \<Rightarrow> (nl_lib \<Rightarrow> 'a nl_result) \<Rightarrow> 'k \<Rightarrow> ((nl_error + 'a) \<times> 'k) outcome" where
  "run_request N req k = map_outcome (\<lambda>(r, sent). (r, fold (ns_deliver N) sent k)) (req (ns_lib N k))"

text \<open>\<open>raw_os_error\<close> and the text of an error; the texts of the system are a parameter.\<close>

definition os_error_of :: "(int \<Rightarrow> string) \<Rightarrow> nl_error \<Rightarrow> os_error" where
  "os_error_of strerror e =
     (case e of
        Errno n \<Rightarrow> \<lparr>oe_raw = Some n, oe_text = strerror n\<rparr>
      | NlOther text \<Rightarrow> \<lparr>oe_raw = None, oe_text = text\<rparr>)"

definition bring_vlan_up ::
  "'k netstack \<Rightarrow> (int \<Rightarrow> string) \<Rightarrow> string \<Rightarrow> 'k \<Rightarrow> ((string + unit) \<times> 'k) outcome" where
  "bring_vlan_up N strerror name k =
     bind_outcome (run_request N (\<lambda>L. set_up L name) k) (\<lambda>(r, k).
       Returns (case r of
                  Inl e \<Rightarrow> Inl (''set_up '' @ name @ '': '' @ oe_text (os_error_of strerror e))
                | Inr _ \<Rightarrow> Inr (), k))"

definition create_vlan_netlink ::
  "'k netstack \<Rightarrow> (int \<Rightarrow> string) \<Rightarrow> string \<Rightarrow> u16 \<Rightarrow> 'k \<Rightarrow> ((string + unit) \<times> 'k) outcome" where
  "create_vlan_netlink N strerror parent vlan_id k =
     (let name = vlan_name parent vlan_id in
      case RtnlLink_new (ns_lib N k) of
        Inl e \<Rightarrow> Returns (Inl (''rtnl: '' @ oe_text (os_error_of strerror e)), k)
      | Inr _ \<Rightarrow>
          bind_outcome (run_request N (\<lambda>L. add_vlan L parent vlan_id) k) (\<lambda>(r, k).
            case r of
              Inr _ \<Rightarrow> bring_vlan_up N strerror name k
            | Inl e \<Rightarrow>
                if oe_raw (os_error_of strerror e) = Some EEXIST then bring_vlan_up N strerror name k
                else Returns (Inl (''add_vlan '' @ name @ '': '' @ oe_text (os_error_of strerror e)), k)))"

definition delete_vlan_netlink ::
  "'k netstack \<Rightarrow> (int \<Rightarrow> string) \<Rightarrow> string \<Rightarrow> u16 \<Rightarrow> 'k \<Rightarrow> ((string + bool) \<times> 'k) outcome" where
  "delete_vlan_netlink N strerror parent vlan_id k =
     (let name = vlan_name parent vlan_id in
      bind_outcome
        (case RtnlLink_new (ns_lib N k) of
           Inl e \<Rightarrow> Returns (Inl e, k)
         | Inr _ \<Rightarrow> run_request N (\<lambda>L. link_del L name) k)
        (\<lambda>(r, k).
          Returns (case r of
              Inr _ \<Rightarrow> Inr False
            | Inl e \<Rightarrow>
                (let e = os_error_of strerror e in
                 if oe_raw e = Some ENODEV \<or> oe_raw e = Some ENXIO then Inr True
                 else Inl (''delete '' @ name @ '': '' @ oe_text e)), k)))"

section \<open>They refine the daemon's definitions\<close>

text \<open>The answers the daemon's definitions take as an argument.\<close>

definition answer_of :: "(int \<Rightarrow> string) \<Rightarrow> ((nl_error + 'a) \<times> 'k) outcome \<Rightarrow> os_error + 'a" where
  "answer_of strerror m =
     (case m of
        Returns (r, _) \<Rightarrow> map_sum (os_error_of strerror) id r
      | _ \<Rightarrow> Inl \<lparr>oe_raw = None, oe_text = []\<rparr>)"

definition state_after :: "'k \<Rightarrow> ('a \<times> 'k) outcome \<Rightarrow> 'k" where
  "state_after k m = (case m of Returns (_, k') \<Rightarrow> k' | _ \<Rightarrow> k)"

definition link_opened :: "'k netstack \<Rightarrow> (int \<Rightarrow> string) \<Rightarrow> 'k \<Rightarrow> os_error + unit" where
  "link_opened N strerror k = map_sum (os_error_of strerror) id (RtnlLink_new (ns_lib N k))"

definition create_answers :: "'k netstack \<Rightarrow> (int \<Rightarrow> string) \<Rightarrow> string \<Rightarrow> u16 \<Rightarrow> 'k \<Rightarrow> rtnl" where
  "create_answers N strerror parent vlan_id k =
     (let added = run_request N (\<lambda>L. add_vlan L parent vlan_id) k in
      \<lparr>rt_new = link_opened N strerror k,
       rt_add_vlan = (\<lambda>p v. answer_of strerror (run_request N (\<lambda>L. add_vlan L p v) k)),
       rt_set_up = (\<lambda>n. answer_of strerror (run_request N (\<lambda>L. set_up L n) (state_after k added))),
       rt_del = (\<lambda>n. answer_of strerror (run_request N (\<lambda>L. link_del L n) k))\<rparr>)"

lemma answer_Returns [simp]: "answer_of err (Returns (r, k)) = map_sum (os_error_of err) id r"
  by (simp add: answer_of_def)

lemma state_after_Returns [simp]: "state_after k (Returns (r, k')) = k'"
  by (simp add: state_after_def)

lemma bring_up_refines:
  assumes "bring_vlan_up N err name k = Returns (r, k')"
  shows "r = (case answer_of err (run_request N (\<lambda>L. set_up L name) k) of
    Inl e \<Rightarrow> Inl (''set_up '' @ name @ '': '' @ oe_text e) | Inr _ \<Rightarrow> Inr ())"
proof -
  obtain a k1 where "run_request N (\<lambda>L. set_up L name) k = Returns (a, k1)"
    using assms by (auto simp: bring_vlan_up_def bind_outcome_Returns)
  then show ?thesis
    using assms by (cases a) (auto simp: bring_vlan_up_def)
qed

lemma create_refines:
  assumes "create_vlan_netlink N err p v k = Returns (r, k')"
  shows "create_vlan_iface (create_answers N err p v k) p v = r"
proof (cases "RtnlLink_new (ns_lib N k)")
  case (Inl e)
  then show ?thesis
    using assms by (simp add: create_vlan_netlink_def create_vlan_iface_def create_answers_def link_opened_def Let_def)
next
  case (Inr u)
  obtain a k1 where add: "run_request N (\<lambda>L. add_vlan L p v) k = Returns (a, k1)"
    using assms Inr by (auto simp: create_vlan_netlink_def Let_def bind_outcome_Returns)
  show ?thesis
    using assms Inr add bring_up_refines [of N err "vlan_name p v" k1 r k']
    by (cases a) (auto simp: create_vlan_netlink_def create_vlan_iface_def create_answers_def link_opened_def Let_def
      split: if_splits)
qed

lemma delete_refines:
  assumes "delete_vlan_netlink N err p v k = Returns (r, k')"
  shows "delete_vlan_iface (create_answers N err q x k) p v = r"
proof (cases "RtnlLink_new (ns_lib N k)")
  case (Inl e)
  then show ?thesis
    using assms
    by (auto simp: delete_vlan_netlink_def delete_vlan_iface_def create_answers_def link_opened_def Let_def)
next
  case (Inr u)
  obtain a k1 where "run_request N (\<lambda>L. link_del L (vlan_name p v)) k = Returns (a, k1)"
    using assms Inr by (auto simp: delete_vlan_netlink_def Let_def bind_outcome_Returns)
  then show ?thesis
    using assms Inr
    by (cases a)
       (auto simp: delete_vlan_netlink_def delete_vlan_iface_def create_answers_def link_opened_def Let_def)
qed

section \<open>The kernel's contract\<close>

text \<open>An interface: its index, the parent's index and the id when it is a VLAN, and whether it is up.\<close>

record link =
  lk_index :: u32
  lk_vlan :: "(u32 \<times> u16) option"
  lk_up :: bool

text \<open>What rtnetlink documents for the three requests on a table of interfaces that is \<open>good\<close> (the indices tell the
  interfaces apart) and has \<open>room\<close> for one more: a new VLAN on an existing parent is refused with EEXIST when the
  name is taken and else appears, down, with an index nobody uses; the flag UP of an existing interface is set; an
  interface on which no VLAN sits is removed.  Names of 16 bytes and more are not interface names.\<close>

locale link_kernel =
  fixes N :: "'k netstack" and cap :: nat and links :: "'k \<Rightarrow> string \<rightharpoonup> link"
    and good :: "'k \<Rightarrow> bool" and room :: "'k \<Rightarrow> bool"
  assumes lib: "libnl (ns_lib N k) cap"
    and big: "116 \<le> cap"
    and open_ok: "0 \<le> unl_rtnl_init (ns_lib N k)"
    and has_msg: "\<exists>m. unl_rtnl_msg (ns_lib N k) cmd = Some m"
    and index: "if_nametoindex (ns_lib N k) n = (case links k n of None \<Rightarrow> 0 | Some l \<Rightarrow> lk_index l)"
    and index_good: "good k \<Longrightarrow> links k n = Some l \<Longrightarrow>
      lk_index l \<noteq> 0 \<and> (\<forall>n' l'. links k n' = Some l' \<longrightarrow> lk_index l' = lk_index l \<longrightarrow> n' = n)"
    and stays_good: "good k \<Longrightarrow> nl_wait_for_ack (ns_lib N k) m \<ge> 0 \<Longrightarrow> room k \<or> nm_type m \<noteq> RTM_NEWLINK \<Longrightarrow>
      good (ns_deliver N m k)"
    and sent: "0 \<le> nl_send_auto_complete (ns_lib N k) m"
    and taken: "good k \<Longrightarrow> nm_type m = RTM_NEWLINK \<Longrightarrow>
      nm_flags m = or (or NLM_F_REQUEST NLM_F_ACK) (or NLM_F_CREATE NLM_F_EXCL) \<Longrightarrow>
      vlan_request_of (ns_lib N k) (drop 32 (nm_buf m)) (nm_len m - 32) = Some (Some n, Some i, Some ''vlan'', Some v) \<Longrightarrow>
      n \<in> dom (links k) \<Longrightarrow>
      nl_wait_for_ack (ns_lib N k) m = - EEXIST \<and> ns_deliver N m k = k"
    and newlink: "good k \<Longrightarrow> room k \<Longrightarrow> nm_type m = RTM_NEWLINK \<Longrightarrow>
      nm_flags m = or (or NLM_F_REQUEST NLM_F_ACK) (or NLM_F_CREATE NLM_F_EXCL) \<Longrightarrow>
      vlan_request_of (ns_lib N k) (drop 32 (nm_buf m)) (nm_len m - 32) = Some (Some n, Some i, Some ''vlan'', Some v) \<Longrightarrow>
      length n < 16 \<Longrightarrow> links k n = None \<Longrightarrow> links k p = Some l \<Longrightarrow> lk_index l = i \<Longrightarrow>
      nl_wait_for_ack (ns_lib N k) m = 0 \<and>
      (\<exists>j. links (ns_deliver N m k) = (links k)(n \<mapsto> \<lparr>lk_index = j, lk_vlan = Some (i, v), lk_up = False\<rparr>) \<and>
         j \<noteq> i \<and> (\<forall>n' l'. links k n' = Some l' \<longrightarrow> map_option fst (lk_vlan l') \<noteq> Some j))"
    and setlink: "good k \<Longrightarrow> nm_type m = RTM_SETLINK \<Longrightarrow>
      subslice 16 16 (nm_buf m) = build_ifi (nl_le (ns_lib N k)) (lk_index l) IFF_UP IFF_UP \<Longrightarrow> links k n = Some l \<Longrightarrow>
      nl_wait_for_ack (ns_lib N k) m = 0 \<and> links (ns_deliver N m k) = (links k)(n \<mapsto> l\<lparr>lk_up := True\<rparr>)"
    and dellink: "good k \<Longrightarrow> nm_type m = RTM_DELLINK \<Longrightarrow>
      subslice 16 16 (nm_buf m) = build_ifi (nl_le (ns_lib N k)) (lk_index l) 0 0 \<Longrightarrow> links k n = Some l \<Longrightarrow>
      (\<forall>n' l'. links k n' = Some l' \<longrightarrow> map_option fst (lk_vlan l') \<noteq> Some (lk_index l)) \<Longrightarrow>
      nl_wait_for_ack (ns_lib N k) m = 0 \<and> links (ns_deliver N m k) = (links k)(n := None)"
begin

text \<open>A request whose message is delivered, by the kernel's answer.\<close>

lemma request_sent:
  assumes "req (ns_lib N k) = link_send (ns_lib N k) m a"
  shows "run_request N req k =
    Returns (if nl_wait_for_ack (ns_lib N k) m < 0 then Inl (Errno (- nl_wait_for_ack (ns_lib N k) m)) else Inr a,
      ns_deliver N m k)"
  using assms sent [of k m] by (simp add: run_request_def link_send_def Let_def)

lemma ifi_request:
  assumes "unl_rtnl_msg (ns_lib N k) cmd = Some msg"
  shows "msg_append (ns_lib N k) (msg\<lparr>nm_flags := 5\<rparr>) (build_ifi (nl_le (ns_lib N k)) i f c) =
      (Inr (), nl_extend (msg\<lparr>nm_flags := 5\<rparr>) (build_ifi (nl_le (ns_lib N k)) i f c))"
    and "subslice 16 16 (nm_buf (nl_extend (msg\<lparr>nm_flags := 5\<rparr>) (build_ifi (nl_le (ns_lib N k)) i f c))) =
      build_ifi (nl_le (ns_lib N k)) i f c"
    and "nm_type (nl_extend (msg\<lparr>nm_flags := 5\<rparr>) (build_ifi (nl_le (ns_lib N k)) i f c)) = cmd"
proof -
  have ifi: "length (build_ifi (nl_le (ns_lib N k)) i f c) = 16"
    by (simp add: build_ifi_def)
  have msg: "nl_wf (msg\<lparr>nm_flags := 5\<rparr>)" "nm_len msg = 16" "length (nm_buf msg) = 16" "nm_type msg = cmd"
    using libnl.rtnl_msg [OF lib assms] by (auto simp: nl_wf_def)
  show "msg_append (ns_lib N k) (msg\<lparr>nm_flags := 5\<rparr>) (build_ifi (nl_le (ns_lib N k)) i f c) =
      (Inr (), nl_extend (msg\<lparr>nm_flags := 5\<rparr>) (build_ifi (nl_le (ns_lib N k)) i f c))"
    using libnl.append_room [OF lib msg(1)] msg(2) ifi big by (simp add: msg_append_def)
  show "subslice 16 16 (nm_buf (nl_extend (msg\<lparr>nm_flags := 5\<rparr>) (build_ifi (nl_le (ns_lib N k)) i f c))) =
      build_ifi (nl_le (ns_lib N k)) i f c"
    using msg(3) ifi by (simp add: subslice_def)
  show "nm_type (nl_extend (msg\<lparr>nm_flags := 5\<rparr>) (build_ifi (nl_le (ns_lib N k)) i f c)) = cmd"
    using msg(4) by simp
qed

lemma set_up_links:
  assumes "good k" and "links k n = Some l" and "CHR 0x00 \<notin> set n"
  shows "\<exists>k'. run_request N (\<lambda>L. set_up L n) k = Returns (Inr (), k') \<and> good k' \<and>
    links k' = (links k)(n \<mapsto> l\<lparr>lk_up := True\<rparr>)"
proof -
  let ?L = "ns_lib N k"
  obtain msg where msg: "unl_rtnl_msg ?L RTM_SETLINK = Some msg"
    using has_msg by blast
  let ?m = "nl_extend (msg\<lparr>nm_flags := 5\<rparr>) (build_ifi (nl_le ?L) (lk_index l) IFF_UP IFF_UP)"
  note ifi = ifi_request [OF msg, of "lk_index l" IFF_UP IFF_UP]
  have nonzero: "lk_index l \<noteq> 0"
    using index_good [OF assms(1,2)] by simp
  have "set_up ?L n = link_send ?L ?m ()"
    using assms(2,3) nonzero index [of k n] ifi(1) msg
    by (simp add: set_up_def with_index_def ifindex_def set_flags_def alloc_msg_def nl_consts Let_def)
  moreover have "nl_wait_for_ack ?L ?m = 0 \<and> links (ns_deliver N ?m k) = (links k)(n \<mapsto> l\<lparr>lk_up := True\<rparr>)"
    by (rule setlink [OF assms(1) ifi(3) ifi(2) assms(2)])
  moreover have "good (ns_deliver N ?m k)"
    using calculation(2) ifi(3) by (intro stays_good [OF assms(1)]) (simp_all add: nl_consts)
  ultimately show ?thesis
    using request_sent [of "\<lambda>L. set_up L n" k ?m "()"] by simp
qed

lemma del_links:
  assumes "good k" and "links k n = Some l" and "CHR 0x00 \<notin> set n"
    and "\<forall>n' l'. links k n' = Some l' \<longrightarrow> map_option fst (lk_vlan l') \<noteq> Some (lk_index l)"
  shows "\<exists>k'. run_request N (\<lambda>L. link_del L n) k = Returns (Inr (), k') \<and> links k' = (links k)(n := None)"
proof -
  let ?L = "ns_lib N k"
  obtain msg where msg: "unl_rtnl_msg ?L RTM_DELLINK = Some msg"
    using has_msg by blast
  let ?m = "nl_extend (msg\<lparr>nm_flags := 5\<rparr>) (build_ifi (nl_le ?L) (lk_index l) 0 0)"
  note ifi = ifi_request [OF msg, of "lk_index l" 0 0]
  have nonzero: "lk_index l \<noteq> 0"
    using index_good [OF assms(1,2)] by simp
  have "link_del ?L n = link_send ?L ?m ()"
    using assms(2,3) nonzero index [of k n] ifi(1) msg
    by (simp add: link_del_def with_index_def ifindex_def alloc_msg_def nl_consts Let_def)
  moreover have "nl_wait_for_ack ?L ?m = 0 \<and> links (ns_deliver N ?m k) = (links k)(n := None)"
    by (rule dellink [OF assms(1) ifi(3) ifi(2) assms(2,4)])
  ultimately show ?thesis
    using request_sent [of "\<lambda>L. link_del L n" k ?m "()"] by simp
qed

text \<open>The answer to \<open>add_vlan\<close>: the new interface, or EEXIST and nothing else.\<close>

lemma add_vlan_links:
  assumes "good k" and "links k p = Some l" and "CHR 0x00 \<notin> set p"
    and "utf8_valid (bytes_of_str (vlan_name p v))" and "length (vlan_name p v) < 16"
  shows "vlan_name p v \<in> dom (links k) \<Longrightarrow>
      run_request N (\<lambda>L. add_vlan L p v) k = Returns (Inl (Errno EEXIST), k)"
    and "links k (vlan_name p v) = None \<Longrightarrow> room k \<Longrightarrow>
      \<exists>k' j. run_request N (\<lambda>L. add_vlan L p v) k = Returns (Inr (vlan_name p v), k') \<and> good k' \<and>
        links k' = (links k)(vlan_name p v \<mapsto> \<lparr>lk_index = j, lk_vlan = Some (lk_index l, v), lk_up = False\<rparr>) \<and>
        j \<noteq> lk_index l \<and> (\<forall>n' l'. links k n' = Some l' \<longrightarrow> map_option fst (lk_vlan l') \<noteq> Some j)"
proof -
  let ?L = "ns_lib N k" and ?n = "vlan_name p v"
  have name: "link_vlan_name p v = ?n"
    by (simp add: link_vlan_name_def vlan_name_def)
  obtain msg where msg: "unl_rtnl_msg ?L RTM_NEWLINK = Some msg"
    using has_msg by blast
  have nonzero: "lk_index l \<noteq> 0"
    using index_good [OF assms(1,2)] by simp
  have idx: "if_nametoindex ?L p = lk_index l"
    using index [of k p] assms(2) by simp
  have "length p < 16"
    using assms(5) by (simp add: vlan_name_def)
  then obtain m where m: "add_vlan ?L p v = link_send ?L m ?n" "nm_type m = RTM_NEWLINK"
      "nm_flags m = or (or NLM_F_REQUEST NLM_F_ACK) (or NLM_F_CREATE NLM_F_EXCL)"
      "vlan_request_of ?L (drop 32 (nm_buf m)) (nm_len m - 32) = Some (Some ?n, Some (lk_index l), Some ''vlan'', Some v)"
    using netlink_vlan_request [OF lib assms(3), of v k "lk_index l" msg] assms(4) idx nonzero msg big name by auto
  note run = request_sent [of "\<lambda>L. add_vlan L p v" k m ?n, OF m(1)]
  show "run_request N (\<lambda>L. add_vlan L p v) k = Returns (Inl (Errno EEXIST), k)" if "?n \<in> dom (links k)"
    using taken [OF assms(1) m(2-4) that] run by (simp add: EEXIST_def)
  show "\<exists>k' j. run_request N (\<lambda>L. add_vlan L p v) k = Returns (Inr ?n, k') \<and> good k' \<and>
        links k' = (links k)(?n \<mapsto> \<lparr>lk_index = j, lk_vlan = Some (lk_index l, v), lk_up = False\<rparr>) \<and>
        j \<noteq> lk_index l \<and> (\<forall>n' l'. links k n' = Some l' \<longrightarrow> map_option fst (lk_vlan l') \<noteq> Some j)"
    if free: "links k ?n = None" and "room k"
  proof -
    note new = newlink [OF assms(1) \<open>room k\<close> m(2-4) assms(5) free assms(2) refl]
    moreover have "good (ns_deliver N m k)"
      using new \<open>room k\<close> by (intro stays_good [OF assms(1)]) simp_all
    ultimately show ?thesis
      using run by auto
  qed
qed

lemma link_new_ok: "RtnlLink_new (ns_lib N k) = Inr ()"
  using open_ok [of k] by (simp add: RtnlLink_new_def)

lemma name_clean: "CHR 0x00 \<notin> set p \<Longrightarrow> CHR 0x00 \<notin> set (vlan_name p v)"
  using show_nat_u16(2) [of "unat v"] by (simp add: vlan_name_def)

lemma create_again:
  assumes "good k" and "links k p = Some l" and "CHR 0x00 \<notin> set p"
    and "utf8_valid (bytes_of_str (vlan_name p v))" and "length (vlan_name p v) < 16"
    and "links k (vlan_name p v) = Some old"
  shows "\<exists>k'. create_vlan_netlink N err p v k = Returns (Inr (), k') \<and> good k' \<and>
    links k' = (links k)(vlan_name p v \<mapsto> old\<lparr>lk_up := True\<rparr>)"
proof -
  have "run_request N (\<lambda>L. add_vlan L p v) k = Returns (Inl (Errno EEXIST), k)"
    using assms(6) by (intro add_vlan_links(1) [OF assms(1-5)]) blast
  moreover obtain k' where "run_request N (\<lambda>L. set_up L (vlan_name p v)) k = Returns (Inr (), k')" "good k'"
      "links k' = (links k)(vlan_name p v \<mapsto> old\<lparr>lk_up := True\<rparr>)"
    using set_up_links [OF assms(1,6) name_clean [OF assms(3)]] by blast
  ultimately show ?thesis
    by (simp add: create_vlan_netlink_def bring_vlan_up_def link_new_ok os_error_of_def Let_def)
qed

lemma create_new:
  assumes "good k" and "links k p = Some l" and "CHR 0x00 \<notin> set p"
    and "utf8_valid (bytes_of_str (vlan_name p v))" and "length (vlan_name p v) < 16"
    and "links k (vlan_name p v) = None" and "room k"
  shows "\<exists>k' j. create_vlan_netlink N err p v k = Returns (Inr (), k') \<and> good k' \<and>
    links k' = (links k)(vlan_name p v \<mapsto> \<lparr>lk_index = j, lk_vlan = Some (lk_index l, v), lk_up = True\<rparr>) \<and>
    j \<noteq> lk_index l \<and> (\<forall>n' l'. links k n' = Some l' \<longrightarrow> map_option fst (lk_vlan l') \<noteq> Some j)"
proof -
  let ?n = "vlan_name p v"
  obtain k1 j where k1: "run_request N (\<lambda>L. add_vlan L p v) k = Returns (Inr ?n, k1)" "good k1"
      "links k1 = (links k)(?n \<mapsto> \<lparr>lk_index = j, lk_vlan = Some (lk_index l, v), lk_up = False\<rparr>)"
      "j \<noteq> lk_index l" "\<forall>n' l'. links k n' = Some l' \<longrightarrow> map_option fst (lk_vlan l') \<noteq> Some j"
    using add_vlan_links(2) [OF assms] by blast
  moreover have "links k1 ?n = Some \<lparr>lk_index = j, lk_vlan = Some (lk_index l, v), lk_up = False\<rparr>"
    using k1(3) by simp
  then obtain k' where "run_request N (\<lambda>L. set_up L ?n) k1 = Returns (Inr (), k')" "good k'"
      "links k' = (links k1)(?n \<mapsto> \<lparr>lk_index = j, lk_vlan = Some (lk_index l, v), lk_up = True\<rparr>)"
    using set_up_links [OF k1(2) _ name_clean [OF assms(3)], of v] by fastforce
  ultimately show ?thesis
    by (auto simp: create_vlan_netlink_def bring_vlan_up_def link_new_ok Let_def)
qed

lemma delete_existing:
  assumes "good k" and "links k (vlan_name p v) = Some l" and "CHR 0x00 \<notin> set p"
    and "\<forall>n' l'. links k n' = Some l' \<longrightarrow> map_option fst (lk_vlan l') \<noteq> Some (lk_index l)"
  shows "\<exists>k'. delete_vlan_netlink N err p v k = Returns (Inr False, k') \<and>
    links k' = (links k)(vlan_name p v := None)"
  using del_links [OF assms(1,2) name_clean [OF assms(3)] assms(4)] link_new_ok
  by (auto simp: delete_vlan_netlink_def Let_def)

text \<open>Created, then removed: the table is what it was.\<close>

lemma create_delete:
  assumes "good k" and "links k p = Some l" and "CHR 0x00 \<notin> set p"
    and "utf8_valid (bytes_of_str (vlan_name p v))" and "length (vlan_name p v) < 16"
    and "links k (vlan_name p v) = None" and "room k"
  shows "\<exists>k1 k2 j. create_vlan_netlink N err p v k = Returns (Inr (), k1) \<and>
    links k1 = (links k)(vlan_name p v \<mapsto> \<lparr>lk_index = j, lk_vlan = Some (lk_index l, v), lk_up = True\<rparr>) \<and>
    delete_vlan_netlink N err p v k1 = Returns (Inr False, k2) \<and> links k2 = links k"
proof -
  let ?n = "vlan_name p v"
  obtain k1 j where k1: "create_vlan_netlink N err p v k = Returns (Inr (), k1)" "good k1"
      "links k1 = (links k)(?n \<mapsto> \<lparr>lk_index = j, lk_vlan = Some (lk_index l, v), lk_up = True\<rparr>)"
      "j \<noteq> lk_index l" "\<forall>n' l'. links k n' = Some l' \<longrightarrow> map_option fst (lk_vlan l') \<noteq> Some j"
    using create_new [OF assms] by blast
  have "links k1 ?n = Some \<lparr>lk_index = j, lk_vlan = Some (lk_index l, v), lk_up = True\<rparr>"
    using k1(3) by simp
  moreover have "\<forall>n' l'. links k1 n' = Some l' \<longrightarrow> map_option fst (lk_vlan l') \<noteq> Some j"
    unfolding k1(3) using k1(4,5) by auto
  ultimately obtain k2
    where "delete_vlan_netlink N err p v k1 = Returns (Inr False, k2)" "links k2 = (links k1)(?n := None)"
    using delete_existing [OF k1(2) _ assms(3)] by fastforce
  moreover have "(links k1)(?n := None) = links k"
    using k1(3) assms(6) by auto
  ultimately show ?thesis
    using k1 by auto
qed

end

section \<open>A kernel with a table\<close>

text \<open>What a message asks for, read by the library's own reader, and the answer of a kernel that keeps its
  interfaces in a list.\<close>

type_synonym table = "(string \<times> link) list"

definition decoder :: "bool \<Rightarrow> nl_lib" where
  "decoder le = buffer_lib le 0 (\<lambda>_. 0) (\<lambda>_. 0) (\<lambda>_. 0) 0"

definition indices :: "table \<Rightarrow> u32 set" where
  "indices t = lk_index ` snd ` set t"

definition top_index :: "table \<Rightarrow> nat" where
  "top_index t =
     foldr (\<lambda>(_, l) m. max (unat (lk_index l)) (max (case lk_vlan l of None \<Rightarrow> 0 | Some (i, _) \<Rightarrow> unat i) m)) t 0"

definition table_new :: "bool \<Rightarrow> nl_msg \<Rightarrow> table \<Rightarrow> int \<times> table" where
  "table_new le m t =
     (case vlan_request_of (decoder le) (drop 32 (nm_buf m)) (nm_len m - 32) of
        Some (Some n, Some i, Some kind, Some v) \<Rightarrow>
          if n \<in> fst ` set t then (- EEXIST, t)
          else if i \<notin> indices t then (- ENODEV, t)
          else (0, (n, \<lparr>lk_index = of_nat (Suc (top_index t)), lk_vlan = Some (i, v), lk_up = False\<rparr>) # t)
      | _ \<Rightarrow> (- 22, t))"

definition flagged :: "u32 \<Rightarrow> u32 \<Rightarrow> u32 \<Rightarrow> link \<Rightarrow> link" where
  "flagged i flags change l =
     (if lk_index l = i \<and> and change IFF_UP = IFF_UP then l\<lparr>lk_up := (and flags IFF_UP = IFF_UP)\<rparr> else l)"

definition survives :: "u32 \<Rightarrow> link \<Rightarrow> bool" where
  "survives i l \<longleftrightarrow> lk_index l \<noteq> i \<and> map_option fst (lk_vlan l) \<noteq> Some i"

definition table_step :: "bool \<Rightarrow> nl_msg \<Rightarrow> table \<Rightarrow> int \<times> table" where
  "table_step le m t =
     (let word = (\<lambda>off. from_ne32 le (subslice off 4 (nm_buf m))) in
      if nm_type m = RTM_NEWLINK then table_new le m t
      else if word 20 \<notin> indices t then (- ENODEV, t)
      else if nm_type m = RTM_SETLINK then (0, map (\<lambda>(n, l). (n, flagged (word 20) (word 24) (word 28) l)) t)
      else if nm_type m = RTM_DELLINK then (0, filter (\<lambda>(n, l). survives (word 20) l) t)
      else (0, t))"

definition table_stack :: "bool \<Rightarrow> nat \<Rightarrow> table netstack" where
  "table_stack le cap =
     \<lparr>ns_lib = (\<lambda>t. buffer_lib le cap (\<lambda>n. case map_of t n of None \<Rightarrow> 0 | Some l \<Rightarrow> lk_index l) (\<lambda>_. 0)
        (\<lambda>m. fst (table_step le m t)) 19),
      ns_deliver = (\<lambda>m t. snd (table_step le m t))\<rparr>"

definition good_table :: "table \<Rightarrow> bool" where
  "good_table t \<longleftrightarrow> distinct (map fst t) \<and> distinct (map (lk_index \<circ> snd) t) \<and> 0 \<notin> indices t"

definition roomy :: "table \<Rightarrow> bool" where
  "roomy t \<longleftrightarrow> top_index t < 2 ^ 31"

text \<open>Reading depends on the byte order and on \<open>nla_ok\<close> only.\<close>

lemma collect_other_lib:
  assumes "nla_collect L it = Some xs"
  shows "\<forall>L' :: nl_lib. nl_le L' = nl_le L \<longrightarrow> nla_ok L' = nla_ok L \<longrightarrow> nla_collect L' it = Some xs"
proof (rule nla_collect.raw_induct [OF _ assms])
  fix f :: "nl_lib \<Rightarrow> nla_iter \<Rightarrow> bytes list option" and L :: nl_lib and it xs
  assume IH: "\<And>L it xs. f L it = Some xs \<Longrightarrow>
      \<forall>L' :: nl_lib. nl_le L' = nl_le L \<longrightarrow> nla_ok L' = nla_ok L \<longrightarrow> nla_collect L' it = Some xs"
    and body: "(case nla_next L it of None \<Rightarrow> Some []
      | Some (attr, it') \<Rightarrow> Option.bind (f L it') (\<lambda>attrs. Some (attr # attrs))) = Some xs"
  show "\<forall>L' :: nl_lib. nl_le L' = nl_le L \<longrightarrow> nla_ok L' = nla_ok L \<longrightarrow> nla_collect L' it = Some xs"
  proof (intro allI impI)
    fix L' :: nl_lib
    assume same: "nl_le L' = nl_le L" "nla_ok L' = nla_ok L"
    then have next_eq: "nla_next L' it = nla_next L it"
      by (simp add: nla_next_def nla_len_def Let_def)
    show "nla_collect L' it = Some xs"
    proof (cases "nla_next L it")
      case None
      then show ?thesis
        using body next_eq by (simp add: nla_collect.simps)
    next
      case (Some r)
      obtain attr it' where r: "r = (attr, it')"
        by fastforce
      then obtain ys where ys: "f L it' = Some ys" "xs = attr # ys"
        using body Some by (auto split: bind_splits)
      from IH [OF ys(1)] same have "nla_collect L' it' = Some ys"
        by blast
      then show ?thesis
        using next_eq Some r ys(2) by (subst nla_collect.simps) simp
    qed
  qed
qed

lemma collect_same_reader:
  fixes L L' :: nl_lib
  assumes "nl_le L' = nl_le L" and "nla_ok L' = nla_ok L"
  shows "nla_collect L' it = nla_collect L it"
proof (cases "nla_collect L it")
  case None
  have "nla_collect L' it \<noteq> Some xs" for xs
    using collect_other_lib [of L' it xs] assms None by auto
  then show ?thesis
    using None by (cases "nla_collect L' it") auto
next
  case (Some xs)
  then show ?thesis
    using collect_other_lib [OF Some] assms by simp
qed

lemma request_same_reader:
  fixes L L' :: nl_lib
  assumes "nl_le L' = nl_le L" and "nla_ok L' = nla_ok L"
  shows "vlan_request_of L' bs n = vlan_request_of L bs n"
proof -
  note same = collect_same_reader [OF assms]
  have len: "nla_len L' = nla_len L" "payload_len L' = payload_len L"
    using assms by (simp_all add: fun_eq_iff nla_len_def payload_len_def)
  have sub: "sub_attrs L' = sub_attrs L"
    by (simp add: fun_eq_iff sub_attrs_def len same split: option.splits)
  have get: "get_string L' = get_string L" "get_u32 L' = get_u32 L" "get_u16 L' = get_u16 L"
    using assms by (simp_all add: fun_eq_iff get_string_def get_u32_def get_u16_def len split: option.splits)
  show ?thesis
    unfolding vlan_request_of_def same sub get by (rule refl)
qed

lemma table_reader:
  "vlan_request_of (ns_lib (table_stack le cap) t) bs n = vlan_request_of (decoder le) bs n"
  by (rule request_same_reader) (simp_all add: table_stack_def decoder_def buffer_lib_def)

lemma ifi_words:
  assumes "subslice 16 16 buf = build_ifi le i flags change"
  shows "from_ne32 le (subslice 20 4 buf) = i" "from_ne32 le (subslice 24 4 buf) = flags"
    "from_ne32 le (subslice 28 4 buf) = change"
proof -
  have sub: "subslice (16 + a) 4 buf = subslice a 4 (subslice 16 16 buf)" if "a + 4 \<le> 16" for a
    using that by (simp add: subslice_def min_def drop_take add.commute)
  have "length (ne32 le w) = 4" for w
    by simp
  then show "from_ne32 le (subslice 20 4 buf) = i" "from_ne32 le (subslice 24 4 buf) = flags"
    "from_ne32 le (subslice 28 4 buf) = change"
    using sub [of 4] sub [of 8] sub [of 12]
    unfolding assms by (simp_all add: build_ifi_def subslice_def ne32.dec_enc)
qed

lemma top_index_above:
  assumes "(n, l) \<in> set t"
  shows "unat (lk_index l) \<le> top_index t" "lk_vlan l = Some (i, v) \<Longrightarrow> unat i \<le> top_index t"
  using assms by (induction t) (auto simp: top_index_def le_max_iff_disj)

lemma fresh_index:
  assumes "roomy t"
  shows "unat (of_nat (Suc (top_index t)) :: u32) = Suc (top_index t)"
    and "(of_nat (Suc (top_index t)) :: u32) \<noteq> 0" and "of_nat (Suc (top_index t)) \<notin> indices t"
    and "(n, l) \<in> set t \<Longrightarrow> map_option fst (lk_vlan l) \<noteq> Some (of_nat (Suc (top_index t)))"
proof -
  show u: "unat (of_nat (Suc (top_index t)) :: u32) = Suc (top_index t)"
    using assms by (simp add: roomy_def unsigned_of_nat take_bit_nat_eq_self del: of_nat_Suc)
  then show "(of_nat (Suc (top_index t)) :: u32) \<noteq> 0"
    by (metis Zero_not_Suc unat_0)
  show "of_nat (Suc (top_index t)) \<notin> indices t"
  proof
    assume "of_nat (Suc (top_index t)) \<in> indices t"
    then obtain n l where "(n, l) \<in> set t" "lk_index l = of_nat (Suc (top_index t))"
      by (auto simp: indices_def)
    with top_index_above(1) u show False
      by (metis not_less_eq_eq order_refl)
  qed
  show "map_option fst (lk_vlan l) \<noteq> Some (of_nat (Suc (top_index t)))" if "(n, l) \<in> set t"
  proof
    assume "map_option fst (lk_vlan l) = Some (of_nat (Suc (top_index t)))"
    then obtain v where "lk_vlan l = Some (of_nat (Suc (top_index t)), v)"
      by auto
    from top_index_above(2) [OF that this] u show False
      by simp
  qed
qed

lemma map_of_filter_links:
  "distinct (map fst t) \<Longrightarrow>
   map_of (filter (\<lambda>(n, l). Q l) t) n = (case map_of t n of None \<Rightarrow> None | Some l \<Rightarrow> if Q l then Some l else None)"
  by (induction t) (auto split: option.splits dest: map_of_SomeD simp: rev_image_eqI)

lemma map_of_map_links: "map_of (map (\<lambda>(n, l). (n, f l)) t) n = map_option f (map_of t n)"
  by (induction t) auto

lemma index_unique:
  assumes "good_table t" and "map_of t n = Some l" and "map_of t n' = Some l'" and "lk_index l' = lk_index l"
  shows "n' = n"
proof -
  have "(n, l) \<in> set t" "(n', l') \<in> set t"
    using assms(2,3) by (auto dest: map_of_SomeD)
  then have "(n', l') = (n, l)"
    using assms(1,4) inj_onD [of "lk_index \<circ> snd" "set t" "(n', l')" "(n, l)"]
    by (simp add: good_table_def distinct_map)
  then show ?thesis
    by simp
qed

lemma table_stack_sel:
  "ns_deliver (table_stack le cap) m t = snd (table_step le m t)"
  "nl_wait_for_ack (ns_lib (table_stack le cap) t) m = fst (table_step le m t)"
  "if_nametoindex (ns_lib (table_stack le cap) t) n = (case map_of t n of None \<Rightarrow> 0 | Some l \<Rightarrow> lk_index l)"
  "nl_le (ns_lib (table_stack le cap) t) = le" "nl_send_auto_complete (ns_lib (table_stack le cap) t) m = 0"
  "unl_rtnl_init (ns_lib (table_stack le cap) t) = 0" "\<exists>m. unl_rtnl_msg (ns_lib (table_stack le cap) t) cmd = Some m"
  by (simp_all add: table_stack_def buffer_lib_def)

lemma table_new_named:
  assumes "vlan_request_of (decoder le) (drop 32 (nm_buf m)) (nm_len m - 32) = Some (Some n, Some i, Some kind, Some v)"
  shows "table_new le m t =
    (if n \<in> fst ` set t then (- EEXIST, t)
     else if i \<notin> indices t then (- ENODEV, t)
     else (0, (n, \<lparr>lk_index = of_nat (Suc (top_index t)), lk_vlan = Some (i, v), lk_up = False\<rparr>) # t))"
  using assms by (simp add: table_new_def)

lemma table_new_cases:
  obtains (refused) e where "table_new le m t = (e, t)"
    | (added) n i v where "table_new le m t =
        (0, (n, \<lparr>lk_index = of_nat (Suc (top_index t)), lk_vlan = Some (i, v), lk_up = False\<rparr>) # t)"
      "n \<notin> fst ` set t"
proof (cases "\<exists>n i kind v. vlan_request_of (decoder le) (drop 32 (nm_buf m)) (nm_len m - 32) =
    Some (Some n, Some i, Some kind, Some v)")
  case True
  then obtain n i kind v where
    "vlan_request_of (decoder le) (drop 32 (nm_buf m)) (nm_len m - 32) = Some (Some n, Some i, Some kind, Some v)"
    by blast
  from table_new_named [OF this, of t] that show ?thesis
    by (cases "n \<in> fst ` set t"; cases "i \<in> indices t") (simp_all del: of_nat_Suc)
next
  case False
  then have "table_new le m t = (- 22, t)"
    by (auto simp: table_new_def split: option.splits)
  then show ?thesis
    by (rule refused)
qed

lemma lk_index_flagged [simp]: "lk_index (flagged i f c l) = lk_index l"
  by (simp add: flagged_def)

lemma good_flagged: "good_table t \<Longrightarrow> good_table (map (\<lambda>(n, l). (n, flagged i f c l)) t)"
proof -
  have keys: "map fst (map (\<lambda>(n, l). (n, flagged i f c l)) t) = map fst t"
    "map (lk_index \<circ> snd) (map (\<lambda>(n, l). (n, flagged i f c l)) t) = map (lk_index \<circ> snd) t"
    by auto
  have "indices (map (\<lambda>(n, l). (n, flagged i f c l)) t) = set (map (lk_index \<circ> snd) (map (\<lambda>(n, l). (n, flagged i f c l)) t))"
    by (simp add: indices_def image_image)
  also have "\<dots> = indices t"
    unfolding keys by (simp add: indices_def image_image)
  finally show "good_table t \<Longrightarrow> good_table (map (\<lambda>(n, l). (n, flagged i f c l)) t)"
    unfolding good_table_def keys by simp
qed

lemma good_filter: "good_table t \<Longrightarrow> good_table (filter P t)"
  by (auto simp: good_table_def indices_def distinct_map_filter)

lemma good_step:
  assumes "good_table t" and "roomy t \<or> nm_type m \<noteq> RTM_NEWLINK"
  shows "good_table (snd (table_step le m t))"
proof (cases "nm_type m = RTM_NEWLINK")
  case True
  then have step: "table_step le m t = table_new le m t"
    by (simp add: table_step_def Let_def)
  show ?thesis
  proof (cases rule: table_new_cases [of le m t])
    case (refused e)
    then show ?thesis
      using step assms(1) by simp
  next
    case (added n i v)
    have "roomy t"
      using assms(2) True by simp
    from fresh_index(2,3) [OF this] added assms(1) show ?thesis
      unfolding step by (auto simp: good_table_def indices_def simp del: of_nat_Suc)
  qed
next
  case False
  then show ?thesis
    using assms(1) good_flagged good_filter by (simp add: table_step_def Let_def)
qed

lemma in_indices: "map_of t n = Some l \<Longrightarrow> lk_index l \<in> indices t"
  by (force simp: indices_def dest: map_of_SomeD)

interpretation table: link_kernel "table_stack le (cap + 116)" "cap + 116" map_of good_table roomy for le cap
proof (rule link_kernel.intro, unfold table_stack_sel table_reader)
  fix t :: table and m :: nl_msg and n p :: string and i :: u32 and v :: u16 and l :: link
  show "libnl (ns_lib (table_stack le (cap + 116)) t) (cap + 116)"
    unfolding table_stack_def using buffered.libnl_axioms by simp
  show "116 \<le> cap + 116" "0 \<le> (0 :: int)" "\<exists>m. unl_rtnl_msg (ns_lib (table_stack le (cap + 116)) t) cmd = Some m" for cmd
    by (simp_all add: table_stack_sel)
  show "good_table t \<Longrightarrow> map_of t n = Some l \<Longrightarrow>
      lk_index l \<noteq> 0 \<and> (\<forall>n' l'. map_of t n' = Some l' \<longrightarrow> lk_index l' = lk_index l \<longrightarrow> n' = n)"
    using in_indices [of t n l] index_unique [of t n l] by (auto simp: good_table_def)
  show "good_table t \<Longrightarrow> 0 \<le> fst (table_step le m t) \<Longrightarrow> roomy t \<or> nm_type m \<noteq> RTM_NEWLINK \<Longrightarrow>
      good_table (snd (table_step le m t))"
    by (rule good_step)
  assume good: "good_table t"
  show "fst (table_step le m t) = - EEXIST \<and> snd (table_step le m t) = t"
    if "nm_type m = RTM_NEWLINK"
      "vlan_request_of (decoder le) (drop 32 (nm_buf m)) (nm_len m - 32) = Some (Some n, Some i, Some ''vlan'', Some v)"
      "n \<in> dom (map_of t)"
    using that table_new_named [OF that(2)] by (simp add: table_step_def dom_map_of_conv_image_fst)
  show "fst (table_step le m t) = 0 \<and>
      (\<exists>j. map_of (snd (table_step le m t)) = (map_of t)(n \<mapsto> \<lparr>lk_index = j, lk_vlan = Some (i, v), lk_up = False\<rparr>) \<and>
         j \<noteq> i \<and> (\<forall>n' l'. map_of t n' = Some l' \<longrightarrow> map_option fst (lk_vlan l') \<noteq> Some j))"
    if "roomy t" "nm_type m = RTM_NEWLINK"
      "vlan_request_of (decoder le) (drop 32 (nm_buf m)) (nm_len m - 32) = Some (Some n, Some i, Some ''vlan'', Some v)"
      "map_of t n = None" "map_of t p = Some l" "lk_index l = i"
  proof -
    have i: "i \<in> indices t"
      using that(5,6) in_indices by blast
    have "n \<notin> fst ` set t"
      using that(4) by (simp add: map_of_eq_None_iff)
    then have step: "table_step le m t =
        (0, (n, \<lparr>lk_index = of_nat (Suc (top_index t)), lk_vlan = Some (i, v), lk_up = False\<rparr>) # t)"
      using that(2) table_new_named [OF that(3)] i by (simp add: table_step_def Let_def)
    have "of_nat (Suc (top_index t)) \<noteq> i"
      using i fresh_index(3) [OF that(1)] by blast
    moreover have "map_option fst (lk_vlan l') \<noteq> Some (of_nat (Suc (top_index t)))" if "map_of t n' = Some l'" for n' l'
      using fresh_index(4) [OF \<open>roomy t\<close>] that by (auto dest: map_of_SomeD simp del: of_nat_Suc)
    ultimately show ?thesis
      unfolding step by (intro conjI exI [of _ "of_nat (Suc (top_index t))"]) (simp_all del: of_nat_Suc)
  qed
  show "fst (table_step le m t) = 0 \<and> map_of (snd (table_step le m t)) = (map_of t)(n \<mapsto> l\<lparr>lk_up := True\<rparr>)"
    if "nm_type m = RTM_SETLINK" "subslice 16 16 (nm_buf m) = build_ifi le (lk_index l) IFF_UP IFF_UP" "map_of t n = Some l"
  proof -
    have "map_of (map (\<lambda>(n, l'). (n, flagged (lk_index l) IFF_UP IFF_UP l')) t) = (map_of t)(n \<mapsto> l\<lparr>lk_up := True\<rparr>)"
    proof
      fix x
      show "map_of (map (\<lambda>(n, l'). (n, flagged (lk_index l) IFF_UP IFF_UP l')) t) x = ((map_of t)(n \<mapsto> l\<lparr>lk_up := True\<rparr>)) x"
        using that(3) index_unique [OF good that(3), of x]
        by (cases "map_of t x") (auto simp: map_of_map_links flagged_def)
    qed
    then show ?thesis
      using that(1) ifi_words [OF that(2)] in_indices [OF that(3)] by (simp add: table_step_def Let_def nl_consts)
  qed
  show "fst (table_step le m t) = 0 \<and> map_of (snd (table_step le m t)) = (map_of t)(n := None)"
    if "nm_type m = RTM_DELLINK" "subslice 16 16 (nm_buf m) = build_ifi le (lk_index l) 0 0" "map_of t n = Some l"
      "\<forall>n' l'. map_of t n' = Some l' \<longrightarrow> map_option fst (lk_vlan l') \<noteq> Some (lk_index l)"
  proof -
    have "map_of (filter (\<lambda>(n, l'). survives (lk_index l) l') t) = (map_of t)(n := None)"
    proof
      fix x
      have keys: "distinct (map fst t)"
        using good by (simp add: good_table_def)
      show "map_of (filter (\<lambda>(n, l'). survives (lk_index l) l') t) x = ((map_of t)(n := None)) x"
      proof (cases "map_of t x")
        case None
        then show ?thesis
          unfolding map_of_filter_links [OF keys] by simp
      next
        case (Some l')
        then have "survives (lk_index l) l' \<longleftrightarrow> x \<noteq> n"
          using that(3,4) index_unique [OF good that(3) Some] by (auto simp: survives_def)
        then show ?thesis
          unfolding map_of_filter_links [OF keys] using Some by simp
      qed
    qed
    then show ?thesis
      using that(1) ifi_words(1) [OF that(2)] in_indices [OF that(3)] by (simp add: table_step_def Let_def nl_consts)
  qed
qed simp_all

section \<open>Properties\<close>

lemma start_vlan_result:
  "daemon_start T E R opened ex sock c ns ov = Returns (Inr st) \<Longrightarrow>
   st_vlan_result st = create_vlan_iface R (parent_iface c) (st_vlan st)"
  unfolding daemon_start_eq Let_def by (auto simp: bind_outcome_Returns split: if_splits)


text \<open>One interface, on which a daemon whose board is silent starts with the VLAN 2000.\<close>

definition lan_table :: table where
  "lan_table = [(''lan0'', \<lparr>lk_index = 2, lk_vlan = None, lk_up = True\<rparr>)]"


end
