(* ===== verification/Service.thy ===== *)
theory Service
  imports Daemon UbusTransport
begin

text \<open>
  The daemon's contact with the rest of the system: its signal handlers and the connection to ubus
  (\<open>rbctl_dsl/src/daemon.rs\<close>, \<open>transport.rs\<close>), the methods of the ubus object
  (\<open>ubus_obj.rs\<close>), and the control socket in the file system (\<open>ipc.rs\<close>), which two daemons share
  when they run at the same time.
\<close>

section \<open>Signals\<close>

definition SIGHUP :: nat where "SIGHUP = 1"
definition SIGINT :: nat where "SIGINT = 2"
definition SIGTERM :: nat where "SIGTERM = 15"

lemmas signal_numbers = SIGHUP_def SIGINT_def SIGTERM_def

text \<open>The handlers installed, by signal number; a signal without one has its default effect, which is not the
  daemon's.\<close>

definition install_signal_handlers :: "(nat \<rightharpoonup> signal) \<Rightarrow> (nat \<rightharpoonup> signal)" where
  "install_signal_handlers handlers =
     ((handlers(SIGTERM \<mapsto> SigTerm))(SIGINT \<mapsto> SigTerm))(SIGHUP \<mapsto> SigHup)"

definition deliver_signal :: "(nat \<rightharpoonup> signal) \<Rightarrow> nat \<Rightarrow> flags \<Rightarrow> flags" where
  "deliver_signal handlers n f = (case handlers n of None \<Rightarrow> f | Some s \<Rightarrow> handle_signal s f)"

lemma signals_set_flags:
  "should_exit (fold (deliver_signal (install_signal_handlers Map.empty)) ns f) \<longleftrightarrow>
     should_exit f \<or> SIGTERM \<in> set ns \<or> SIGINT \<in> set ns"
  "should_reload (fold (deliver_signal (install_signal_handlers Map.empty)) ns f) \<longleftrightarrow>
     should_reload f \<or> SIGHUP \<in> set ns"
  "should_restart_line (fold (deliver_signal (install_signal_handlers Map.empty)) ns f) = should_restart_line f"
  by (induction ns arbitrary: f)
     (auto simp: deliver_signal_def install_signal_handlers_def signal_numbers split: option.splits)

section \<open>The ubus connection\<close>

text \<open>What opening the socket and switching it to non-blocking mode answer, with the text of the error.\<close>

definition UnixUbusTransport_connect ::
  "(string \<Rightarrow> string + 's) \<Rightarrow> ('s \<Rightarrow> string + unit) \<Rightarrow> string \<Rightarrow> ubus_error + 's \<times> bytes" where
  "UnixUbusTransport_connect open_socket set_nonblocking path =
     (case open_socket path of
        Inl e \<Rightarrow> Inl (UbusIo e)
      | Inr stream \<Rightarrow>
          (case set_nonblocking stream of
             Inl e \<Rightarrow> Inl (UbusIo e)
           | Inr _ \<Rightarrow> Inr (stream, [])))"

text \<open>Registering the object is a call of the ubus crate; without a connection the daemon runs on.\<close>

definition connect_ubus ::
  "(string \<Rightarrow> bool) \<Rightarrow> (string \<Rightarrow> ubus_error + 't) \<Rightarrow> ('t \<Rightarrow> ubus_error + 'c) \<Rightarrow> 'c option" where
  "connect_ubus connects connect connect_and_register =
     (case find_ubus_socket connects of
        None \<Rightarrow> None
      | Some path \<Rightarrow>
          (case connect path of
             Inl _ \<Rightarrow> None
           | Inr transport \<Rightarrow>
               (case connect_and_register transport of
                  Inl _ \<Rightarrow> None
                | Inr c \<Rightarrow> Some c)))"

lemma connect_ubus_first:
  assumes "connect_ubus connects connect register = Some c"
  obtains i t where "i < length ubus_sockets" "connects (ubus_sockets ! i)"
    "\<forall>j<i. \<not> connects (ubus_sockets ! j)" "connect (ubus_sockets ! i) = Inr t" "register t = Inr c"
  using assms
  by (auto simp: connect_ubus_def find_ubus_socket_def find_Some_iff split: option.splits sum.splits)

text \<open>The object answers from the state at the time of the call; the statistics are empty.\<close>

record ubus_object =
  uo_name :: string
  uo_methods :: "(string \<times> (dsl_state \<Rightarrow> blob_call list)) list"

definition build_dsl_object :: ubus_object where
  "build_dsl_object =
     \<lparr>uo_name = ''dsl'',
      uo_methods = [(''metrics'', build_metrics_reply), (''statistics'', \<lambda>_. [])]\<rparr>"

section \<open>The control socket in the file system\<close>

text \<open>Removing a path, binding a listener to it and switching the listener to non-blocking mode.\<close>

record 'o unix_sockets =
  us_remove :: "string \<Rightarrow> 'o \<Rightarrow> 'o"
  us_bind :: "string \<Rightarrow> 'o \<Rightarrow> (io_error + nat) \<times> 'o"
  us_nonblocking :: "nat \<Rightarrow> 'o \<Rightarrow> (io_error + unit) \<times> 'o"

definition IpcListener_bind :: "'o unix_sockets \<Rightarrow> string \<Rightarrow> 'o \<Rightarrow> (io_error + nat) \<times> 'o" where
  "IpcListener_bind U path s =
     (let s = us_remove U path s in
      case us_bind U path s of
        (Inl e, s) \<Rightarrow> (Inl e, s)
      | (Inr listener, s) \<Rightarrow>
          (case us_nonblocking U listener s of
             (Inl e, s) \<Rightarrow> (Inl e, s)
           | (Inr _, s) \<Rightarrow> (Inr listener, s)))"

text \<open>The last act of the daemon.\<close>

definition remove_control_socket :: "'o unix_sockets \<Rightarrow> 'o \<Rightarrow> 'o" where
  "remove_control_socket U s = us_remove U SOCK_PATH s"

text \<open>The listener that a client of a path reaches, and all listeners made so far.  A path that is not taken can be
  bound, by a new listener.\<close>

locale socket_namespace =
  fixes U :: "'o unix_sockets" and bound :: "'o \<Rightarrow> string \<rightharpoonup> nat" and made :: "'o \<Rightarrow> nat set"
  assumes remove: "bound (us_remove U p s) = (bound s)(p := None) \<and> made (us_remove U p s) = made s"
    and bind: "bound s p = None \<Longrightarrow> \<exists>l s'. us_bind U p s = (Inr l, s') \<and> bound s' = (bound s)(p \<mapsto> l) \<and>
      l \<notin> made s \<and> made s' = insert l (made s)"
    and nonblocking: "\<exists>s'. us_nonblocking U l s = (Inr (), s') \<and> bound s' = bound s \<and> made s' = made s"
begin

text \<open>Binding succeeds whatever the path was before: a stale file, or a daemon that is still listening.\<close>

lemma bind_takes_path:
  "\<exists>l s'. IpcListener_bind U p s = (Inr l, s') \<and> bound s' = (bound s)(p \<mapsto> l) \<and> l \<notin> made s \<and> made s' = insert l (made s)"
proof -
  have free: "bound (us_remove U p s) p = None"
    by (simp add: remove)
  from bind [OF free] obtain l s1 where s1: "us_bind U p (us_remove U p s) = (Inr l, s1)"
      "bound s1 = (bound s)(p \<mapsto> l)" "l \<notin> made s" "made s1 = insert l (made s)"
    by (auto simp: remove)
  moreover obtain s2 where "us_nonblocking U l s1 = (Inr (), s2)" "bound s2 = bound s1" "made s2 = made s1"
    using nonblocking by blast
  ultimately show ?thesis
    by (simp add: IpcListener_bind_def Let_def)
qed

text \<open>A second daemon takes the control socket away from the first, whose listener no client reaches any more, and
  the end of either of them leaves the other without it.\<close>

lemma second_daemon_takes_socket:
  "\<exists>a b s1 s2. IpcListener_bind U SOCK_PATH s = (Inr a, s1) \<and> bound s1 SOCK_PATH = Some a \<and>
     IpcListener_bind U SOCK_PATH s1 = (Inr b, s2) \<and> bound s2 SOCK_PATH = Some b \<and> a \<noteq> b \<and>
     bound (remove_control_socket U s2) SOCK_PATH = None"
proof -
  obtain a s1 where a: "IpcListener_bind U SOCK_PATH s = (Inr a, s1)" "bound s1 = (bound s)(SOCK_PATH \<mapsto> a)" "a \<in> made s1"
    using bind_takes_path by blast
  moreover obtain b s2 where "IpcListener_bind U SOCK_PATH s1 = (Inr b, s2)" "bound s2 = (bound s1)(SOCK_PATH \<mapsto> b)" "b \<notin> made s1"
    using bind_takes_path by blast
  ultimately show ?thesis
    by (auto simp: remove_control_socket_def remove)
qed

end

text \<open>A namespace as a list of bound paths, with the number of listeners made.\<close>

type_synonym names = "(string \<times> nat) list \<times> nat"

definition names_bind :: "string \<Rightarrow> names \<Rightarrow> (io_error + nat) \<times> names" where
  "names_bind p s =
     (case s of (paths, n) \<Rightarrow>
        if p \<in> fst ` set paths then (Inl (OtherIo ''Address in use''), s) else (Inr n, (p, n) # paths, Suc n))"

definition name_sockets :: "names unix_sockets" where
  "name_sockets =
     \<lparr>us_remove = (\<lambda>p (paths, n). (filter (\<lambda>(q, _). q \<noteq> p) paths, n)), us_bind = names_bind,
      us_nonblocking = (\<lambda>_ s. (Inr (), s))\<rparr>"

lemma map_of_without: "map_of (filter (\<lambda>x. fst x \<noteq> p) s) = (map_of s)(p := None)"
  by (induction s) (auto simp: fun_eq_iff)

interpretation names: socket_namespace name_sockets "\<lambda>s. map_of (fst s)" "\<lambda>s. {..<snd s}"
proof (unfold_locales, goal_cases)
  case (1 p s)
  then show ?case
    by (simp add: name_sockets_def map_of_without split_def)
next
  case (2 s p)
  then have "p \<notin> fst ` set (fst s)"
    by (simp add: map_of_eq_None_iff)
  then show ?case
    by (auto simp: name_sockets_def names_bind_def split_def lessThan_Suc)
next
  case (3 l s)
  then show ?case
    by (simp add: name_sockets_def)
qed

end
