(* ===== verification/Display.thy ===== *)
theory Display
  imports FwExtract AfPacket Validate
begin

text \<open>
  The texts in which values are shown: the \<open>Display\<close> implementations of the configuration errors
  (\<open>rbctl_proto/src/validate.rs\<close>) and of the container header (\<open>fwextract/src/main.rs\<close>) with
  the hexadecimal helper.  The report of a header loses none of its fields.
\<close>

section \<open>Configuration errors\<close>

text \<open>\<open>:x\<close> of a number, and \<open>:?\<close> of the transport.\<close>

function show_lower_hex :: "nat \<Rightarrow> string" where
  "show_lower_hex n = (if n < 16 then [hex_digit False n] else show_lower_hex (n div 16) @ [hex_digit False (n mod 16)])"
  by auto
termination by (relation "measure id") auto

declare show_lower_hex.simps [simp del]

primrec transport_debug :: "transport_hint \<Rightarrow> string" where
  "transport_debug HintAtm = ''Atm''"
| "transport_debug HintPtm = ''Ptm''"

primrec line_config_error_text :: "line_config_error \<Rightarrow> string" where
  "line_config_error_text (ProfileRequiresVdsl2 md bitmask) =
     ''VDSL2 profile bitmask 0x'' @ show_lower_hex (unat bitmask) @
     '' requires modulation 6 (VDSL2) or 7 (Multimode), got '' @ show_nat (unat md)"
| "line_config_error_text (AnnexesNotDefined md) =
     ''modulation '' @ show_nat (unat md) @ '' has no annex concept (T1.413/G.lite); only Annex auto is valid''"
| "line_config_error_text (AnnexNotInStandard an md letter valid) =
     ''annex '' @ show_nat (unat an) @ '' letter '' @ [CHR 0x27] @ [letter] @ [CHR 0x27] @ '' not in modulation '' @
     show_nat (unat md) @ [CHR 0x27] @ ''s valid set '' @ [CHR 0x27] @ valid @ [CHR 0x27]"
| "line_config_error_text (XferModeMismatch md expected actual) =
     ''modulation '' @ show_nat (unat md) @ '' requires '' @ transport_debug expected @ '' transport, got '' @
     transport_debug actual"

section \<open>The container header\<close>

definition hex :: "bytes \<Rightarrow> string" where
  "hex bs = concat (map (\<lambda>b. hex_octet False b) bs)"

definition newline :: char where "newline = CHR 0x0A"

definition report_line :: "string \<Rightarrow> string \<Rightarrow> string" where
  "report_line label shown = ''  '' @ label @ '': '' @ shown @ [newline]"

text \<open>\<open>0x\<close> and \<open>:X\<close>.\<close>

definition show_0x :: "u32 \<Rightarrow> string" where
  "show_0x w = ''0x'' @ show_radix 16 (unat w)"

definition tag_header_text :: "tag_header \<Rightarrow> string" where
  "tag_header_text t =
     report_line ''image_version  '' (''0x'' @ show_hex8 (th_image_version t)) @
     report_line ''product_id     '' (''0x'' @ show_hex8 (th_product_id t)) @
     report_line ''product_ver    '' (''0x'' @ show_hex8 (th_product_ver t)) @
     report_line ''hw_ver         '' (''0x'' @ show_hex8 (th_hw_ver t)) @
     report_line ''sw_revision    '' (''0x'' @ show_hex8 (th_sw_revision t)) @
     report_line ''special_ver    '' (''0x'' @ show_hex8 (th_special_ver t)) @
     report_line ''md5_digest     '' (hex (th_md5 t)) @
     report_line ''total_image_len'' (show_nat (unat (th_total_image_len t)) @ '' ('' @ show_0x (th_total_image_len t) @ '')'') @
     report_line ''signing_scheme '' (signing_scheme t)"

section \<open>Nothing is lost\<close>

lemma length_hex [simp]: "length (hex bs) = 2 * length bs"
  by (induction bs) (simp_all add: hex_def hex_octet_def)

lemma hex_Cons: "hex (b # bs) = hex_octet False b @ hex bs" "length (hex_octet False b) = 2"
  by (simp_all add: hex_def hex_octet_def)

lemma hex_inj: "hex bs = hex cs \<Longrightarrow> bs = cs"
proof (induction bs arbitrary: cs)
  case Nil
  then have "length (hex cs) = 0"
    by (simp add: hex_def)
  then show ?case
    by simp
next
  case (Cons b bs)
  then have "length (hex (b # bs)) = length (hex cs)"
    by simp
  then obtain c cs' where cs: "cs = c # cs'"
    by (cases cs) simp_all
  have octet: "hex_octet False b = hex_octet False c" and "hex bs = hex cs'"
    using Cons.prems unfolding cs hex_Cons(1) by (simp_all add: hex_Cons(2))
  moreover have "b = c"
    using arg_cong [OF octet, of parse_u8_hex] by (simp only: parse_hex_octet option.inject)
  ultimately show ?case
    using Cons.IH by (simp only: cs)
qed

lemma digit_char_hex: "digit_char d = hex_digit True d"
  by (simp add: digit_char_def hex_digit_def)

lemma digit_value_hex: "d < 16 \<Longrightarrow> digit_value 16 (digit_char d) = Some d"
  unfolding digit_char_hex by (rule hex_digit_facts)

text \<open>The digits read as a number, leading zeros or not.\<close>

lemma parse_show_hex: "parse_digits 16 0 (show_radix 16 n) = Some n"
proof (induction n rule: less_induct)
  case (less n)
  then show ?case
    by (cases "n < 16") (simp_all add: show_radix.simps [of 16 n] digit_value_hex parse_digits_append)
qed

lemma parse_zeros: "parse_digits 16 0 (replicate k (digit_char 0) @ s) = parse_digits 16 0 s"
  by (induction k) (simp_all add: digit_value_hex)

lemma show_hex8_inj: "show_hex8 v = show_hex8 w \<longleftrightarrow> v = w"
proof
  have zero: "CHR ''0'' = digit_char 0"
    by code_simp
  have parse: "parse_digits 16 0 (show_hex8 w) = Some (unat w)" for w
    by (simp add: show_hex8_def Let_def zero parse_zeros parse_show_hex)
  assume "show_hex8 v = show_hex8 w"
  then have "unat v = unat w"
    using parse [of v] parse [of w] by simp
  then show "v = w"
    by (simp add: word_unat_eq_iff)
qed simp

lemma length_show_hex: "n < 16 ^ Suc k \<Longrightarrow> length (show_radix 16 n) \<le> Suc k"
proof (induction k arbitrary: n)
  case 0
  then show ?case
    by (simp add: show_radix.simps [of 16 n])
next
  case (Suc k)
  have "n div 16 < 16 ^ Suc k"
    using Suc.prems by (simp add: less_mult_imp_div_less)
  with Suc.IH [of "n div 16"] show ?case
    by (cases "n < 16") (simp_all add: show_radix.simps [of 16 n])
qed

lemma length_show_hex8 [simp]: "length (show_hex8 w) = 8"
proof -
  have "unat w < 16 ^ Suc 7"
    using unsigned_less [of w, where ?'a = nat] by simp
  from length_show_hex [OF this] show ?thesis
    by (simp add: show_hex8_def Let_def)
qed

lemma until_space:
  assumes "\<forall>c\<in>set a. c \<noteq> CHR '' ''" and "\<forall>c\<in>set b. c \<noteq> CHR '' ''" and "a @ CHR '' '' # s = b @ CHR '' '' # t"
  shows "a = b"
proof -
  have "takeWhile (\<lambda>c. c \<noteq> CHR '' '') (a @ CHR '' '' # s) = a" "takeWhile (\<lambda>c. c \<noteq> CHR '' '') (b @ CHR '' '' # t) = b"
    using assms(1,2) by (simp_all add: takeWhile_append2)
  with assms(3) show ?thesis
    by metis
qed

lemma show_nat_no_space: "\<forall>c\<in>set (show_nat n). c \<noteq> CHR '' ''"
proof -
  have "\<not> solid (CHR '' '')"
    by code_simp
  then show ?thesis
    using show_nat_solid(1) by metis
qed

lemma report_line_inj:
  "length a = length b \<Longrightarrow> report_line l a @ r = report_line l b @ s \<longleftrightarrow> a = b \<and> r = s"
  by (simp add: report_line_def)

text \<open>Two headers with digests of 16 bytes that are shown alike are equal.\<close>

lemma tag_header_text_inj:
  assumes "tag_header_text t = tag_header_text u" and "length (th_md5 t) = 16" and "length (th_md5 u) = 16"
  shows "t = u"
proof -
  let ?total = "\<lambda>t. show_nat (unat (th_total_image_len t)) @ '' ('' @ show_0x (th_total_image_len t) @ '')''"
  have fields: "th_image_version t = th_image_version u \<and> th_product_id t = th_product_id u \<and>
      th_product_ver t = th_product_ver u \<and> th_hw_ver t = th_hw_ver u \<and> th_sw_revision t = th_sw_revision u \<and>
      th_special_ver t = th_special_ver u \<and> hex (th_md5 t) = hex (th_md5 u) \<and>
      report_line ''total_image_len'' (?total t) @ report_line ''signing_scheme '' (signing_scheme t) =
      report_line ''total_image_len'' (?total u) @ report_line ''signing_scheme '' (signing_scheme u)"
    using assms unfolding tag_header_text_def by (simp add: report_line_inj show_hex8_inj del: append.simps)
  then have "show_nat (unat (th_total_image_len t)) = show_nat (unat (th_total_image_len u))"
    unfolding report_line_def append_assoc
    by (auto dest: until_space [OF show_nat_no_space show_nat_no_space])
  then have "unat (th_total_image_len t) = unat (th_total_image_len u)"
    using parse_show_digits by (metis show_nat_def option.inject)
  then show ?thesis
    using fields hex_inj [of "th_md5 t" "th_md5 u"] by (intro tag_header.equality) (simp_all add: word_unat_eq_iff)
qed

end
