(* ===== verification/WireTrace.thy ===== *)
theory WireTrace
  imports Daemon
begin

text \<open>
  What the daemon says on the wire from its start to its end, as the composition of the startup
  (\<open>daemon.rs\<close>), the worker (\<open>board_worker.rs\<close>), the board controller (\<open>board.rs\<close>) and
  the frame builder (\<open>frame.rs\<close>).  The transport keeps a record of the frames it was given; a conversation
  is a list of exchanges, each an opcode, a payload and a number of copies, with consecutive sequence numbers.
\<close>

section \<open>Conversations\<close>

type_synonym exchange = "byte \<times> bytes \<times> nat"

text \<open>A frame that a receiver accepts as this command.\<close>

definition carries :: "'d crc_engine \<Rightarrow> bytes \<Rightarrow> u32 \<Rightarrow> byte \<Rightarrow> bytes \<Rightarrow> bytes \<Rightarrow> bool" where
  "carries E mac seq op payload frame \<longleftrightarrow>
     verify_checksum E frame = Some True \<and> frame_parse frame = Some frame \<and> frame_is_command frame \<and>
     frame_subtype frame = op \<and> frame_seq frame = seq \<and> frame_payload frame = payload \<and> frame_src_mac frame = mac"

fun conversation :: "'d crc_engine \<Rightarrow> bytes \<Rightarrow> u32 \<Rightarrow> exchange list \<Rightarrow> bytes list \<Rightarrow> bool" where
  "conversation E mac seq [] frames \<longleftrightarrow> frames = []"
| "conversation E mac seq ((op, payload, n) # xs) frames \<longleftrightarrow>
     (\<exists>frame rest. frames = replicate n frame @ rest \<and> carries E mac (seq + 1) op payload frame \<and>
        conversation E mac (seq + 1) xs rest)"

lemma conversation_append:
  "conversation E mac q xs fs \<Longrightarrow> conversation E mac (q + of_nat (length xs)) ys gs \<Longrightarrow>
   conversation E mac q (xs @ ys) (fs @ gs)"
proof (induction xs arbitrary: q fs)
  case (Cons x xs)
  obtain op pl n where x: "x = (op, pl, n)"
    using prod_cases3 by blast
  with Cons.prems(1) obtain frame rest where "fs = replicate n frame @ rest" "carries E mac (q + 1) op pl frame"
      "conversation E mac (q + 1) xs rest"
    by auto
  moreover have "conversation E mac (q + 1) (xs @ ys) (rest @ gs)"
    using Cons.prems(2) by (intro Cons.IH calculation(3)) (simp add: ac_simps)
  ultimately show ?case
    unfolding x by (auto intro!: exI [of _ frame] exI [of _ "rest @ gs"])
qed simp

section \<open>What an operation says\<close>

definition copies_within :: "byte \<Rightarrow> exchange list \<Rightarrow> bool" where
  "copies_within retries xs \<longleftrightarrow> (\<forall>(op, payload, n) \<in> set xs. 1 \<le> n \<and> n \<le> Suc (unat retries))"

definition says :: "'d crc_engine \<Rightarrow> exchange list \<Rightarrow> ('t \<times> bytes list) board \<Rightarrow> ('t \<times> bytes list) board \<Rightarrow> bool" where
  "says E xs b b' \<longleftrightarrow>
     b_mac b' = b_mac b \<and> b_retries b' = b_retries b \<and> b_seq b' = b_seq b + of_nat (length xs) \<and>
     copies_within (b_retries b) xs \<and>
     (\<exists>frames. snd (b_sock b') = snd (b_sock b) @ frames \<and> conversation E (b_mac b) (b_seq b) xs frames)"

lemma says_nothing: "says E [] b b"
  by (simp add: says_def copies_within_def)

lemma says_append:
  assumes "says E xs b b1" and "says E ys b1 b2"
  shows "says E (xs @ ys) b b2"
proof -
  obtain fs where fs: "snd (b_sock b1) = snd (b_sock b) @ fs" "conversation E (b_mac b) (b_seq b) xs fs"
    using assms(1) by (auto simp: says_def)
  obtain gs where gs: "snd (b_sock b2) = snd (b_sock b1) @ gs" "conversation E (b_mac b1) (b_seq b1) ys gs"
    using assms(2) by (auto simp: says_def)
  have "conversation E (b_mac b) (b_seq b) (xs @ ys) (fs @ gs)"
    using fs(2) gs(2) assms(1) by (intro conversation_append) (auto simp: says_def)
  then show ?thesis
    using assms fs gs by (auto simp: says_def copies_within_def ac_simps)
qed

lemma says_request:
  assumes "request (logged T) E b op payload = Returns (r, b')" and "length (b_mac b) = 6"
  shows "\<exists>n. says E [(op, payload, n)] b b'"
proof -
  obtain frame t where tx: "tx_frame E b op (b_seq b + 1) payload = Some frame"
    and run: "attempts (logged T) E op (b_seq b + 1) frame (Suc (unat (b_retries b))) (b_sock b) = Returns (r, t)"
    and b': "b' = b\<lparr>b_seq := b_seq b + 1, b_sock := t\<rparr>"
    using assms(1) unfolding request_returns_iff by blast
  obtain n where n: "n \<le> Suc (unat (b_retries b))" "snd t = snd (b_sock b) @ replicate n frame" "1 \<le> n"
    using attempts_log [OF run] by auto
  have "carries E (b_mac b) (b_seq b + 1) op payload frame"
    using transmitted_frame_and_echo [OF assms(2), where E = E and s = op and q = "b_seq b + 1" and pl = payload and s' = 0 and q' = 0] tx
    by (simp add: carries_def verified_parses [of E])
  then have "conversation E (b_mac b) (b_seq b) [(op, payload, n)] (replicate n frame)"
    by auto
  then show ?thesis
    using n b' by (auto simp: says_def copies_within_def)
qed

lemma says_reply:
  "then_reply (request (logged T) E b op payload) f = Returns (r, b') \<Longrightarrow> length (b_mac b) = 6 \<Longrightarrow>
   \<exists>n. says E [(op, payload, n)] b b'"
  by (auto simp: then_reply_returns dest: says_request)

definition up_exchange :: "dsl_config \<Rightarrow> nat \<Rightarrow> exchange" where
  "up_exchange c n =
     (1, [0x01] @ pack_dsl_line (dc_modulation c) (dc_annex c) (dc_bitswap c) (dc_sra c) (dc_profiles c), n)"

definition down_exchange :: "nat \<Rightarrow> exchange" where
  "down_exchange n = (3, [0x03], n)"

definition poll_exchange :: "nat \<Rightarrow> exchange" where
  "poll_exchange n = (2, [0x02], n)"

definition link_exchange :: "dsl_config \<Rightarrow> nat \<Rightarrow> exchange" where
  "link_exchange c n =
     (case dc_xfer_mode c of
        Ptm \<Rightarrow> (15, [0x0F] @ pack_ptm_link 0 0 0 (transport_vlan_id c), n)
      | Atm \<Rightarrow> (5, [0x05] @ pack_atm_link (atm_params (dc_atm c) (transport_vlan_id c)), n))"

lemma says_up:
  "up_with (logged T) E c b = Returns (r, b') \<Longrightarrow> length (b_mac b) = 6 \<Longrightarrow> \<exists>n. says E [up_exchange c n] b b'"
  by (auto simp: up_with_def line_config_up_def up_exchange_def dest: says_reply)

lemma says_down:
  "line_config_down (logged T) E b = Returns (r, b') \<Longrightarrow> length (b_mac b) = 6 \<Longrightarrow> \<exists>n. says E [down_exchange n] b b'"
  by (auto simp: line_config_down_def down_exchange_def dest: says_reply)

lemma says_poll:
  "get_line_obj (logged T) E b = Returns (r, b') \<Longrightarrow> length (b_mac b) = 6 \<Longrightarrow> \<exists>n. says E [poll_exchange n] b b'"
  by (auto simp: get_line_obj_def poll_exchange_def dest: says_reply)

lemma says_link:
  "add_link (logged T) E c (transport_vlan_id c) b = Returns (r, b') \<Longrightarrow> length (b_mac b) = 6 \<Longrightarrow>
   \<exists>n. says E [link_exchange c n] b b'"
  by (cases "dc_xfer_mode c")
     (auto simp: add_link_def ptm_link_add_def atm_link_add_def link_exchange_def Let_def dest: says_reply)

section \<open>What the worker says\<close>

text \<open>The configuration the line is brought up with in an iteration, if it is taken down in it: the current
  one for a restart, the one just loaded for a reload that changes something.\<close>

definition cycle_cfg :: "cli_overrides \<Rightarrow> dsl_config \<Rightarrow> iteration \<Rightarrow> dsl_config option" where
  "cycle_cfg ov c it =
     (case it_input it of
        GotCmd RestartLine \<Rightarrow> Some c
      | GotCmd Reload \<Rightarrow>
          (case load_config (it_opened it) ov of
             Inl _ \<Rightarrow> None
           | Inr c' \<Rightarrow> if config_changed c c' then Some c' else None)
      | _ \<Rightarrow> None)"

definition cfg_after :: "dsl_config \<Rightarrow> dsl_config option \<Rightarrow> dsl_config" where
  "cfg_after c next = (case next of None \<Rightarrow> c | Some c' \<Rightarrow> c')"

fun cycle_talk :: "dsl_config option \<Rightarrow> exchange list \<Rightarrow> bool" where
  "cycle_talk None xs \<longleftrightarrow> xs = []"
| "cycle_talk (Some c) xs \<longleftrightarrow> (\<exists>m n. xs = [down_exchange m, up_exchange c n])"

definition poll_talk :: "exchange list \<Rightarrow> bool" where
  "poll_talk xs \<longleftrightarrow> xs = [] \<or> (\<exists>n. xs = [poll_exchange n])"

fun talk :: "cli_overrides \<Rightarrow> dsl_config \<Rightarrow> iteration list \<Rightarrow> exchange list \<Rightarrow> bool" where
  "talk ov c [] xs \<longleftrightarrow> xs = []"
| "talk ov c (it # its) xs \<longleftrightarrow>
     (if it_input it = ChannelClosed then xs = []
      else \<exists>as ps ys. xs = as @ ps @ ys \<and> cycle_talk (cycle_cfg ov c it) as \<and> poll_talk ps \<and>
        talk ov (cfg_after c (cycle_cfg ov c it)) its ys)"

lemma cycle_says:
  assumes "on_board (line_config_down (logged T) E) w = Returns w1" and "on_board (up_with (logged T) E c) w1 = Returns w2"
    and "length (b_mac (w_board w)) = 6"
  shows "\<exists>xs. cycle_talk (Some c) xs \<and> says E xs (w_board w) (w_board w2)"
proof -
  obtain r b1 where b1: "line_config_down (logged T) E (w_board w) = Returns (r, b1)" "w_board w1 = b1"
    using assms(1) by (auto simp: on_board_def bind_outcome_Returns)
  then obtain m where m: "says E [down_exchange m] (w_board w) b1"
    using says_down assms(3) by blast
  then have "length (b_mac b1) = 6"
    using assms(3) by (simp add: says_def)
  moreover obtain r2 b2 where "up_with (logged T) E c b1 = Returns (r2, b2)" "w_board w2 = b2"
    using assms(2) b1(2) by (auto simp: on_board_def bind_outcome_Returns)
  ultimately obtain n where "says E [up_exchange c n] b1 (w_board w2)"
    using says_up by blast
  with says_append [OF m this] show ?thesis
    by auto
qed

text \<open>A step of the worker: what it says, and the configuration it has afterwards.\<close>

definition serves ::
  "'d crc_engine \<Rightarrow> exchange list \<Rightarrow> dsl_config \<Rightarrow> ('t \<times> bytes list) worker \<Rightarrow> ('t \<times> bytes list) worker \<Rightarrow> bool" where
  "serves E xs c w w' \<longleftrightarrow> says E xs (w_board w) (w_board w') \<and> w_cfg w' = c \<and> w_overrides w' = w_overrides w"

lemma serves_mac: "serves E xs c w w' \<Longrightarrow> length (b_mac (w_board w)) = 6 \<Longrightarrow> length (b_mac (w_board w')) = 6"
  by (simp add: serves_def says_def)

lemma serves_nothing: "serves E [] (w_cfg w) w w"
  by (simp add: serves_def says_nothing)

lemma reload_serves:
  assumes "handle_reload (logged T) E (it_opened it) w = Returns w'" and "length (b_mac (w_board w)) = 6"
    and "it_input it = GotCmd Reload"
  shows "\<exists>xs. cycle_talk (cycle_cfg (w_overrides w) (w_cfg w) it) xs \<and>
    serves E xs (cfg_after (w_cfg w) (cycle_cfg (w_overrides w) (w_cfg w) it)) w w'"
proof (cases "cycle_cfg (w_overrides w) (w_cfg w) it")
  case None
  then have "w' = w"
    using assms(1,3) by (auto simp: handle_reload_def cycle_cfg_def split: sum.splits if_splits)
  with None show ?thesis
    by (simp add: cfg_after_def serves_nothing)
next
  case (Some c)
  then have "load_config (it_opened it) (w_overrides w) = Inr c" "config_changed (w_cfg w) c"
    using assms(3) by (auto simp: cycle_cfg_def split: sum.splits if_splits)
  then obtain w1 w2 where w: "on_board (line_config_down (logged T) E) w = Returns w1"
      "on_board (up_with (logged T) E c) w1 = Returns w2" "w' = (publish_config (w2\<lparr>w_cfg := c\<rparr>))\<lparr>w_tc_emitted := False\<rparr>"
    using assms(1) by (auto simp: handle_reload_def bind_outcome_Returns Let_def)
  moreover have "w_board w' = w_board w2" "w_cfg w' = c" "w_overrides w' = w_overrides w2"
    by (simp_all add: w(3) publish_config_def)
  ultimately show ?thesis
    using cycle_says [OF w(1,2) assms(2)] on_board_fields [OF w(1)] on_board_fields [OF w(2)]
    unfolding Some cfg_after_def serves_def by (auto simp del: cycle_talk.simps)
qed

lemma restart_serves:
  assumes "handle_restart (logged T) E w = Returns w'" and "length (b_mac (w_board w)) = 6"
  shows "\<exists>xs. cycle_talk (Some (w_cfg w)) xs \<and> serves E xs (w_cfg w) w w'"
proof -
  obtain w1 w2 where w: "on_board (line_config_down (logged T) E) w = Returns w1"
      "on_board (up_with (logged T) E (w_cfg w1)) w1 = Returns w2" "w' = w2\<lparr>w_tc_emitted := False\<rparr>"
    using assms(1) by (auto simp: handle_restart_def bind_outcome_Returns)
  then show ?thesis
    using cycle_says [OF w(1,2) assms(2)] on_board_fields [OF w(1)] on_board_fields [OF w(2)]
    unfolding serves_def by (auto simp del: cycle_talk.simps)
qed

definition no_upgrade :: "iteration list \<Rightarrow> bool" where
  "no_upgrade its \<longleftrightarrow> (\<forall>it\<in>set its. \<forall>img. it_input it \<noteq> GotCmd (FirmwareUpgrade img))"

lemma dispatch_serves:
  assumes "dispatch (logged T) E show_io it w = Returns w'" and "no_upgrade [it]" and "length (b_mac (w_board w)) = 6"
  shows "\<exists>xs. cycle_talk (cycle_cfg (w_overrides w) (w_cfg w) it) xs \<and>
    serves E xs (cfg_after (w_cfg w) (cycle_cfg (w_overrides w) (w_cfg w) it)) w w'"
proof (cases "it_input it")
  case (GotCmd cmd)
  show ?thesis
  proof (cases cmd)
    case Reload
    with GotCmd assms(1) have "handle_reload (logged T) E (it_opened it) w = Returns w'"
      by (simp add: dispatch_def)
    then show ?thesis
      using assms(3) GotCmd Reload by (intro reload_serves) simp_all
  next
    case RestartLine
    with GotCmd assms(1) have "handle_restart (logged T) E w = Returns w'"
      by (simp add: dispatch_def)
    from restart_serves [OF this assms(3)] show ?thesis
      by (simp add: cycle_cfg_def cfg_after_def GotCmd RestartLine)
  next
    case (FirmwareUpgrade img)
    with GotCmd assms(2) show ?thesis
      by (simp add: no_upgrade_def)
  qed
qed (use assms(1) in \<open>auto simp: dispatch_def cycle_cfg_def cfg_after_def intro: serves_nothing\<close>)

lemma observe_board:
  "w_board (observe_line clk line w) = w_board w" "w_overrides (observe_line clk line w) = w_overrides w"
  by (simp_all add: observe_line_def Let_def)

lemma poll_serves:
  assumes "maybe_poll_board (logged T) E clk w = Returns w'" and "length (b_mac (w_board w)) = 6"
  shows "\<exists>xs. poll_talk xs \<and> serves E xs (w_cfg w) w w'"
proof (cases "poll_due clk w")
  case False
  then show ?thesis
    using assms(1) serves_nothing by (auto simp: maybe_poll_board_def poll_talk_def)
next
  case True
  then obtain r b where rb: "get_line_obj (logged T) E (w_board w) = Returns (r, b)"
    using assms(1) by (auto simp: maybe_poll_board_def bind_outcome_Returns Let_def)
  have "w_board w' = b \<and> w_cfg w' = w_cfg w \<and> w_overrides w' = w_overrides w"
    using assms(1) True rb
    by (cases r) (auto simp: maybe_poll_board_def bind_outcome_Returns Let_def observe_board observe_line_fields)
  moreover obtain n where "says E [poll_exchange n] (w_board w) b"
    using says_poll [OF rb assms(2)] by blast
  ultimately show ?thesis
    by (auto simp: poll_talk_def serves_def)
qed

lemma loop_serves:
  "worker_loop (logged T) E show_io its w = Returns w' \<Longrightarrow> no_upgrade its \<Longrightarrow> length (b_mac (w_board w)) = 6 \<Longrightarrow>
   \<exists>xs. talk (w_overrides w) (w_cfg w) its xs \<and> says E xs (w_board w) (w_board w')"
proof (induction its arbitrary: w)
  case Nil
  then show ?case
    by (simp add: says_nothing)
next
  case (Cons it its)
  show ?case
  proof (cases "it_input it = ChannelClosed")
    case True
    with Cons.prems show ?thesis
      by (simp add: says_nothing)
  next
    case False
    let ?c = "cycle_cfg (w_overrides w) (w_cfg w) it"
    from False Cons.prems obtain w1 w2 where w: "dispatch (logged T) E show_io it w = Returns w1"
        "maybe_poll_board (logged T) E (it_clock it) w1 = Returns w2" "worker_loop (logged T) E show_io its w2 = Returns w'"
      by (auto simp: bind_outcome_Returns)
    obtain as where as: "cycle_talk ?c as" "serves E as (cfg_after (w_cfg w) ?c) w w1"
      using dispatch_serves [OF w(1)] Cons.prems by (auto simp: no_upgrade_def)
    obtain ps where ps: "poll_talk ps" "serves E ps (w_cfg w1) w1 w2"
      using poll_serves [OF w(2) serves_mac [OF as(2) Cons.prems(3)]] by blast
    have "length (b_mac (w_board w2)) = 6"
      using serves_mac as(2) ps(2) Cons.prems(3) by blast
    then obtain ys where ys: "talk (w_overrides w2) (w_cfg w2) its ys" "says E ys (w_board w2) (w_board w')"
      using Cons.IH [OF w(3)] Cons.prems(2) by (auto simp: no_upgrade_def)
    have "says E (as @ ps @ ys) (w_board w) (w_board w')"
      using as(2) ps(2) ys(2) by (auto simp: serves_def intro: says_append)
    moreover have "talk (w_overrides w) (w_cfg w) (it # its) (as @ ps @ ys)"
      using False as ps ys(1) by (auto simp: serves_def)
    ultimately show ?thesis
      by blast
  qed
qed

text \<open>At the end the line is taken down, with one copy of the frame.\<close>

lemma run_says:
  assumes "worker_run (logged T) E show_io its w = Returns w'" and "no_upgrade its" and "length (b_mac (w_board w)) = 6"
  obtains xs b where "talk (w_overrides w) (w_cfg w) its xs" "says E xs (w_board w) b"
    "says E [down_exchange 1] (b\<lparr>b_retries := 0\<rparr>) (w_board w')"
proof -
  obtain w1 where w1: "worker_loop (logged T) E show_io its w = Returns w1"
      "on_board (line_config_down (logged T) E) (w1\<lparr>w_board := board_set_retries 0 (w_board w1)\<rparr>) = Returns w'"
    using assms(1) by (auto simp: worker_run_def bind_outcome_Returns)
  obtain xs where xs: "talk (w_overrides w) (w_cfg w) its xs" "says E xs (w_board w) (w_board w1)"
    using loop_serves [OF w1(1) assms(2,3)] by blast
  obtain r b' where b': "line_config_down (logged T) E (w_board w1\<lparr>b_retries := 0\<rparr>) = Returns (r, b')" "w_board w' = b'"
    using w1(2) by (auto simp: on_board_def bind_outcome_Returns board_set_retries_def)
  have "length (b_mac (w_board w1\<lparr>b_retries := 0\<rparr>)) = 6"
    using xs(2) assms(3) by (simp add: says_def)
  from says_down [OF b'(1) this] obtain n where n: "says E [down_exchange n] (w_board w1\<lparr>b_retries := 0\<rparr>) b'"
    by blast
  then have "n = 1"
    by (auto simp: says_def copies_within_def down_exchange_def)
  with that [OF xs] n b'(2) show thesis
    by simp
qed

section \<open>On a quiet network the daemon runs to its end\<close>

lemma logged_quiet:
  assumes "quiet_transport T pending"
  shows "quiet_transport (logged T) (\<lambda>u. pending (fst u))"
proof (rule quiet_transport.intro)
  fix u n data u'
  assume r: "tr_recv (logged T) u n = (Inr data, u')"
  obtain t l where u: "u = (t, l)"
    by (cases u)
  have "tr_recv T t n = (Inr data, fst u')"
    using r unfolding u logged_recv by (cases "tr_recv T t n") auto
  then show "pending (fst u') < pending (fst u)" "length data \<le> n"
    using quiet_transport.recv_less [OF assms] quiet_transport.recv_fits [OF assms] by (simp_all add: u)
qed

lemma quiet_reply:
  assumes "quiet_transport T pending" and "length (b_mac b) = 6" and "length payload \<le> 188"
  shows "\<exists>r b'. then_reply (request T E b op payload) f = Returns (r, b')"
proof -
  obtain r b' where "request T E b op payload = Returns (r, b')"
    using quiet_transport.request_total [OF assms] by blast
  then show ?thesis
    by (cases r) (auto simp: then_reply_def)
qed

lemma link_room:
  "length (pack_dsl_line m a b s p) = 12" "length (pack_atm_link atm) = 24" "length (pack_ptm_link x y z v) = 8"
  by (rule pack_dsl_line_faithful [THEN conjunct1] pack_atm_link_faithful [THEN conjunct1]
      pack_link_faithful [THEN conjunct1])+

lemma quiet_operations:
  assumes "quiet_transport T pending" and "length (b_mac b) = 6"
  shows "\<exists>r b'. up_with T E c b = Returns (r, b')"
    and "\<exists>r b'. line_config_down T E b = Returns (r, b')"
    and "\<exists>r b'. get_line_obj T E b = Returns (r, b')"
    and "\<exists>r b'. add_link T E c v b = Returns (r, b')"
proof -
  note quiet = quiet_reply [OF assms]
  show "\<exists>r b'. up_with T E c b = Returns (r, b')"
    unfolding up_with_def line_config_up_def Let_def by (rule quiet) (simp add: link_room)
  show "\<exists>r b'. line_config_down T E b = Returns (r, b')"
    unfolding line_config_down_def by (rule quiet) simp
  show "\<exists>r b'. get_line_obj T E b = Returns (r, b')"
    unfolding get_line_obj_def by (rule quiet) simp
  have "\<exists>r b'. ptm_link_add T E 0 0 0 v b = Returns (r, b')"
    unfolding ptm_link_add_def Let_def by (rule quiet) (simp add: link_room)
  moreover have "\<exists>r b'. atm_link_add T E p b = Returns (r, b')" for p
    unfolding atm_link_add_def Let_def by (rule quiet) (simp add: link_room)
  ultimately show "\<exists>r b'. add_link T E c v b = Returns (r, b')"
    by (simp add: add_link_def split: xfer_mode.split)
qed

lemma quiet_on_board:
  "\<exists>r b'. m (w_board w) = Returns (r, b') \<Longrightarrow> \<exists>w'. on_board m w = Returns w'"
  by (auto simp: on_board_def)

lemma quiet_cycle:
  assumes "quiet_transport T pending" and "length (b_mac (w_board w)) = 6"
  obtains w1 where "on_board (line_config_down (logged T) E) w = Returns w1"
    "\<And>c. \<exists>w2. on_board (up_with (logged T) E c) w1 = Returns w2"
proof -
  note quiet = quiet_operations [OF logged_quiet [OF assms(1)]]
  obtain r b where b: "line_config_down (logged T) E (w_board w) = Returns (r, b)"
    using quiet(2) assms(2) by blast
  then have "on_board (line_config_down (logged T) E) w = Returns (w\<lparr>w_board := b\<rparr>)"
    by (simp add: on_board_def)
  moreover obtain n where "says E [down_exchange n] (w_board w) b"
    using says_down [OF b assms(2)] by blast
  then have "length (b_mac (w_board (w\<lparr>w_board := b\<rparr>))) = 6"
    using assms(2) by (simp add: says_def)
  then have "\<exists>w2. on_board (up_with (logged T) E c) (w\<lparr>w_board := b\<rparr>) = Returns w2" for c
    by (intro quiet_on_board quiet(1))
  ultimately show thesis
    by (rule that)
qed

lemma quiet_dispatch:
  assumes "quiet_transport T pending" and "length (b_mac (w_board w)) = 6" and "no_upgrade [it]"
  shows "\<exists>w'. dispatch (logged T) E show_io it w = Returns w'"
proof -
  obtain w1 where down: "on_board (line_config_down (logged T) E) w = Returns w1"
    and up: "\<And>c. \<exists>w2. on_board (up_with (logged T) E c) w1 = Returns w2"
    using quiet_cycle [OF assms(1,2)] by blast
  have "\<exists>w'. handle_restart (logged T) E w = Returns w'"
    using up [of "w_cfg w1"] by (auto simp: handle_restart_def down)
  moreover have "\<exists>w'. handle_reload (logged T) E opened w = Returns w'" for opened
    using up [of "projr (load_config opened (w_overrides w))"]
    by (cases "load_config opened (w_overrides w)") (auto simp: handle_reload_def down Let_def)
  ultimately show ?thesis
    using assms(3) by (simp add: dispatch_def no_upgrade_def split: worker_input.split worker_cmd.split)
qed

lemma quiet_poll:
  assumes "quiet_transport T pending" and "length (b_mac (w_board w)) = 6"
  shows "\<exists>w'. maybe_poll_board (logged T) E clk w = Returns w'"
proof -
  obtain r b where "get_line_obj (logged T) E (w_board w) = Returns (r, b)"
    using quiet_operations(3) [OF logged_quiet [OF assms(1)] assms(2)] by blast
  then show ?thesis
    by (cases r) (auto simp: maybe_poll_board_def Let_def)
qed

lemma quiet_loop:
  "quiet_transport T pending \<Longrightarrow> length (b_mac (w_board w)) = 6 \<Longrightarrow> no_upgrade its \<Longrightarrow>
   \<exists>w'. worker_loop (logged T) E show_io its w = Returns w'"
proof (induction its arbitrary: w)
  case (Cons it its)
  have one: "no_upgrade [it]" and rest: "no_upgrade its"
    using Cons.prems(3) by (simp_all add: no_upgrade_def)
  obtain w1 where w1: "dispatch (logged T) E show_io it w = Returns w1"
    using quiet_dispatch [OF Cons.prems(1,2) one] by blast
  then have mac1: "length (b_mac (w_board w1)) = 6"
    using dispatch_serves [OF w1 one Cons.prems(2)] Cons.prems(2) by (auto dest: serves_mac)
  then obtain w2 where w2: "maybe_poll_board (logged T) E (it_clock it) w1 = Returns w2"
    using quiet_poll [OF Cons.prems(1)] by blast
  then have "length (b_mac (w_board w2)) = 6"
    using poll_serves [OF w2 mac1] mac1 by (auto dest: serves_mac)
  then have "\<exists>w'. worker_loop (logged T) E show_io its w2 = Returns w'"
    using rest by (intro Cons.IH [OF Cons.prems(1)])
  then show ?case
    by (auto simp: w1 w2)
qed simp

lemma quiet_run:
  assumes "quiet_transport T pending" and "length (b_mac (w_board w)) = 6" and "no_upgrade its"
  shows "\<exists>w'. worker_run (logged T) E show_io its w = Returns w'"
proof -
  obtain w1 where w1: "worker_loop (logged T) E show_io its w = Returns w1"
    using quiet_loop [OF assms] by blast
  then have "length (b_mac (w_board (w1\<lparr>w_board := board_set_retries 0 (w_board w1)\<rparr>))) = 6"
    using loop_serves [OF w1 assms(3,2)] assms(2) by (auto simp: says_def board_set_retries_def)
  then obtain w2 where "on_board (line_config_down (logged T) E) (w1\<lparr>w_board := board_set_retries 0 (w_board w1)\<rparr>) = Returns w2"
    using quiet_cycle [OF assms(1)] by blast
  then show ?thesis
    by (simp add: worker_run_def w1)
qed

section \<open>The daemon's conversation\<close>

lemma board_ready_log:
  "snd (b_sock (board_ready (logged T) s)) = snd s" "b_mac (board_ready (logged T) s) = tr_local_mac T (fst s)"
  "b_seq (board_ready (logged T) s) = 0" "b_retries (board_ready (logged T) s) = 3"
  by (simp_all add: board_ready_def board_set_retries_def board_set_timeout_def Board_new_def SeqCounter_new_def logged_def
      Let_def split_def)

lemma quiet_start:
  assumes "quiet_transport T pending" and "length (tr_local_mac T (fst s)) = 6"
    and "transfer_ok (start_config opened ov)" and "ex c"
  shows "\<exists>st. daemon_start (logged T) E R opened ex (Inr s) c ns ov = Returns (Inr st)"
proof -
  let ?cfg = "start_config opened ov"
  note quiet = quiet_operations [OF logged_quiet [OF assms(1)]]
  have mac: "length (b_mac (board_ready (logged T) s)) = 6"
    using assms(2) by (simp add: board_ready_log)
  obtain r b1 where b1: "up_with (logged T) E ?cfg (board_ready (logged T) s) = Returns (r, b1)"
    using quiet(1) [OF mac] by blast
  then have "length (b_mac b1) = 6"
    using says_up [OF b1 mac] mac by (auto simp: says_def)
  then obtain r2 b2 where "add_link (logged T) E ?cfg (transport_vlan_id ?cfg) b1 = Returns (r2, b2)"
    using quiet(4) by blast
  with b1 assms(3,4) show ?thesis
    by (simp add: daemon_start_eq Let_def)
qed

lemma start_says:
  assumes "daemon_start (logged T) E R opened ex (Inr s) c ns ov = Returns (Inr st)" and "length (tr_local_mac T (fst s)) = 6"
  obtains m n where
    "says E [up_exchange (start_config opened ov) m, link_exchange (start_config opened ov) n]
       (board_ready (logged T) s) (w_board (st_worker st))"
    "w_cfg (st_worker st) = start_config opened ov" "w_overrides (st_worker st) = ov"
proof -
  let ?cfg = "start_config opened ov"
  obtain r b1 r2 b2 where b: "up_with (logged T) E ?cfg (board_ready (logged T) s) = Returns (r, b1)"
      "add_link (logged T) E ?cfg (transport_vlan_id ?cfg) b1 = Returns (r2, b2)" "w_board (st_worker st) = b2"
      "w_cfg (st_worker st) = ?cfg" "w_overrides (st_worker st) = ov"
    using assms(1) unfolding daemon_start_eq Let_def
    by (auto simp: bind_outcome_Returns BoardWorker_new_def split: if_splits)
  obtain m where m: "says E [up_exchange ?cfg m] (board_ready (logged T) s) b1"
    using says_up [OF b(1)] assms(2) by (auto simp: board_ready_log)
  then have "length (b_mac b1) = 6"
    using assms(2) by (simp add: says_def board_ready_log)
  from says_link [OF b(2) this] obtain n where "says E [link_exchange ?cfg n] b1 b2"
    by blast
  from says_append [OF m this] that show thesis
    by (simp add: b(3-5))
qed

text \<open>C21. What the daemon says from its start to its end, on a network that delivers only finitely many frames
  before a receive times out, and while no firmware is uploaded.  The daemon starts and its worker comes to its end;
  every frame it sends is a command that a receiver accepts (checksum, parsing, its own
  address as the sender); the frames of one request are identical copies, at least one and at most four, and the requests
  carry the sequence numbers 1, 2, 3 and so on.  First comes the configuration the daemon started with,
  then the link of its transfer mode.  In every iteration of the worker then follow, for a restart, the line taken down
  and up again with the configuration in force, for a reload the same with the configuration just loaded, if it loads and
  differs, nothing for the rest, and at most one poll; and last the line is taken down, by one single frame.
  In particular the link is never removed, nor set up again after a reload.\<close>

theorem daemon_conversation:
  assumes net: "\<forall>t n data t'. tr_recv T t n = (Inr data, t') \<longrightarrow> (pending t' :: nat) < pending t \<and> length data \<le> n"
    and mac: "length (tr_local_mac T (fst s)) = 6"
    and cfg: "transfer_ok (start_config opened ov)" "ex c" and its: "no_upgrade its"
  shows "\<exists>st w m n xs frames.
    daemon_start (logged T) E R opened ex (Inr s) c ns ov = Returns (Inr st) \<and>
    worker_run (logged T) E show_io its (st_worker st) = Returns w \<and>
    snd (b_sock (w_board w)) = snd s @ frames \<and> talk ov (start_config opened ov) its xs \<and>
    conversation E (tr_local_mac T (fst s)) 0
      ([up_exchange (start_config opened ov) m, link_exchange (start_config opened ov) n] @ xs @ [down_exchange 1]) frames \<and>
    copies_within 3 ([up_exchange (start_config opened ov) m, link_exchange (start_config opened ov) n] @ xs)"
proof -
  let ?cfg = "start_config opened ov"
  have quiet: "quiet_transport T pending"
    using net by (intro quiet_transport.intro) blast+
  obtain st where start: "daemon_start (logged T) E R opened ex (Inr s) c ns ov = Returns (Inr st)"
    using quiet_start [where ex = ex and c = c, OF quiet mac cfg] by blast
  obtain m n where first: "says E [up_exchange ?cfg m, link_exchange ?cfg n] (board_ready (logged T) s) (w_board (st_worker st))"
      "w_cfg (st_worker st) = ?cfg" "w_overrides (st_worker st) = ov"
    using start_says [OF start mac] by blast
  have w0: "length (b_mac (w_board (st_worker st))) = 6"
    using first(1) mac by (simp add: says_def board_ready_log)
  obtain w where run: "worker_run (logged T) E show_io its (st_worker st) = Returns w"
    using quiet_run [OF quiet w0 its] by blast
  obtain xs b where xs: "talk ov ?cfg its xs" "says E xs (w_board (st_worker st)) b"
      "says E [down_exchange 1] (b\<lparr>b_retries := 0\<rparr>) (w_board w)"
    using run_says [OF run its w0] unfolding first(2,3) by metis
  have front: "says E ([up_exchange ?cfg m, link_exchange ?cfg n] @ xs) (board_ready (logged T) s) b"
    using says_append [OF first(1) xs(2)] .
  then obtain fs where fs: "snd (b_sock b) = snd s @ fs"
      "conversation E (tr_local_mac T (fst s)) 0 ([up_exchange ?cfg m, link_exchange ?cfg n] @ xs) fs"
    by (auto simp: says_def board_ready_log)
  obtain gs where gs: "snd (b_sock (w_board w)) = snd (b_sock b) @ gs" "conversation E (b_mac b) (b_seq b) [down_exchange 1] gs"
    using xs(3) by (auto simp: says_def)
  have "conversation E (tr_local_mac T (fst s)) 0 (([up_exchange ?cfg m, link_exchange ?cfg n] @ xs) @ [down_exchange 1]) (fs @ gs)"
    using gs(2) front by (intro conversation_append [OF fs(2)]) (simp add: says_def board_ready_log)
  moreover have "copies_within 3 ([up_exchange ?cfg m, link_exchange ?cfg n] @ xs)"
    using front by (simp add: says_def board_ready_log)
  ultimately show ?thesis
    using start run xs(1) fs(1) gs(1) by (metis append_assoc)
qed

text \<open>The default configuration, a worker that restarts the line once, and a network on which the board is silent.\<close>

definition one_restart :: "iteration list" where
  "one_restart = [\<lparr>it_input = GotCmd RestartLine, it_opened = Inl [],
     it_clock = \<lparr>at_due = 0, at_poll = 0, at_up = 0, at_publish = 0\<rparr>\<rparr>]"

lemma daemon_conversation_witness:
  "\<exists>st w m n xs frames.
    daemon_start (logged (cut_transport [0, 17, 34, 51, 68, 85])) null_engine no_rtnl (Inl []) (\<lambda>_. True) (Inr ([], []))
      ''lan0'' None no_overrides = Returns (Inr st) \<and>
    worker_run (logged (cut_transport [0, 17, 34, 51, 68, 85])) null_engine (\<lambda>e. []) one_restart (st_worker st) = Returns w \<and>
    snd (b_sock (w_board w)) = frames \<and> talk no_overrides DslConfig_default one_restart xs \<and>
    conversation null_engine [0, 17, 34, 51, 68, 85] 0
      ([up_exchange DslConfig_default m, link_exchange DslConfig_default n] @ xs @ [down_exchange 1]) frames"
proof -
  let ?T = "cut_transport [0, 17, 34, 51, 68, 85]"
  have cfg: "start_config (Inl []) no_overrides = DslConfig_default"
    by (simp add: start_config_def load_config_def)
  have net: "\<forall>t n data t'. tr_recv ?T t n = (Inr data, t') \<longrightarrow> length t' < length t \<and> length data \<le> n"
    by (auto simp: cut_transport_def map_sum_def split: list.splits sum.splits)
  have mac: "tr_local_mac ?T (fst ([], [])) = [0, 17, 34, 51, 68, 85]"
    by (simp add: cut_transport_def script_transport_def)
  have ok: "transfer_ok DslConfig_default"
    by (simp add: transfer_ok_def DslConfig_default_def hint_of_def validate_xfer_mode_def is_vdsl2_def is_adsl_def)
  have its: "no_upgrade one_restart"
    by (simp add: no_upgrade_def one_restart_def)
  from daemon_conversation [where T = ?T and pending = length and s = "([], [])" and opened = "Inl []" and ov = no_overrides
      and ex = "\<lambda>_. True" and c = "''lan0''" and R = no_rtnl and ns = None and show_io = "\<lambda>e. []" and E = null_engine,
      OF net _ _ _ its]
  show ?thesis
    unfolding mac cfg by (simp add: ok) blast
qed

end
