(* ===== verification/MockBoard.thy ===== *)
theory MockBoard
  imports BoardSpec
begin

text \<open>
  The board of the unit tests (\<open>tests\<close> in \<open>rbctl_dsl/src/board.rs\<close>): a transport that answers
  the frame it was sent last.  Its cells (\<open>RefCell\<close>) are fields of its state.  \<open>mock_request\<close> says what every request to
  it returns, and the tests themselves are definitions, decided for every CRC engine.
\<close>

section \<open>The mock transport\<close>

record mock =
  mk_mac :: bytes
  mk_never_respond :: bool
  mk_fail_first :: u32
  mk_overrides :: "byte \<rightharpoonup> bytes"
  mk_last_tx :: bytes

definition MockTransport_new :: mock where
  "MockTransport_new =
     \<lparr>mk_mac = [0xAA, 0xBB, 0xCC, 0xDD, 0xEE, 0xFF], mk_never_respond = False, mk_fail_first = 0,
      mk_overrides = Map.empty, mk_last_tx = []\<rparr>"

definition mock_set_response :: "byte \<Rightarrow> bytes \<Rightarrow> mock \<Rightarrow> mock" where
  "mock_set_response subtype payload m = m\<lparr>mk_overrides := (mk_overrides m)(subtype \<mapsto> payload)\<rparr>"

text \<open>The checksum is set in place; it never panics here (\<open>mock_checksum_set\<close>).\<close>

definition mock_unchecked :: "byte \<Rightarrow> u32 \<Rightarrow> bytes \<Rightarrow> bytes" where
  "mock_unchecked subtype seq payload =
     (let buf = replicate (HEADER_LEN + length payload) 0;
          buf = overwrite 0x00 (replicate 6 0xFF) buf;
          buf = overwrite 0x06 (replicate 6 0x00) buf;
          buf = overwrite 0x0C (to_be16 0x88B5) buf;
          buf = buf[0x0E := MAGIC_RESPONSE];
          buf = buf[0x0F := subtype];
          buf = overwrite 0x10 (to_be32 seq) buf;
          buf = overwrite 0x14 (to_be16 (of_nat (length payload))) buf;
          buf = overwrite 0x16 (to_be16 0) buf
      in overwrite 0x18 payload buf)"

definition mock_build_response :: "'d crc_engine \<Rightarrow> byte \<Rightarrow> u32 \<Rightarrow> bytes \<Rightarrow> bytes option" where
  "mock_build_response E subtype seq payload = set_checksum E (mock_unchecked subtype seq payload)"

definition mock_default_payload :: "byte \<Rightarrow> bytes" where
  "mock_default_payload subtype =
     (if subtype = 1 \<or> subtype = 3 then [subtype, 0x00]
      else if subtype = 2 then
        let p = 0x02 # replicate 63 0;
            p = p[5 := 0x05]
        in overwrite (1 + 0x08) (to_be32 40000) p
      else if subtype = 4 then 0x04 # replicate 28 0
      else if subtype = 5 then
        let p = 0x05 # pack_atm_link AtmLinkParams_default
        in overwrite (1 + 0x12) (to_be16 2001) p
      else if subtype = 6 \<or> subtype = 16 then [subtype, 0x00]
      else if subtype = 15 then 0x0F # pack_ptm_link 0 0 0 2001
      else [subtype])"

definition mock_payload :: "mock \<Rightarrow> byte \<Rightarrow> bytes" where
  "mock_payload m subtype =
     (case mk_overrides m subtype of Some p \<Rightarrow> p | None \<Rightarrow> mock_default_payload subtype)"

definition mock_send :: "mock \<Rightarrow> bytes \<Rightarrow> (io_error + unit) \<times> mock" where
  "mock_send m data = (Inr (), m\<lparr>mk_last_tx := data\<rparr>)"

definition mock_recv :: "'d crc_engine \<Rightarrow> mock \<Rightarrow> nat \<Rightarrow> (io_error + bytes) \<times> mock" where
  "mock_recv E m n =
     (if mk_never_respond m then (Inl WouldBlock, m)
      else if 0 < mk_fail_first m then (Inl WouldBlock, m\<lparr>mk_fail_first := mk_fail_first m - 1\<rparr>)
      else case frame_parse (mk_last_tx m) of
        None \<Rightarrow> (Inl WouldBlock, m)
      | Some req \<Rightarrow>
          (case mock_build_response E (frame_subtype req) (frame_seq req) (mock_payload m (frame_subtype req)) of
             None \<Rightarrow> (Inl WouldBlock, m)
           | Some resp \<Rightarrow> (Inr (take (min (length resp) n) resp), m)))"

definition mock_transport :: "'d crc_engine \<Rightarrow> mock transport" where
  "mock_transport E =
     \<lparr>tr_send = mock_send, tr_recv = mock_recv E, tr_local_mac = mk_mac, tr_set_timeout = (\<lambda>m ms. (Inr (), m))\<rparr>"

section \<open>The response\<close>

lemma mock_unchecked_fields:
  shows "length (mock_unchecked s q p) = 24 + length p" "mock_unchecked s q p ! 14 = 0x10"
    "mock_unchecked s q p ! 15 = s" "subslice 16 4 (mock_unchecked s q p) = to_be32 q"
    "subslice 20 2 (mock_unchecked s q p) = to_be16 (of_nat (length p))"
    "subslice 24 (length p) (mock_unchecked s q p) = p"
  by (simp_all add: mock_unchecked_def frame_consts Let_def wire_simps nth_overwrite)

lemma mock_checksum_set:
  obtains f where "mock_build_response E s q p = Some f" "length f = 24 + length p" "f ! 14 = 0x10" "f ! 15 = s"
    "be32_at f 16 = q" "be16_at f 20 = of_nat (length p)" "subslice 24 (length p) f = p"
    "verify_checksum E f = Some True"
proof -
  note fields = mock_unchecked_fields [where s = s and q = q and p = p]
  have "payload_len_of (mock_unchecked s q p) \<le> length p"
    using of_nat_le_self [of "length p"] by (simp add: payload_len_of_def be16_at_def fields codec_dec_enc)
  then obtain f where f: "mock_build_response E s q p = Some f"
    by (simp add: mock_build_response_def set_checksum_eq fields)
  then have set: "set_checksum E (mock_unchecked s q p) = Some f"
    by (simp add: mock_build_response_def)
  then obtain c where "f = overwrite 22 (to_be16 c) (mock_unchecked s q p)"
    by (auto simp: set_checksum_eq split: if_splits)
  then have "f ! 14 = 0x10" "f ! 15 = s"
    by (simp_all add: nth_overwrite_other fields)
  then show thesis
    using that [OF f] set_checksum_frame [OF set] verify_after_set [OF set] fields
    by (simp add: be32_at_def be16_at_def codec_dec_enc)
qed

lemma mock_answer:
  assumes "\<not> mk_never_respond m" and "mk_fail_first m = 0"
    and tx: "tx_frame E b s q pl = Some (mk_last_tx m)" and mac: "length (b_mac b) = 6"
  shows "\<exists>f. mock_build_response E s q (mock_payload m s) = Some f \<and>
    tr_recv (mock_transport E) m RX_BUF_SIZE = (Inr (take 212 f), m)"
proof -
  obtain crc pad where shape: "mk_last_tx m = command_header s q (b_mac b) (of_nat (length pl)) crc @ (pl @ pad)"
    and ok: "verify_checksum E (mk_last_tx m) = Some True"
    using tx_frame_shape [OF tx mac] by metis
  have "frame_parse (mk_last_tx m) = Some (mk_last_tx m)"
    by (rule verified_parses [OF ok])
  moreover have "frame_subtype (mk_last_tx m) = s" "frame_seq (mk_last_tx m) = q"
    using header_field_in_frame [OF mac shape] by (simp_all add: frame_accessors frame_consts offset_defs)
  moreover obtain f where "mock_build_response E s q (mock_payload m s) = Some f"
    by (rule mock_checksum_set)
  ultimately show ?thesis
    using assms(1,2) by (simp add: mock_transport_def mock_recv_def board_consts min_def)
qed

lemma mock_drain:
  assumes "\<not> mk_never_respond m" and "mk_fail_first m = 0"
    and "tx_frame E b s q pl = Some (mk_last_tx m)" and "length (b_mac b) = 6" and "length (mock_payload m s) < 65536"
  shows "drain (mock_transport E) E s q m =
    (if length (mock_payload m s) \<le> 188 then Some (Matched (mock_payload m s), m) else None)"
proof -
  let ?p = "mock_payload m s"
  obtain f where f: "mock_build_response E s q ?p = Some f"
    and recv: "tr_recv (mock_transport E) m RX_BUF_SIZE = (Inr (take 212 f), m)"
    using mock_answer [OF assms(1-4)] by blast
  then have fields: "length f = 24 + length ?p" "f ! 14 = 0x10" "f ! 15 = s" "be32_at f 16 = q"
      "be16_at f 20 = of_nat (length ?p)" "subslice 24 (length ?p) f = ?p" "verify_checksum E f = Some True"
    by (auto intro: mock_checksum_set [of E s q ?p])
  have n: "unat (of_nat (length ?p) :: u16) = length ?p"
    using assms(5) by (simp add: unsigned_of_nat take_bit_nat_eq_self)
  show ?thesis
  proof (cases "length ?p \<le> 188")
    case True
    then have "accepted E s q f" "frame_payload f = ?p"
      using fields n by (simp_all add: accepted_def frame_accessors frame_consts offset_defs board_consts)
    moreover have "take 212 f = f"
      using True fields(1) by simp
    ultimately show ?thesis
      using accepted_stops [of "mock_transport E" m f m E s q] recv True by simp
  next
    case False
    have "be16_at (take 212 f) 20 = be16_at f 20"
      using fields(1) False by (simp add: be16_at_def subslice_def drop_take min_def)
    then have "skipped s q (take 212 f)"
      using False fields n by (simp add: skipped_iff payload_len_of_def)
    then have "drain (mock_transport E) E s q m = None"
      using recv by (intro drain_busy [where P = "\<lambda>t. t = m"]) (auto simp: board_consts)
    then show ?thesis
      using False by simp
  qed
qed

section \<open>What a request to it returns\<close>

text \<open>So many receives of a request time out.\<close>

definition mock_silences :: "mock \<Rightarrow> nat \<Rightarrow> nat" where
  "mock_silences m n = min (unat (mk_fail_first m)) n"

definition mock_after :: "bytes \<Rightarrow> nat \<Rightarrow> mock \<Rightarrow> mock" where
  "mock_after tx n m =
     (if mk_never_respond m then m\<lparr>mk_last_tx := tx\<rparr>
      else m\<lparr>mk_last_tx := tx, mk_fail_first := mk_fail_first m - of_nat (mock_silences m n)\<rparr>)"

lemma mock_attempts:
  assumes "tx_frame E b s q pl = Some tx" and "length (b_mac b) = 6" and "length (mock_payload m s) < 65536" and "0 < n"
  shows "attempts (mock_transport E) E s q tx n m =
    (if mk_never_respond m \<or> n \<le> unat (mk_fail_first m) then Returns (Inl Timeout, mock_after tx n m)
     else if length (mock_payload m s) \<le> 188 then Returns (Inr (mock_payload m s), mock_after tx n m)
     else Diverges)"
  using assms(3,4)
proof (induction n arbitrary: m)
  case (Suc n)
  let ?T = "mock_transport E" and ?m = "m\<lparr>mk_last_tx := tx\<rparr>"
  have send: "tr_send ?T m tx = (Inr (), ?m)"
    by (simp add: mock_transport_def mock_send_def)
  have same: "mock_payload (m\<lparr>mk_last_tx := tx, mk_fail_first := k\<rparr>) s = mock_payload m s" "mock_payload ?m s = mock_payload m s" for k
    by (simp_all add: mock_payload_def)
  consider (never) "mk_never_respond m" | (silent) "\<not> mk_never_respond m" "0 < mk_fail_first m"
    | (answer) "\<not> mk_never_respond m" "mk_fail_first m = 0"
    by (auto simp: word_gt_0)
  then show ?case
  proof cases
    case never
    then have "drain ?T E s q ?m = Some (TimedOut, ?m)"
      by (intro drain_step) (simp add: stops_def mock_transport_def mock_recv_def)
    with never Suc same show ?thesis
      by (cases n) (simp_all add: send mock_after_def)
  next
    case silent
    let ?m1 = "?m\<lparr>mk_fail_first := mk_fail_first m - 1\<rparr>"
    have "drain ?T E s q ?m = Some (TimedOut, ?m1)"
      using silent by (intro drain_step) (simp add: stops_def mock_transport_def mock_recv_def)
    moreover have less: "unat (mk_fail_first m) = Suc (unat (mk_fail_first m - 1))"
      using silent(2) by (metis Suc_pred' unat_gt_0 unat_minus_one word_gt_0)
    ultimately show ?thesis
      using silent Suc same
      by (cases n) (auto simp: send mock_after_def mock_silences_def)
  next
    case answer
    then have "drain ?T E s q ?m =
        (if length (mock_payload m s) \<le> 188 then Some (Matched (mock_payload m s), ?m) else None)"
      using mock_drain [of ?m E b s q pl] assms(1,2) Suc.prems same by simp
    with answer same show ?thesis
      by (simp add: send mock_after_def mock_silences_def)
  qed
qed simp

lemma mock_request_cases:
  assumes "length (b_mac b) = 6" and "length pl \<le> 188" and "length (mock_payload (b_sock b) s) < 65536"
  shows "\<exists>tx. tx_frame E b s (b_seq b + 1) pl = Some tx \<and>
    request (mock_transport E) E b s pl =
      (let payload = mock_payload (b_sock b) s;
           n = Suc (unat (b_retries b));
           b' = b\<lparr>b_seq := b_seq b + 1, b_sock := mock_after tx n (b_sock b)\<rparr> in
       if mk_never_respond (b_sock b) \<or> n \<le> unat (mk_fail_first (b_sock b)) then Returns (Inl Timeout, b')
       else if length payload \<le> 188 then Returns (Inr payload, b')
       else Diverges)"
proof -
  obtain tx where tx: "tx_frame E b s (b_seq b + 1) pl = Some tx"
    using tx_frame_panics [OF assms(1), of E s "b_seq b + 1" pl] assms(2) by fastforce
  then have seq: "tx_frame E (b\<lparr>b_seq := b_seq b + 1\<rparr>) s (b_seq b + 1) pl = Some tx"
    by (simp add: tx_frame_seq)
  have "attempts (mock_transport E) E s (b_seq b + 1) tx (Suc (unat (b_retries b))) (b_sock b) =
      (if mk_never_respond (b_sock b) \<or> Suc (unat (b_retries b)) \<le> unat (mk_fail_first (b_sock b))
       then Returns (Inl Timeout, mock_after tx (Suc (unat (b_retries b))) (b_sock b))
       else if length (mock_payload (b_sock b) s) \<le> 188
       then Returns (Inr (mock_payload (b_sock b) s), mock_after tx (Suc (unat (b_retries b))) (b_sock b))
       else Diverges)"
    by (rule mock_attempts [OF tx assms(1,3)]) simp
  then show ?thesis
    using tx unfolding request_eq [OF seq] by (simp add: Let_def del: attempts.simps)
qed

text \<open>C14. The board of the tests answers a request of every opcode as its table says, whatever the CRC: the request
  returns the payload laid out for the opcode, after as many attempts as were set to fail; it times out if these use up
  the retries or the board never responds; and a reply longer than the receive buffer is cut, passed
  over and built again for ever, so that the request never returns.  The frame sent last and the failures still to come are all
  that changes in it.\<close>

theorem mock_request:
  assumes "length (b_mac b) = 6" and "length pl \<le> 188" and "length (mock_payload (b_sock b) s) < 65536"
  shows "\<exists>tx. tx_frame E b s (b_seq b + 1) pl = Some tx \<and>
    request (mock_transport E) E b s pl =
      (let payload = mock_payload (b_sock b) s;
           n = Suc (unat (b_retries b));
           b' = b\<lparr>b_seq := b_seq b + 1, b_sock := mock_after tx n (b_sock b)\<rparr> in
       if mk_never_respond (b_sock b) \<or> n \<le> unat (mk_fail_first (b_sock b)) then Returns (Inl Timeout, b')
       else if length payload \<le> 188 then Returns (Inr payload, b')
       else Diverges)"
  using assms by (rule mock_request_cases)

lemma mock_request_witness:
  "(\<exists>b'. request (mock_transport arc_engine) arc_engine (Board_new (mock_transport arc_engine) (MockTransport_new\<lparr>mk_fail_first := 3\<rparr>)) 3 [3]
      = Returns (Inr [3, 0], b')) \<and>
   (\<exists>b'. request (mock_transport arc_engine) arc_engine (Board_new (mock_transport arc_engine) (MockTransport_new\<lparr>mk_fail_first := 4\<rparr>)) 3 [3]
      = Returns (Inl Timeout, b')) \<and>
   request (mock_transport arc_engine) arc_engine
     (Board_new (mock_transport arc_engine) (mock_set_response 3 (replicate 189 0) MockTransport_new)) 3 [3] = Diverges"
  using mock_request [of "Board_new (mock_transport arc_engine) (MockTransport_new\<lparr>mk_fail_first := 3\<rparr>)" "[3]" 3 arc_engine]
    mock_request [of "Board_new (mock_transport arc_engine) (MockTransport_new\<lparr>mk_fail_first := 4\<rparr>)" "[3]" 3 arc_engine]
    mock_request [of "Board_new (mock_transport arc_engine) (mock_set_response 3 (replicate 189 0) MockTransport_new)" "[3]" 3 arc_engine]
  by (simp add: Board_new_def mock_transport_def MockTransport_new_def mock_payload_def mock_default_payload_def
      mock_set_response_def board_consts Let_def) blast

section \<open>The tests\<close>

text \<open>The result of a call, \<open>unwrap\<close> followed by assertions, and \<open>is_ok\<close>.\<close>

definition result_of :: "('a, 't) board_result \<Rightarrow> (board_error + 'a) option" where
  "result_of m = (case m of Returns (r, b) \<Rightarrow> Some r | _ \<Rightarrow> None)"

definition unwrapped :: "('a \<Rightarrow> bool) \<Rightarrow> (board_error + 'a) option \<Rightarrow> bool" where
  "unwrapped P r = (case r of Some (Inr v) \<Rightarrow> P v | _ \<Rightarrow> False)"

abbreviation is_ok :: "(board_error + 'a) option \<Rightarrow> bool" where
  "is_ok \<equiv> unwrapped (\<lambda>_. True)"

lemma mock_answered:
  assumes "length (b_mac b) = 6" and "length pl \<le> 188" and "\<not> mk_never_respond (b_sock b)"
    and "unat (mk_fail_first (b_sock b)) \<le> unat (b_retries b)" and "length (mock_payload (b_sock b) s) \<le> 188"
  shows "\<exists>tx. tx_frame E b s (b_seq b + 1) pl = Some tx \<and>
    request (mock_transport E) E b s pl = Returns (Inr (mock_payload (b_sock b) s),
      b\<lparr>b_seq := b_seq b + 1, b_sock := mock_after tx (Suc (unat (b_retries b))) (b_sock b)\<rparr>)"
  using mock_request_cases [OF assms(1,2), of s E] assms(3-5) by (simp add: Let_def not_le)

lemma mock_reply:
  assumes "length (b_mac b) = 6" and "length pl \<le> 188" and "\<not> mk_never_respond (b_sock b)"
    and "unat (mk_fail_first (b_sock b)) \<le> unat (b_retries b)" and "length (mock_payload (b_sock b) s) \<le> 188"
  obtains tx where "tx_frame E b s (b_seq b + 1) pl = Some tx"
    and "then_reply (request (mock_transport E) E b s pl) f = Returns (f (mock_payload (b_sock b) s),
      b\<lparr>b_seq := b_seq b + 1, b_sock := mock_after tx (Suc (unat (b_retries b))) (b_sock b)\<rparr>)"
proof -
  obtain tx where "tx_frame E b s (b_seq b + 1) pl = Some tx"
    and "request (mock_transport E) E b s pl = Returns (Inr (mock_payload (b_sock b) s),
      b\<lparr>b_seq := b_seq b + 1, b_sock := mock_after tx (Suc (unat (b_retries b))) (b_sock b)\<rparr>)"
    using mock_answered [OF assms] by blast
  then show thesis
    by (intro that) (simp_all add: then_reply_def)
qed

definition make_board :: "'d crc_engine \<Rightarrow> mock board" where
  "make_board E = board_set_retries 2 (Board_new (mock_transport E) MockTransport_new)"

definition on_sock :: "(mock \<Rightarrow> mock) \<Rightarrow> mock board \<Rightarrow> mock board" where
  "on_sock f b = b\<lparr>b_sock := f (b_sock b)\<rparr>"

subsection \<open>One round of every opcode\<close>

definition line_config_up_roundtrip :: "'d crc_engine \<Rightarrow> bool" where
  "line_config_up_roundtrip E \<longleftrightarrow>
     is_ok (result_of (line_config_up (mock_transport E) E Vdsl2 Annex_B THIRTY_A True True (make_board E)))"

definition line_config_down_roundtrip :: "'d crc_engine \<Rightarrow> bool" where
  "line_config_down_roundtrip E \<longleftrightarrow> is_ok (result_of (line_config_down (mock_transport E) E (make_board E)))"

definition get_line_obj_roundtrip :: "'d crc_engine \<Rightarrow> bool" where
  "get_line_obj_roundtrip E \<longleftrightarrow>
     unwrapped (\<lambda>obj. lo_link_status obj = Up \<and> down_rate (lo_metrics obj) = 40000)
       (result_of (get_line_obj (mock_transport E) E (make_board E)))"

definition atm_link_add_returns_vlan :: "'d crc_engine \<Rightarrow> bool" where
  "atm_link_add_returns_vlan E \<longleftrightarrow>
     unwrapped (\<lambda>vlan. vlan = 2001) (result_of (atm_link_add (mock_transport E) E AtmLinkParams_default (make_board E)))"

definition atm_link_del_roundtrip :: "'d crc_engine \<Rightarrow> bool" where
  "atm_link_del_roundtrip E \<longleftrightarrow> is_ok (result_of (atm_link_del (mock_transport E) E 2001 (make_board E)))"

definition ptm_link_add_returns_vlan :: "'d crc_engine \<Rightarrow> bool" where
  "ptm_link_add_returns_vlan E \<longleftrightarrow>
     unwrapped (\<lambda>vlan. vlan = 2001) (result_of (ptm_link_add (mock_transport E) E 0 0 0 2001 (make_board E)))"

definition ptm_link_del_roundtrip :: "'d crc_engine \<Rightarrow> bool" where
  "ptm_link_del_roundtrip E \<longleftrightarrow> is_ok (result_of (ptm_link_del (mock_transport E) E 2001 (make_board E)))"

definition line_status_helper :: "'d crc_engine \<Rightarrow> bool" where
  "line_status_helper E \<longleftrightarrow>
     unwrapped (\<lambda>status. status = Up) (result_of (line_status (mock_transport E) E (make_board E)))"

subsection \<open>Timeouts, retransmission, sequence numbers\<close>

definition timeout_when_no_board :: "'d crc_engine \<Rightarrow> bool" where
  "timeout_when_no_board E \<longleftrightarrow>
     result_of (get_line_obj (mock_transport E) E (on_sock (mk_never_respond_update (\<lambda>_. True)) (make_board E)))
       = Some (Inl Timeout)"

definition retransmit_then_success :: "'d crc_engine \<Rightarrow> bool" where
  "retransmit_then_success E \<longleftrightarrow>
     is_ok (result_of (get_line_obj (mock_transport E) E (on_sock (mk_fail_first_update (\<lambda>_. 1)) (make_board E))))"

text \<open>The assertions on the frame sent last, after a call that must succeed.\<close>

definition after_ok :: "('a, mock) board_result \<Rightarrow> (mock board \<Rightarrow> frame \<Rightarrow> bool) \<Rightarrow> bool" where
  "after_ok m P =
     (case m of
        Returns (Inr _, b) \<Rightarrow> (case frame_parse (mk_last_tx (b_sock b)) of Some f \<Rightarrow> P b f | None \<Rightarrow> False)
      | _ \<Rightarrow> False)"

definition seq_increments :: "'d crc_engine \<Rightarrow> bool" where
  "seq_increments E \<longleftrightarrow>
     after_ok (get_line_obj (mock_transport E) E (make_board E)) (\<lambda>b f. frame_seq f = 1 \<and>
       after_ok (get_line_obj (mock_transport E) E b) (\<lambda>b f. frame_seq f = 2))"

definition tx_frame_is_command_magic :: "'d crc_engine \<Rightarrow> bool" where
  "tx_frame_is_command_magic E \<longleftrightarrow>
     after_ok (get_line_obj (mock_transport E) E (make_board E))
       (\<lambda>b f. frame_magic f = MAGIC_COMMAND \<and> frame_subtype f = 2)"

subsection \<open>Responses set by the test\<close>

definition with_response :: "'d crc_engine \<Rightarrow> byte \<Rightarrow> bytes \<Rightarrow> mock board" where
  "with_response E subtype payload = on_sock (mock_set_response subtype payload) (make_board E)"

definition custom_response_override :: "'d crc_engine \<Rightarrow> bool" where
  "custom_response_override E \<longleftrightarrow>
     (let payload = (0x02 # replicate 63 0)[5 := 0x00]
      in unwrapped (\<lambda>obj. lo_link_status obj = NoSignal)
           (result_of (get_line_obj (mock_transport E) E (with_response E 2 payload))))"

definition bad_checksum_rejected :: "'d crc_engine \<Rightarrow> bool" where
  "bad_checksum_rejected E \<longleftrightarrow>
     (let payload = (0x02 # replicate 63 0)[5 := 0x05]
      in is_ok (result_of (get_line_obj (mock_transport E) E (with_response E 2 payload))))"

definition op4_response_without_echo :: "'d crc_engine \<Rightarrow> bool" where
  "op4_response_without_echo E \<longleftrightarrow>
     unwrapped (\<lambda>stats. receive_blocks stats = 0)
       (result_of (get_channel_stats (mock_transport E) E (with_response E 4 (replicate 28 0))))"

definition op5_short_response_returns_requested_vlan :: "'d crc_engine \<Rightarrow> bool" where
  "op5_short_response_returns_requested_vlan E \<longleftrightarrow>
     unwrapped (\<lambda>vlan. vlan = 0)
       (result_of (atm_link_add (mock_transport E) E AtmLinkParams_default (with_response E 5 [0, 0, 0, 0])))"

definition op5_short_response_with_nonzero_vlan :: "'d crc_engine \<Rightarrow> bool" where
  "op5_short_response_with_nonzero_vlan E \<longleftrightarrow>
     unwrapped (\<lambda>vlan. vlan = 2001)
       (result_of (atm_link_add (mock_transport E) E (AtmLinkParams_default\<lparr>alp_vlan_id := 2001\<rparr>)
          (with_response E 5 [0, 0, 0, 0])))"

definition op15_short_response_returns_requested_vlan :: "'d crc_engine \<Rightarrow> bool" where
  "op15_short_response_returns_requested_vlan E \<longleftrightarrow>
     unwrapped (\<lambda>vlan. vlan = 2001)
       (result_of (ptm_link_add (mock_transport E) E 0 0 0 2001 (with_response E 15 [0, 0, 0, 0])))"

definition op1_ack_without_echo :: "'d crc_engine \<Rightarrow> bool" where
  "op1_ack_without_echo E \<longleftrightarrow>
     is_ok (result_of (line_config_up (mock_transport E) E Vdsl2 Annex_B THIRTY_A True True (with_response E 1 [0])))"

definition strip_echo_logic :: bool where
  "strip_echo_logic \<longleftrightarrow>
     strip_echo [0x04, 0xAA] 0x04 = [0xAA] \<and> strip_echo [0x00, 0xAA] 0x04 = [0x00, 0xAA] \<and> strip_echo [] 0x04 = []"

subsection \<open>The verdicts\<close>

lemma make_board_fields [simp]:
  "length (b_mac (make_board E)) = 6" "b_retries (make_board E) = 2" "b_seq (make_board E) = 0"
  "b_sock (make_board E) = MockTransport_new"
  by (simp_all add: make_board_def board_set_retries_def Board_new_def mock_transport_def MockTransport_new_def
      SeqCounter_new_def)

lemma on_sock_fields [simp]:
  "b_mac (on_sock f b) = b_mac b" "b_retries (on_sock f b) = b_retries b" "b_seq (on_sock f b) = b_seq b"
  "b_sock (on_sock f b) = f (b_sock b)"
  by (simp_all add: on_sock_def)

lemma mock_fields [simp]:
  "\<not> mk_never_respond MockTransport_new" "mk_fail_first MockTransport_new = 0" "mk_overrides MockTransport_new = Map.empty"
  "mk_never_respond (mock_set_response s p m) = mk_never_respond m" "mk_fail_first (mock_set_response s p m) = mk_fail_first m"
  "mk_overrides (mock_set_response s p m) = (mk_overrides m)(s \<mapsto> p)"
  by (simp_all add: MockTransport_new_def mock_set_response_def)

lemma mock_result:
  assumes "length (b_mac b) = 6" and "length pl \<le> 188" and "\<not> mk_never_respond (b_sock b)"
    and "unat (mk_fail_first (b_sock b)) \<le> unat (b_retries b)" and "length (mock_payload (b_sock b) s) \<le> 188"
  shows "result_of (then_reply (request (mock_transport E) E b s pl) f) = Some (f (mock_payload (b_sock b) s))"
  by (rule mock_reply [OF assms, of E f]) (simp add: result_of_def)

lemma default_payload_room: "length (mock_default_payload s) \<le> 188"
  by (simp add: mock_default_payload_def pack_atm_link_faithful [THEN conjunct1] pack_link_faithful [THEN conjunct1]
      overwrite_def Let_def)

lemma answered_tests:
  "line_config_up_roundtrip E" "line_config_down_roundtrip E" "atm_link_del_roundtrip E" "ptm_link_del_roundtrip E"
  "op1_ack_without_echo E"
  by (simp_all add: line_config_up_roundtrip_def line_config_down_roundtrip_def atm_link_del_roundtrip_def
      ptm_link_del_roundtrip_def op1_ack_without_echo_def with_response_def
      line_config_up_def line_config_down_def atm_link_del_def ptm_link_del_def Let_def
      mock_result mock_payload_def mock_default_payload_def pack_dsl_line_faithful [THEN conjunct1] pack_link_del_def
      strip_echo_def status_zero_def unwrapped_def overwrite_def)

lemmas mock_round = Let_def mock_result mock_payload_def with_response_def unwrapped_def strip_echo_def

lemma vlan_tests:
  "atm_link_add_returns_vlan E" "ptm_link_add_returns_vlan E" "op5_short_response_returns_requested_vlan E"
  "op5_short_response_with_nonzero_vlan E" "op15_short_response_returns_requested_vlan E"
proof -
  have room: "length (pack_atm_link p) = 24" "length (pack_ptm_link x y z v) = 8" for p x y z v
    using pack_atm_link_faithful [of p] pack_link_faithful [of x y z v] by blast+
  have answer: "mock_default_payload 5 = 5 # overwrite 0x12 (to_be16 2001) (pack_atm_link AtmLinkParams_default)"
    "mock_default_payload 15 = 15 # pack_ptm_link 0 0 0 2001"
    by (simp_all add: mock_default_payload_def overwrite_Cons Let_def)
  have vlan: "from_be16 [overwrite 0x12 (to_be16 2001) (pack_atm_link AtmLinkParams_default) ! 0x12,
      overwrite 0x12 (to_be16 2001) (pack_atm_link AtmLinkParams_default) ! 0x13] = 2001"
    "from_be16 [pack_ptm_link 0 0 0 2001 ! 6, pack_ptm_link 0 0 0 2001 ! 7] = 2001"
    by code_simp+
  show "atm_link_add_returns_vlan E" "ptm_link_add_returns_vlan E"
    by (simp_all add: atm_link_add_returns_vlan_def ptm_link_add_returns_vlan_def atm_link_add_def ptm_link_add_def
        mock_round answer room length_overwrite vlan)
  show "op5_short_response_returns_requested_vlan E" "op5_short_response_with_nonzero_vlan E"
      "op15_short_response_returns_requested_vlan E"
    by (simp_all add: op5_short_response_returns_requested_vlan_def op5_short_response_with_nonzero_vlan_def
        op15_short_response_returns_requested_vlan_def atm_link_add_def ptm_link_add_def mock_round room
        AtmLinkParams_default_def)
qed

text \<open>The line objects the mock sends; the status byte of the default, 5, is none that the decoder knows.\<close>

lemma default_line_obj:
  obtains l where "parse_line_obj (strip_echo (mock_default_payload 2) 2) = Inr l" "lo_link_status l = LinkUnknown 5"
    "\<not> length (strip_echo (mock_default_payload 2) 2) < 63"
proof -
  have "case parse_line_obj (strip_echo (mock_default_payload 2) 2) of
      Inl _ \<Rightarrow> False | Inr l \<Rightarrow> lo_link_status l = LinkUnknown 5"
    "\<not> length (strip_echo (mock_default_payload 2) 2) < 63"
    by code_simp+
  then show thesis
    using that by (auto split: sum.splits)
qed

lemma set_line_obj:
  obtains l where "parse_line_obj (strip_echo ((2 # replicate 63 0)[5 := st]) 2) = Inr l"
    "lo_link_status l = LinkStatus_from_code st"
    "\<not> length (strip_echo ((2 # replicate 63 0)[5 := st]) 2) < 63"
  by (simp add: strip_echo_def parse_line_obj_def numeral_nat)

lemma line_obj_result:
  assumes "length (b_mac b) = 6" and "\<not> mk_never_respond (b_sock b)" and "unat (mk_fail_first (b_sock b)) \<le> unat (b_retries b)"
    and "length (mock_payload (b_sock b) 2) \<le> 188" and "parse_line_obj (strip_echo (mock_payload (b_sock b) 2) 2) = Inr l"
    and "\<not> length (strip_echo (mock_payload (b_sock b) 2) 2) < 63"
  obtains tx where "tx_frame E b 2 (b_seq b + 1) [2] = Some tx"
    and "get_line_obj (mock_transport E) E b = Returns (Inr l,
      b\<lparr>b_seq := b_seq b + 1, b_sock := mock_after tx (Suc (unat (b_retries b))) (b_sock b)\<rparr>)"
  using mock_reply [OF assms(1) _ assms(2-4), of "[2]" E
      "\<lambda>r. let data = strip_echo r 0x02 in
            if length data < 63 then Inl (BadResponse ''line obj reply too short'')
            else case parse_line_obj data of Inl m \<Rightarrow> Inl (BadResponse m) | Inr l \<Rightarrow> Inr l"] assms(5,6)
  unfolding get_line_obj_def by (auto simp: Let_def)

lemma default_line_result:
  assumes "b_sock b = MockTransport_new\<lparr>mk_fail_first := k, mk_last_tx := t\<rparr>" and "unat k \<le> unat (b_retries b)"
    and "length (b_mac b) = 6"
  obtains tx l where "tx_frame E b 2 (b_seq b + 1) [2] = Some tx" and "lo_link_status l = LinkUnknown 5"
    and "get_line_obj (mock_transport E) E b = Returns (Inr l,
      b\<lparr>b_seq := b_seq b + 1, b_sock := mock_after tx (Suc (unat (b_retries b))) (b_sock b)\<rparr>)"
proof -
  have "mock_payload (b_sock b) 2 = mock_default_payload 2"
    using assms(1) by (simp add: mock_payload_def MockTransport_new_def)
  moreover obtain l where "parse_line_obj (strip_echo (mock_default_payload 2) 2) = Inr l" "lo_link_status l = LinkUnknown 5"
      "\<not> length (strip_echo (mock_default_payload 2) 2) < 63"
    by (rule default_line_obj)
  ultimately show thesis
    using line_obj_result [of b l E] that assms default_payload_room [of 2] by (auto simp: MockTransport_new_def)
qed

lemma start_sock:
  "MockTransport_new = MockTransport_new\<lparr>mk_fail_first := 0, mk_last_tx := []\<rparr>"
  by (simp add: MockTransport_new_def)

lemma after_start:
  "mock_after tx n (MockTransport_new\<lparr>mk_fail_first := 0, mk_last_tx := t\<rparr>) =
     MockTransport_new\<lparr>mk_fail_first := 0, mk_last_tx := tx\<rparr>"
  by (simp add: mock_after_def mock_silences_def)

text \<open>The two that fail in the model: both expect the status byte 5 to mean that the line is up.\<close>

lemma failing_tests: "\<not> get_line_obj_roundtrip E" "\<not> line_status_helper E"
proof -
  obtain tx l where r: "lo_link_status l = LinkUnknown 5"
    "get_line_obj (mock_transport E) E (make_board E) = Returns (Inr l, (make_board E)\<lparr>b_seq := b_seq (make_board E) + 1,
       b_sock := mock_after tx (Suc (unat (b_retries (make_board E)))) (b_sock (make_board E))\<rparr>)"
    by (rule default_line_result [where b = "make_board E" and k = 0 and t = "[]"]) (simp_all flip: start_sock)
  then show "\<not> get_line_obj_roundtrip E" "\<not> line_status_helper E"
    by (simp_all add: get_line_obj_roundtrip_def line_status_helper_def line_status_def result_of_def unwrapped_def)
qed

lemma retransmission_tests: "timeout_when_no_board E" "retransmit_then_success E"
proof -
  let ?b = "on_sock (mk_never_respond_update (\<lambda>_. True)) (make_board E)"
  obtain b' where "request (mock_transport E) E ?b 2 [2] = Returns (Inl Timeout, b')"
    using mock_request_cases [of ?b "[2]" 2 E] default_payload_room [of 2]
    by (auto simp: Let_def mock_payload_def)
  then show "timeout_when_no_board E"
    by (simp add: timeout_when_no_board_def get_line_obj_def then_reply_def result_of_def)
  let ?c = "on_sock (mk_fail_first_update (\<lambda>_. 1)) (make_board E)"
  have "b_sock ?c = MockTransport_new\<lparr>mk_fail_first := 1, mk_last_tx := []\<rparr>"
    by (simp add: MockTransport_new_def)
  then obtain l b' where "get_line_obj (mock_transport E) E ?c = Returns (Inr l, b')"
    by (rule default_line_result) simp_all
  then show "retransmit_then_success E"
    by (simp add: retransmit_then_success_def result_of_def unwrapped_def)
qed

lemma tx_frame_seen:
  assumes "tx_frame E b s q pl = Some tx" and "length (b_mac b) = 6"
  shows "frame_parse tx = Some tx" "frame_seq tx = q" "frame_magic tx = MAGIC_COMMAND" "frame_subtype tx = s"
proof -
  obtain crc pad where shape: "tx = command_header s q (b_mac b) (of_nat (length pl)) crc @ (pl @ pad)"
    and ok: "verify_checksum E tx = Some True"
    using tx_frame_shape [OF assms] by metis
  show "frame_parse tx = Some tx" "frame_seq tx = q" "frame_magic tx = MAGIC_COMMAND" "frame_subtype tx = s"
    using verified_parses [OF ok] header_field_in_frame [OF assms(2) shape]
    by (simp_all add: frame_accessors frame_consts offset_defs)
qed

lemma sent_frame_tests: "seq_increments E" "tx_frame_is_command_magic E"
proof -
  let ?b = "make_board E"
  obtain tx l where tx: "tx_frame E ?b 2 (b_seq ?b + 1) [2] = Some tx"
    and r: "get_line_obj (mock_transport E) E ?b = Returns (Inr l, ?b\<lparr>b_seq := b_seq ?b + 1,
       b_sock := mock_after tx (Suc (unat (b_retries ?b))) (b_sock ?b)\<rparr>)"
    by (rule default_line_result [where b = ?b and k = 0 and t = "[]"]) (simp_all flip: start_sock)
  define b1 where "b1 = ?b\<lparr>b_seq := b_seq ?b + 1, b_sock := mock_after tx (Suc (unat (b_retries ?b))) (b_sock ?b)\<rparr>"
  have sock: "b_sock b1 = MockTransport_new\<lparr>mk_fail_first := 0, mk_last_tx := tx\<rparr>"
    using after_start [of tx _ "[]"] start_sock by (simp add: b1_def)
  have b1: "b_seq b1 = 1" "length (b_mac b1) = 6"
    by (simp_all add: b1_def)
  obtain tx2 l2 where tx2: "tx_frame E b1 2 (b_seq b1 + 1) [2] = Some tx2"
    and r2: "get_line_obj (mock_transport E) E b1 = Returns (Inr l2, b1\<lparr>b_seq := b_seq b1 + 1,
       b_sock := mock_after tx2 (Suc (unat (b_retries b1))) (b_sock b1)\<rparr>)"
    by (rule default_line_result [OF sock _ b1(2)]) simp_all
  have last: "mk_last_tx (mock_after tx2 n (b_sock b1)) = tx2" for n
    by (simp add: mock_after_def)
  have first: "after_ok (get_line_obj (mock_transport E) E ?b) P \<longleftrightarrow> P b1 tx" for P
    using tx_frame_seen [OF tx] sock by (simp add: after_ok_def r b1_def)
  have second: "after_ok (get_line_obj (mock_transport E) E b1) (\<lambda>b f. Q f) \<longleftrightarrow> Q tx2" for Q
    using tx_frame_seen [OF tx2 b1(2)] last by (simp add: after_ok_def r2)
  show "seq_increments E" "tx_frame_is_command_magic E"
    using tx_frame_seen [OF tx] tx_frame_seen [OF tx2 b1(2)]
    by (simp_all add: seq_increments_def tx_frame_is_command_magic_def first second b1(1))
qed

lemma response_tests:
  "custom_response_override E" "bad_checksum_rejected E" "op4_response_without_echo E" strip_echo_logic
proof -
  have set: "\<exists>l. result_of (get_line_obj (mock_transport E) E (with_response E 2 ((2 # replicate 63 0)[5 := st]))) = Some (Inr l) \<and>
      lo_link_status l = LinkStatus_from_code st" for st
  proof -
    let ?b = "with_response E 2 ((2 # replicate 63 0)[5 := st])"
    obtain l where l: "parse_line_obj (strip_echo ((2 # replicate 63 0)[5 := st]) 2) = Inr l"
      "lo_link_status l = LinkStatus_from_code st" "\<not> length (strip_echo ((2 # replicate 63 0)[5 := st]) 2) < 63"
      by (rule set_line_obj)
    have "mock_payload (b_sock ?b) 2 = (2 # replicate 63 0)[5 := st]"
      by (simp add: with_response_def mock_payload_def)
    then obtain b' where "get_line_obj (mock_transport E) E ?b = Returns (Inr l, b')"
      using line_obj_result [of ?b l E] l by (auto simp: with_response_def)
    with l(2) show ?thesis
      by (simp add: result_of_def)
  qed
  show "custom_response_override E" "bad_checksum_rejected E"
    using set [of 0] set [of 5]
    by (auto simp: custom_response_override_def bad_checksum_rejected_def unwrapped_def LinkStatus_from_code_def Let_def)
  show "op4_response_without_echo E"
    by (simp add: op4_response_without_echo_def get_channel_stats_def mock_round parse_channel_stats_def)
      (code_simp)
  show strip_echo_logic
    by (simp add: strip_echo_logic_def strip_echo_def)
qed

definition board_tests :: "'d crc_engine \<Rightarrow> (string \<times> bool) list" where
  "board_tests E =
     [(''line_config_up_roundtrip'', line_config_up_roundtrip E),
      (''line_config_down_roundtrip'', line_config_down_roundtrip E),
      (''get_line_obj_roundtrip'', get_line_obj_roundtrip E),
      (''atm_link_add_returns_vlan'', atm_link_add_returns_vlan E),
      (''atm_link_del_roundtrip'', atm_link_del_roundtrip E),
      (''ptm_link_add_returns_vlan'', ptm_link_add_returns_vlan E),
      (''ptm_link_del_roundtrip'', ptm_link_del_roundtrip E),
      (''line_status_helper'', line_status_helper E),
      (''timeout_when_no_board'', timeout_when_no_board E),
      (''retransmit_then_success'', retransmit_then_success E),
      (''seq_increments'', seq_increments E),
      (''tx_frame_is_command_magic'', tx_frame_is_command_magic E),
      (''custom_response_override'', custom_response_override E),
      (''bad_checksum_rejected'', bad_checksum_rejected E),
      (''op4_response_without_echo'', op4_response_without_echo E),
      (''op5_short_response_returns_requested_vlan'', op5_short_response_returns_requested_vlan E),
      (''op5_short_response_with_nonzero_vlan'', op5_short_response_with_nonzero_vlan E),
      (''op15_short_response_returns_requested_vlan'', op15_short_response_returns_requested_vlan E),
      (''op1_ack_without_echo'', op1_ack_without_echo E),
      (''strip_echo_logic'', strip_echo_logic)]"

lemma board_tests_verdict: "failing (board_tests E) = [''get_line_obj_roundtrip'', ''line_status_helper'']"
  by (simp add: failing_def board_tests_def answered_tests vlan_tests failing_tests retransmission_tests sent_frame_tests
      response_tests)

end
