(* ===== verification/ProtoTests.thy ===== *)
theory ProtoTests
  imports Pack Unpack Validate Firmware Frame
begin

text \<open>
  The unit tests of \<open>rbctl_proto\<close>: each test function is a definition with its assertions, run with the
  bitwise CRC-16/ARC, and the verdict on all of them is a lemma.  A macro \<open>unwrap\<close> that would panic is a failed
  assertion.
\<close>

definition passes_with :: "('a \<Rightarrow> bool) \<Rightarrow> 'a option \<Rightarrow> bool" where
  "passes_with P r = (case r of Some v \<Rightarrow> P v | None \<Rightarrow> False)"

definition ok_with :: "('a \<Rightarrow> bool) \<Rightarrow> ('e + 'a) \<Rightarrow> bool" where
  "ok_with P r = (case r of Inr v \<Rightarrow> P v | Inl _ \<Rightarrow> False)"

definition err_with :: "('e \<Rightarrow> bool) \<Rightarrow> ('e + 'a) \<Rightarrow> bool" where
  "err_with P r = (case r of Inl e \<Rightarrow> P e | Inr _ \<Rightarrow> False)"

lemmas test_outcomes = passes_with_def ok_with_def err_with_def

section \<open>\<open>checksum.rs\<close>\<close>

definition build_sample_frame :: bytes where
  "build_sample_frame =
     (let f = replicate 25 0;
          f = overwrite 0x00 (replicate 6 0xFF) f;
          f = overwrite 0x06 [0x00, 0x11, 0x22, 0x33, 0x44, 0x55] f;
          f = overwrite 0x0C (to_be16 0x88B5) f;
          f = f[0x0E := 0x11];
          f = f[0x0F := 0x03];
          f = overwrite 0x10 (to_be32 1) f;
          f = overwrite 0x14 (to_be16 1) f;
          f = overwrite 0x16 (to_be16 0) f
      in f[0x18 := 0x00])"

definition known_vector_e2a4 :: bool where
  "known_vector_e2a4 \<longleftrightarrow>
     passes_with (\<lambda>f. from_be16 [f ! OFF_CHECKSUM, f ! (OFF_CHECKSUM + 1)] = 0x1EA0)
       (set_checksum arc_engine build_sample_frame)"

definition round_trip_set_verify :: bool where
  "round_trip_set_verify \<longleftrightarrow>
     passes_with (\<lambda>f. verify_checksum arc_engine f = Some True) (set_checksum arc_engine build_sample_frame)"

definition corruption_detected :: bool where
  "corruption_detected \<longleftrightarrow>
     passes_with (\<lambda>f. verify_checksum arc_engine (f[OFF_MAGIC + 2 := xor (f ! (OFF_MAGIC + 2)) 0x01]) = Some False)
       (set_checksum arc_engine build_sample_frame)"

definition uncovered_byte_ignored :: bool where
  "uncovered_byte_ignored \<longleftrightarrow>
     passes_with (\<lambda>f. verify_checksum arc_engine (f[0 := xor (f ! 0) 0x01]) = Some True)
       (set_checksum arc_engine build_sample_frame)"

lemma sample_frame_bytes:
  "build_sample_frame = [0xFF, 0xFF, 0xFF, 0xFF, 0xFF, 0xFF, 0x00, 0x11, 0x22, 0x33, 0x44, 0x55, 0x88, 0xB5, 0x11, 0x03, 0, 0, 0, 1, 0, 1, 0, 0, 0]"
  by code_simp

lemma sample_frame_set:
  "set_checksum arc_engine build_sample_frame = Some (build_sample_frame[22 := 0x1E, 23 := 0xA0])"
proof -
  have "digest_in_parts arc_engine build_sample_frame = 0x1EA0" "24 + payload_len_of build_sample_frame \<le> length build_sample_frame"
    by (simp_all add: sample_frame_bytes digest_in_parts_def arc_engine_eval nibble_byte_def
        CRC16_ARC_NIBBLE_TABLE_def payload_len_of_def be16_at_def from_be16_def subslice_def)
  moreover have "overwrite 22 (to_be16 0x1EA0) build_sample_frame = build_sample_frame[22 := 0x1E, 23 := 0xA0]"
    by code_simp
  moreover have "length build_sample_frame = 25"
    by (simp add: sample_frame_bytes)
  ultimately show ?thesis
    by (simp add: set_checksum_eq)
qed

lemma checksum_tests: known_vector_e2a4 round_trip_set_verify corruption_detected uncovered_byte_ignored
proof -
  let ?f = "build_sample_frame[22 := 0x1E, 23 := 0xA0]"
  have ok: "verify_checksum arc_engine ?f = Some True"
    by (rule verify_after_set [OF sample_frame_set])
  show known_vector_e2a4
    unfolding known_vector_e2a4_def sample_frame_set by code_simp
  show round_trip_set_verify
    by (simp add: round_trip_set_verify_def test_outcomes sample_frame_set ok)
  have "verify_checksum arc_engine (?f[16 := xor (?f ! 16) 1]) = Some False"
    by (rule arc.one_byte_of_frame_detected [OF ok]) (simp_all add: sample_frame_bytes payload_len_of_def)
  then show corruption_detected
    by (simp add: corruption_detected_def test_outcomes sample_frame_set offset_defs)
  show uncovered_byte_ignored
    unfolding uncovered_byte_ignored_def sample_frame_set
    by (simp add: test_outcomes sample_frame_bytes verify_checksum_eq digest_in_parts_def arc_engine_eval nibble_byte_def CRC16_ARC_NIBBLE_TABLE_def payload_len_of_def be16_at_def
        from_be16_def subslice_def)
qed

section \<open>\<open>frame.rs\<close>\<close>

definition build_and_parse_round_trip :: bool where
  "build_and_parse_round_trip \<longleftrightarrow>
     (let payload = [0x06, 0x01, 0x00, 0x00, 0x00, 0x00, 0xC0, 0x00, 0x00, 0x00, 0x00, 0x00];
          src = [0x00, 0x11, 0x22, 0x33, 0x44, 0x55]
      in passes_with (\<lambda>r. let frame_bytes = built_frame r in
           verify_checksum arc_engine frame_bytes = Some True \<and>
           passes_with (\<lambda>frame.
               frame_subtype frame = 0x01 \<and> frame_seq frame = 42 \<and>
               frame_payload_len frame = of_nat (length payload) \<and> frame_payload frame = payload \<and>
               frame_is_command frame \<and> frame_dst_mac frame = replicate 6 0xFF)
             (frame_parse frame_bytes))
         (build_command_frame arc_engine (replicate 128 0) 0x01 42 src payload))"

definition seq_counter_increments :: bool where
  "seq_counter_increments \<longleftrightarrow>
     (let c = SeqCounter_new; (a, c) = SeqCounter_next c; (b, c) = SeqCounter_next c; (d, c) = SeqCounter_next c
      in a = 1 \<and> b = 2 \<and> d = 3)"

definition parse_rejects_short :: bool where
  "parse_rejects_short \<longleftrightarrow> frame_parse (replicate 10 0) = None"

lemma frame_tests: build_and_parse_round_trip seq_counter_increments parse_rejects_short
proof -
  let ?payload = "[0x06, 0x01, 0x00, 0x00, 0x00, 0x00, 0xC0, 0x00, 0x00, 0x00, 0x00, 0x00] :: bytes"
  let ?src = "[0x00, 0x11, 0x22, 0x33, 0x44, 0x55] :: bytes"
  obtain r where r: "build_command_frame arc_engine (replicate 128 0) 1 42 ?src ?payload = Some r"
    using build_command_frame_panics [of ?src arc_engine "replicate 128 0" 1 42 ?payload] by fastforce
  obtain crc where f: "built_frame r = command_header 1 42 ?src (of_nat (length ?payload)) crc @ ?payload"
    and ok: "verify_checksum arc_engine (built_frame r) = Some True"
    by (rule built_frame_fields [OF r]) simp_all
  have fields: "built_frame r ! 14 = 0x11" "built_frame r ! 15 = 1" "subslice 0 6 (built_frame r) = replicate 6 0xFF"
      "be32_at (built_frame r) 16 = 42" "be16_at (built_frame r) 20 = of_nat (length ?payload)"
      "subslice 24 n (built_frame r) = take n ?payload" for n
    using header_field_in_frame [OF _ f] by simp_all
  show build_and_parse_round_trip
    by (simp add: build_and_parse_round_trip_def test_outcomes r ok verified_parses [OF ok] frame_accessors frame_consts
        offset_defs fields)
qed (code_simp)+

section \<open>\<open>pack.rs\<close>\<close>

definition dsl_line_vdsl2_annex_b_17a_30a :: bool where
  "dsl_line_vdsl2_annex_b_17a_30a \<longleftrightarrow>
     (let dsl = pack_dsl_line Vdsl2 Annex_B True True (profiles_bitor SEVENTEEN_A THIRTY_A)
      in dsl ! 0 = 6 \<and> dsl ! 1 = 1 \<and> dsl ! 2 = 1 \<and> dsl ! 3 = 1 \<and>
         from_be32 (subslice 4 4 dsl) = or 0x040 0x080 \<and> subslice 8 4 dsl = replicate 4 0)"

definition dsl_line_adsl_bitmask_forced_zero :: bool where
  "dsl_line_adsl_bitmask_forced_zero \<longleftrightarrow>
     (let dsl = pack_dsl_line Adsl2Plus Annex_A False False SEVENTEEN_A
      in from_be32 (subslice 4 4 dsl) = 0 \<and> dsl ! 2 = 0 \<and> dsl ! 3 = 0)"

definition atm_link_basic_ubr :: bool where
  "atm_link_basic_ubr \<longleftrightarrow>
     (let p = AtmLinkParams_default\<lparr>alp_vpi := 8, alp_vci := 35, alp_encap := Llc, alp_link_type := Eoa, alp_qos := Ubr,
            alp_pcr := 1000, alp_vlan_id := 2035\<rparr>;
          atm = pack_atm_link p
      in atm ! 0 = 1 \<and> atm ! 1 = 8 \<and> from_be16 [atm ! 2, atm ! 3] = 35 \<and> from_be32 (subslice 4 4 atm) = 1000 \<and>
         atm ! 0x10 = 0 \<and> atm ! 0x11 = 0 \<and> from_be16 [atm ! 0x12, atm ! 0x13] = 2035 \<and>
         subslice 0x08 8 atm = replicate 8 0)"

definition atm_link_vbr_carries_scr_mbs :: bool where
  "atm_link_vbr_carries_scr_mbs \<longleftrightarrow>
     (let p = AtmLinkParams_default\<lparr>alp_vpi := 8, alp_vci := 35, alp_encap := Vcmux, alp_link_type := Pppoa,
            alp_qos := VbrNrt, alp_pcr := 2000, alp_scr := 1000, alp_mbs := 50\<rparr>;
          vbr = pack_atm_link p
      in from_be32 (subslice 0x08 4 vbr) = 1000 \<and> from_be32 (subslice 0x0C 4 vbr) = 50 \<and>
         vbr ! 0x10 = 1 \<and> vbr ! 0x11 = 6)"

definition ptm_link_test :: bool where
  "ptm_link_test \<longleftrightarrow>
     (let ptm = pack_ptm_link 1 100 2 2001
      in ptm ! 0 = 1 \<and> from_be16 [ptm ! 1, ptm ! 2] = 100 \<and> from_be16 [ptm ! 6, ptm ! 7] = 2001)"

definition link_del_test :: bool where
  "link_del_test \<longleftrightarrow> pack_link_del 2035 3 = [0x07, 0xF3, 0x03]"

lemma pack_tests: dsl_line_vdsl2_annex_b_17a_30a dsl_line_adsl_bitmask_forced_zero atm_link_basic_ubr
    atm_link_vbr_carries_scr_mbs ptm_link_test link_del_test
  by code_simp+

section \<open>\<open>unpack.rs\<close>\<close>

definition build_line_reply :: bytes where
  "build_line_reply =
     (let buf = replicate 63 0;
          buf = buf[0x04 := 1];
          buf = buf[0x05 := 6];
          buf = buf[0x06 := 1];
          buf = buf[0x07 := 1];
          buf = buf[0x38 := 0];
          buf = overwrite 0x39 (to_be16 (or 0x040 0x080)) buf;
          buf = overwrite 0x3B (to_be32 3600) buf;
          buf = overwrite 0x08 (to_be32 100000) buf;
          buf = overwrite 0x18 (to_be32 150) buf
      in overwrite 0x1C (to_be32 200) buf)"

definition parse_line_obj_up_vdsl2 :: bool where
  "parse_line_obj_up_vdsl2 \<longleftrightarrow>
     ok_with (\<lambda>line.
         lo_link_status line = Up \<and> line_modulation line = Some Vdsl2 \<and> line_annex line = Some Annex_B \<and>
         lo_data_path line = PathPtm \<and> \<not> lo_is_atm line \<and> lo_uptime_secs line = 3600 \<and>
         lo_vdsl2_profile_bitmask line = 0x0C0 \<and> down_rate (lo_metrics line) = 100000 \<and>
         up_noise_margin (lo_metrics line) = 150 \<and> down_noise_margin (lo_metrics line) = 200)
       (parse_line_obj build_line_reply)"

definition parse_line_obj_nosignal :: bool where
  "parse_line_obj_nosignal \<longleftrightarrow>
     ok_with (\<lambda>line. lo_link_status line = NoSignal) (parse_line_obj (build_line_reply[0x04 := 0]))"

definition parse_line_obj_too_short :: bool where
  "parse_line_obj_too_short \<longleftrightarrow> err_with (\<lambda>_. True) (parse_line_obj (replicate 50 0))"

definition parse_channel_stats_basic :: bool where
  "parse_channel_stats_basic \<longleftrightarrow>
     (let data = overwrite 0x10 (to_be32 99) (overwrite 0x04 (to_be32 42) (replicate 28 0))
      in ok_with (\<lambda>cs. receive_blocks cs = 42 \<and> transmit_blocks cs = 99) (parse_channel_stats data))"

definition parse_channel_stats_too_short :: bool where
  "parse_channel_stats_too_short \<longleftrightarrow> err_with (\<lambda>_. True) (parse_channel_stats (replicate 20 0))"

lemma unpack_tests: parse_line_obj_up_vdsl2 parse_line_obj_nosignal parse_line_obj_too_short
    parse_channel_stats_basic parse_channel_stats_too_short
  by code_simp+

section \<open>\<open>validate.rs\<close>\<close>

abbreviation accepts :: "('e + 'a) \<Rightarrow> bool" where
  "accepts \<equiv> ok_with (\<lambda>_. True)"

abbreviation refuses :: "('e + 'a) \<Rightarrow> bool" where
  "refuses \<equiv> err_with (\<lambda>_. True)"

definition is_profile_error :: "line_config_error \<Rightarrow> bool" where
  "is_profile_error e = (case e of ProfileRequiresVdsl2 _ _ \<Rightarrow> True | _ \<Rightarrow> False)"

definition is_letter_error :: "char \<Rightarrow> line_config_error \<Rightarrow> bool" where
  "is_letter_error c e = (case e of AnnexNotInStandard _ _ letter _ \<Rightarrow> letter = c | _ \<Rightarrow> False)"

definition is_no_annex_error :: "line_config_error \<Rightarrow> bool" where
  "is_no_annex_error e = (case e of AnnexesNotDefined _ \<Rightarrow> True | _ \<Rightarrow> False)"

definition profile_with_adsl_rejected :: bool where
  "profile_with_adsl_rejected \<longleftrightarrow> err_with is_profile_error (validate_line_config Adsl2Plus Annex_B SEVENTEEN_A)"

definition profile_zero_with_adsl_ok :: bool where
  "profile_zero_with_adsl_ok \<longleftrightarrow> accepts (validate_line_config Adsl2Plus Annex_B 0)"

definition profile_with_vdsl2_ok :: bool where
  "profile_with_vdsl2_ok \<longleftrightarrow> accepts (validate_line_config Vdsl2 Annex_B (profiles_bitor SEVENTEEN_A THIRTY_A))"

definition profile_with_multimode_ok :: bool where
  "profile_with_multimode_ok \<longleftrightarrow> accepts (validate_line_config Multimode Annex_A THIRTY_A)"

definition annex_m_with_g9921_rejected :: bool where
  "annex_m_with_g9921_rejected \<longleftrightarrow> err_with (is_letter_error CHR ''M'') (validate_line_config AdslGdmt Annex_M 0)"

definition annex_i_with_g9921_rejected :: bool where
  "annex_i_with_g9921_rejected \<longleftrightarrow> err_with (is_letter_error CHR ''I'') (validate_line_config AdslGdmt Annex_I 0)"

definition any_annex_with_t1413_rejected :: bool where
  "any_annex_with_t1413_rejected \<longleftrightarrow> err_with is_no_annex_error (validate_line_config AdslAnsiT1413 Annex_A 0)"

definition any_annex_with_glite_rejected :: bool where
  "any_annex_with_glite_rejected \<longleftrightarrow> err_with is_no_annex_error (validate_line_config AdslGlite Annex_A 0)"

definition auto_annex_with_t1413_ok :: bool where
  "auto_annex_with_t1413_ok \<longleftrightarrow> accepts (validate_line_config AdslAnsiT1413 Annex_Auto 0)"

definition annex_a_with_g9923_ok :: bool where
  "annex_a_with_g9923_ok \<longleftrightarrow> accepts (validate_line_config AdslGdmtBis Annex_A 0)"

definition annex_al_with_adsl2plus_ok :: bool where
  "annex_al_with_adsl2plus_ok \<longleftrightarrow> accepts (validate_line_config Adsl2Plus Annex_AL 0)"

definition annex_al_with_g9921_partial_rejected :: bool where
  "annex_al_with_g9921_partial_rejected \<longleftrightarrow>
     err_with (is_letter_error CHR ''L'') (validate_line_config AdslGdmt Annex_AL 0)"

definition all_single_annex_with_vdsl2_ok :: bool where
  "all_single_annex_with_vdsl2_ok \<longleftrightarrow>
     list_all (\<lambda>annex. accepts (validate_line_config Vdsl2 annex 0)) [Annex_A, Annex_B, Annex_I, Annex_M, Annex_J]"

definition auto_annex_with_every_modulation_ok :: bool where
  "auto_annex_with_every_modulation_ok \<longleftrightarrow>
     list_all (\<lambda>mod_code. accepts (validate_line_config mod_code Annex_Auto 0))
       [AdslAnsiT1413, AdslGdmt, AdslGlite, AdslGdmtBis, Adsl2Plus, AdslMultimode, Vdsl2, Multimode]"

definition vdsl2_requires_ptm :: bool where
  "vdsl2_requires_ptm \<longleftrightarrow>
     accepts (validate_xfer_mode Vdsl2 HintPtm) \<and> refuses (validate_xfer_mode Vdsl2 HintAtm)"

definition adsl_requires_atm :: bool where
  "adsl_requires_atm \<longleftrightarrow>
     accepts (validate_xfer_mode Adsl2Plus HintAtm) \<and> refuses (validate_xfer_mode Adsl2Plus HintPtm)"

definition multimode_accepts_either :: bool where
  "multimode_accepts_either \<longleftrightarrow>
     accepts (validate_xfer_mode Multimode HintPtm) \<and> accepts (validate_xfer_mode Multimode HintAtm)"

lemma validate_tests: profile_with_adsl_rejected profile_zero_with_adsl_ok profile_with_vdsl2_ok
    profile_with_multimode_ok annex_m_with_g9921_rejected annex_i_with_g9921_rejected any_annex_with_t1413_rejected
    any_annex_with_glite_rejected auto_annex_with_t1413_ok annex_a_with_g9923_ok annex_al_with_adsl2plus_ok
    annex_al_with_g9921_partial_rejected all_single_annex_with_vdsl2_ok auto_annex_with_every_modulation_ok
    vdsl2_requires_ptm adsl_requires_atm multimode_accepts_either
  by code_simp+

section \<open>\<open>firmware.rs\<close>\<close>

text \<open>\<open>Vec::resize\<close>.\<close>

definition vec_resize :: "nat \<Rightarrow> 'a \<Rightarrow> 'a list \<Rightarrow> 'a list" where
  "vec_resize n x xs = take n xs @ replicate (n - length xs) x"

definition test_version :: bytes where
  "test_version = [0x37, 0x2E, 0x33, 0x2E, 0x32, 0x36, 0x31, 0x2E, 0x31, 0x5F, 0x76, 0x30, 0x31, 0x36, 0x0A]"

definition build_2rdh :: "u32 \<Rightarrow> bytes" where
  "build_2rdh sz =
     (let buf = replicate 0x100 0;
          buf = overwrite 0 MAGIC_2RDH buf;
          buf = overwrite 0x04 (to_be32 0x100) buf;
          buf = overwrite 0x08 (to_be32 sz) buf;
          buf = overwrite 0x10 test_version buf;
          buf = overwrite 0x50 (to_be32 1000) buf;
          buf = overwrite 0x54 (to_be32 2000) buf;
          buf = overwrite 0x7C (to_be32 0x80002000) buf
      in vec_resize (unat sz) 0xFF buf)"

definition parse_valid_header :: bool where
  "parse_valid_header \<longleftrightarrow>
     ok_with (\<lambda>hdr. fh_header_len hdr = 0x100 \<and> fh_total_len hdr = 0x200000 \<and>
         version_str hdr = ''7.3.261.1_v016'' @ [nl] \<and> fh_load_addr hdr = 0x80002000)
       (parse_header (build_2rdh 0x200000))"

definition reject_bad_magic :: bool where
  "reject_bad_magic \<longleftrightarrow>
     refuses (parse_header (overwrite 0 [0x58, 0x58, 0x58, 0x58] (build_2rdh 0x200000)))"

definition validate_size_range :: bool where
  "validate_size_range \<longleftrightarrow>
     accepts (validate_image (build_2rdh 0x200000)) \<and> accepts (validate_image (build_2rdh 0x800000)) \<and>
     refuses (validate_image (build_2rdh 0x1FFFFF)) \<and> refuses (validate_image (build_2rdh 0x800001))"

definition validate_total_len_mismatch :: bool where
  "validate_total_len_mismatch \<longleftrightarrow>
     refuses (validate_image (overwrite 0x08 (to_be32 0x300000) (build_2rdh 0x200000)))"

definition announce_payload_layout :: bool where
  "announce_payload_layout \<longleftrightarrow>
     (let pl = announce_payload 0x12345678
      in pl ! 0 = STAGE_ANNOUNCE \<and> subslice 1 4 pl = to_be32 0x12345678)"

definition verify_payload_layout :: bool where
  "verify_payload_layout \<longleftrightarrow> verify_payload = [STAGE_VERIFY]"

definition complete_payload_layout :: bool where
  "complete_payload_layout \<longleftrightarrow> complete_payload = [STAGE_COMPLETE]"

definition test_header :: "u32 \<Rightarrow> fw_header" where
  "test_header sz =
     \<lparr>fh_header_len = 0x100, fh_total_len = sz, fh_crc32 = 0, fh_version = test_version @ replicate 16 0,
      fh_kernel_len = 1000, fh_rootfs_len = 2000, fh_load_addr = 0x80002000\<rparr>"

lemma build_2rdh_eq:
  assumes "256 \<le> unat sz"
  shows "build_2rdh sz =
    header_bytes (test_header sz) (replicate 33 0) (replicate 36 0) (replicate 128 0) @ replicate (unat sz - 256) 0xFF"
proof -
  have zeros: "(replicate 0x100 0 :: bytes) = replicate 4 0 @ replicate 4 0 @ replicate 4 0 @ to_be32 0 @ replicate 15 0 @
      replicate 16 0 @ replicate 33 0 @ replicate 4 0 @ replicate 4 0 @ replicate 36 0 @ replicate 4 0 @ replicate 128 0"
    by code_simp
  have len: "length test_version = 15" "length MAGIC_2RDH = 4"
    by (simp_all add: test_version_def MAGIC_2RDH_def)
  show ?thesis
    using assms
    by (simp add: build_2rdh_def zeros overwrite_skip overwrite_here len vec_resize_def header_bytes_def test_header_def
        del: append_replicate_commute)
qed

lemma build_2rdh_parses:
  assumes "256 \<le> unat sz"
  shows "parse_header (build_2rdh sz) = Inr (test_header sz)" and "length (build_2rdh sz) = unat sz"
proof -
  have "length (test_version @ replicate 16 0) = 31"
    by (simp add: test_version_def)
  then show "parse_header (build_2rdh sz) = Inr (test_header sz)"
    by (simp add: build_2rdh_eq [OF assms] parse_header_built test_header_def)
  show "length (build_2rdh sz) = unat sz"
    using assms by (simp add: build_2rdh_eq header_bytes_def test_header_def test_version_def MAGIC_2RDH_def)
qed

lemma firmware_tests: parse_valid_header reject_bad_magic validate_size_range validate_total_len_mismatch
    announce_payload_layout verify_payload_layout complete_payload_layout
proof -
  have "version_str (test_header 0x200000) = ''7.3.261.1_v016'' @ [nl]"
    by code_simp
  then show parse_valid_header
    by (simp add: parse_valid_header_def build_2rdh_parses ok_with_def) (simp add: test_header_def)
  show reject_bad_magic
    by (simp add: reject_bad_magic_def parse_header_def err_with_def overwrite_def build_2rdh_parses MAGIC_2RDH_def)
  show validate_size_range
    by (simp add: validate_size_range_def validate_image_def build_2rdh_parses test_outcomes image_size_defs)
      (simp add: test_header_def)
  let ?data = "overwrite 0x08 (to_be32 0x300000) (build_2rdh 0x200000)"
  have "length ?data = 0x200000" "be32_at ?data 8 = 0x300000"
    by (simp_all add: be32_at_def build_2rdh_parses wire_simps)
  then show validate_total_len_mismatch
    by (simp add: validate_total_len_mismatch_def validate_image_def parse_header_def err_with_def image_size_defs Let_def)
  show announce_payload_layout verify_payload_layout complete_payload_layout
    by (simp_all add: announce_payload_layout_def announce_payload_eq stage_defs subslice_def verify_payload_layout_def
        complete_payload_layout_def verify_payload_def complete_payload_def)
qed

section \<open>The verdict\<close>

definition proto_tests :: "(string \<times> bool) list" where
  "proto_tests =
     [(''known_vector_e2a4'', known_vector_e2a4), (''round_trip_set_verify'', round_trip_set_verify),
      (''corruption_detected'', corruption_detected), (''uncovered_byte_ignored'', uncovered_byte_ignored),
      (''build_and_parse_round_trip'', build_and_parse_round_trip), (''seq_counter_increments'', seq_counter_increments),
      (''parse_rejects_short'', parse_rejects_short),
      (''dsl_line_vdsl2_annex_b_17a_30a'', dsl_line_vdsl2_annex_b_17a_30a),
      (''dsl_line_adsl_bitmask_forced_zero'', dsl_line_adsl_bitmask_forced_zero),
      (''atm_link_basic_ubr'', atm_link_basic_ubr), (''atm_link_vbr_carries_scr_mbs'', atm_link_vbr_carries_scr_mbs),
      (''ptm_link'', ptm_link_test), (''link_del'', link_del_test),
      (''parse_line_obj_up_vdsl2'', parse_line_obj_up_vdsl2), (''parse_line_obj_nosignal'', parse_line_obj_nosignal),
      (''parse_line_obj_too_short'', parse_line_obj_too_short), (''parse_channel_stats_basic'', parse_channel_stats_basic),
      (''parse_channel_stats_too_short'', parse_channel_stats_too_short),
      (''profile_with_adsl_rejected'', profile_with_adsl_rejected), (''profile_zero_with_adsl_ok'', profile_zero_with_adsl_ok),
      (''profile_with_vdsl2_ok'', profile_with_vdsl2_ok), (''profile_with_multimode_ok'', profile_with_multimode_ok),
      (''annex_m_with_g9921_rejected'', annex_m_with_g9921_rejected),
      (''annex_i_with_g9921_rejected'', annex_i_with_g9921_rejected),
      (''any_annex_with_t1413_rejected'', any_annex_with_t1413_rejected),
      (''any_annex_with_glite_rejected'', any_annex_with_glite_rejected),
      (''auto_annex_with_t1413_ok'', auto_annex_with_t1413_ok), (''annex_a_with_g9923_ok'', annex_a_with_g9923_ok),
      (''annex_al_with_adsl2plus_ok'', annex_al_with_adsl2plus_ok),
      (''annex_al_with_g9921_partial_rejected'', annex_al_with_g9921_partial_rejected),
      (''all_single_annex_with_vdsl2_ok'', all_single_annex_with_vdsl2_ok),
      (''auto_annex_with_every_modulation_ok'', auto_annex_with_every_modulation_ok),
      (''vdsl2_requires_ptm'', vdsl2_requires_ptm), (''adsl_requires_atm'', adsl_requires_atm),
      (''multimode_accepts_either'', multimode_accepts_either),
      (''parse_valid_header'', parse_valid_header), (''reject_bad_magic'', reject_bad_magic),
      (''validate_size_range'', validate_size_range), (''validate_total_len_mismatch'', validate_total_len_mismatch),
      (''announce_payload_layout'', announce_payload_layout), (''verify_payload_layout'', verify_payload_layout),
      (''complete_payload_layout'', complete_payload_layout)]"

lemma proto_tests_verdict: "failing proto_tests = []"
  by (simp add: failing_def proto_tests_def checksum_tests frame_tests pack_tests unpack_tests validate_tests firmware_tests)

end
