(* ===== verification/HostTests.thy ===== *)
theory HostTests
  imports ProtoTests Service Capture Worker
begin

text \<open>
  The unit tests of \<open>af_packet\<close> and of \<open>rbctl_dsl\<close> other than those of the board controller.  A test that writes
  a file and reads it back runs on the file model of \<open>Capture\<close>, on which writes succeed.  Left out are the two tests that only
  ask whether the third-party encoder yields any bytes.
\<close>

section \<open>\<open>af_packet\<close>\<close>

definition parse_mac_valid :: bool where
  "parse_mac_valid \<longleftrightarrow>
     ok_with (\<lambda>m. m = [0x00, 0x11, 0x22, 0x33, 0x44, 0x55]) (parse_mac ''00:11:22:33:44:55'') \<and>
     ok_with (\<lambda>m. m = replicate 6 0xFF) (parse_mac ''ff:ff:ff:ff:ff:ff'') \<and>
     ok_with (\<lambda>m. m = [0xAA, 0xBB, 0xCC, 0xDD, 0xEE, 0xFF]) (parse_mac ''AA:BB:CC:DD:EE:FF'')"

definition parse_mac_with_newline :: bool where
  "parse_mac_with_newline \<longleftrightarrow>
     ok_with (\<lambda>m. m = [0x00, 0x11, 0x22, 0x33, 0x44, 0x55]) (parse_mac (''00:11:22:33:44:55'' @ [nl]))"

definition parse_mac_too_short :: bool where
  "parse_mac_too_short \<longleftrightarrow> refuses (parse_mac ''00:11:22:33:44'')"

definition parse_mac_invalid_hex :: bool where
  "parse_mac_invalid_hex \<longleftrightarrow> refuses (parse_mac ''00:11:22:33:44:GG'')"

definition bpf_filter_has_4_instructions :: bool where
  "bpf_filter_has_4_instructions \<longleftrightarrow> length (build_bpf 0x88B5) = 4"

definition bpf_filter_instruction_0_loads_ethertype :: bool where
  "bpf_filter_instruction_0_loads_ethertype \<longleftrightarrow>
     (let f = build_bpf 0x88B5 in sf_code (f ! 0) = BPF_LD_H_ABS \<and> sf_k (f ! 0) = 12)"

definition bpf_filter_instruction_1_compares_ethertype :: bool where
  "bpf_filter_instruction_1_compares_ethertype \<longleftrightarrow>
     (let f = build_bpf 0x88B5 in sf_code (f ! 1) = BPF_JEQ_K \<and> sf_jt (f ! 1) = 1 \<and> sf_jf (f ! 1) = 0)"

definition bpf_filter_reject_then_accept :: bool where
  "bpf_filter_reject_then_accept \<longleftrightarrow>
     (let f = build_bpf 0x88B5
      in sf_code (f ! 2) = BPF_RET_K \<and> sf_k (f ! 2) = 0 \<and> sf_code (f ! 3) = BPF_RET_K \<and> sf_k (f ! 3) = 0xFFFF)"

definition ethertype_bpf_constant :: bool where
  "ethertype_bpf_constant \<longleftrightarrow>
     ethertype_bpf_k 0x88B5 = 0x88B5 \<and> ethertype_bpf_k 0x0800 = 0x0800 \<and> ethertype_bpf_k 0x8100 = 0x8100"

definition ethertype_bpf_round_trips :: bool where
  "ethertype_bpf_round_trips \<longleftrightarrow>
     list_all (\<lambda>et. ethertype_bpf_k et = ucast et) [0x0800, 0x0806, 0x8100, 0x88B5, 0x88B6, 0x86DD]"

lemma af_packet_tests: parse_mac_valid parse_mac_with_newline parse_mac_too_short parse_mac_invalid_hex
    bpf_filter_has_4_instructions bpf_filter_instruction_0_loads_ethertype
    bpf_filter_instruction_1_compares_ethertype bpf_filter_reject_then_accept ethertype_bpf_constant
    ethertype_bpf_round_trips
  by code_simp+

section \<open>\<open>uci_cfg.rs\<close>\<close>

definition annex_parsing :: bool where
  "annex_parsing \<longleftrightarrow>
     ok_with (\<lambda>a. a = Annex_A) (parse_annex ''a'') \<and> ok_with (\<lambda>a. a = Annex_B) (parse_annex ''B'') \<and>
     ok_with (\<lambda>a. a = Annex_J) (parse_annex ''j'') \<and> refuses (parse_annex ''x'')"

definition tone_av_all_profiles :: bool where
  "tone_av_all_profiles \<longleftrightarrow>
     ok_with (\<lambda>p. p = profiles_bitor EIGHT_A THIRTY_A \<and> profiles_bitmask p = 0x1FF) (parse_tone ''av'')"

definition tone_individual_profiles :: bool where
  "tone_individual_profiles \<longleftrightarrow>
     ok_with (\<lambda>p. p = profiles_bitor (profiles_bitor EIGHT_A SEVENTEEN_A) THIRTY_A \<and> profiles_bitmask p = 0x0C1)
       (parse_tone ''8a 17a 30a'')"

definition tone_single :: bool where
  "tone_single \<longleftrightarrow> ok_with (\<lambda>p. p = THIRTYFIVE_B) (parse_tone ''35b'')"

definition tone_adsl_empty :: bool where
  "tone_adsl_empty \<longleftrightarrow>
     ok_with (\<lambda>p. profiles_bitmask p = 0) (parse_tone ''a'') \<and> ok_with (\<lambda>p. profiles_bitmask p = 0) (parse_tone [])"

definition tone_bad_profile :: bool where
  "tone_bad_profile \<longleftrightarrow> refuses (parse_tone ''99z'')"

definition xfer_mode_parsing :: bool where
  "xfer_mode_parsing \<longleftrightarrow>
     ok_with (\<lambda>x. x = Ptm) (parse_xfer_mode ''ptm'') \<and> ok_with (\<lambda>x. x = Atm) (parse_xfer_mode ''atm'') \<and>
     ok_with (\<lambda>x. x = Ptm) (parse_xfer_mode []) \<and> refuses (parse_xfer_mode ''xyz'')"

definition encaps_parsing :: bool where
  "encaps_parsing \<longleftrightarrow>
     ok_with (\<lambda>x. x = Llc) (parse_encaps ''llc'') \<and> ok_with (\<lambda>x. x = Vcmux) (parse_encaps ''vcmux'')"

definition payload_parsing :: bool where
  "payload_parsing \<longleftrightarrow>
     ok_with (\<lambda>x. x = Eoa) (parse_payload ''bridged'') \<and> ok_with (\<lambda>x. x = Ipoa) (parse_payload ''routed'') \<and>
     ok_with (\<lambda>x. x = Pppoa) (parse_payload ''pppoa'')"

definition modulation_vdsl :: bool where
  "modulation_vdsl \<longleftrightarrow>
     ok_with (\<lambda>m. m = Vdsl2) (parse_modulation ''vdsl'' ''ptm'') \<and> ok_with (\<lambda>m. m = Vdsl2) (parse_modulation [] ''ptm'')"

definition modulation_adsl :: bool where
  "modulation_adsl \<longleftrightarrow> ok_with (\<lambda>m. m = Adsl2Plus) (parse_modulation ''adsl'' ''atm'')"

definition default_config :: bool where
  "default_config \<longleftrightarrow>
     (let cfg = DslConfig_default
      in dc_modulation cfg = Vdsl2 \<and> dc_annex cfg = Annex_B \<and> dc_xfer_mode cfg = Ptm \<and>
         profiles_bitmask (dc_profiles cfg) = 0x1FF \<and> Option.is_none (dc_atm cfg))"

lemma uci_tests: annex_parsing tone_individual_profiles tone_single tone_adsl_empty tone_bad_profile xfer_mode_parsing
    encaps_parsing payload_parsing modulation_vdsl modulation_adsl default_config
  by code_simp+

text \<open>The test expects of the same value both bits 0x81 and the mask 0x1FF.\<close>

lemma tone_av_fails: "\<not> tone_av_all_profiles"
  by code_simp

section \<open>\<open>daemon.rs\<close>, \<open>hotplug.rs\<close>, \<open>board_worker.rs\<close>\<close>

definition parent_iface_vlan :: bool where
  "parent_iface_vlan \<longleftrightarrow> parent_iface ''lan0.500'' = ''lan0'' \<and> parent_iface ''eth0'' = ''eth0''"

definition event_strings :: bool where
  "event_strings \<longleftrightarrow>
     line_event_str EvUp = ''UP'' \<and> line_event_str EvDown = ''DOWN'' \<and>
     line_event_str EvHandshake = ''HANDSHAKE'' \<and> line_event_str EvTraining = ''TRAINING''"

definition tc_layer_efm_not_ptm :: bool where
  "tc_layer_efm_not_ptm \<longleftrightarrow> tc_layer_status Ptm = ''EFM'' \<and> tc_layer_status Atm = ''ATM''"

definition link_status_events :: bool where
  "link_status_events \<longleftrightarrow>
     link_status_to_event Up = EvUp \<and> link_status_to_event NoSignal = EvDown \<and>
     link_status_to_event Initializing = EvTraining \<and> link_status_to_event EstablishingLink = EvHandshake"

definition config_change_detection :: bool where
  "config_change_detection \<longleftrightarrow>
     (let a = DslConfig_default; b = DslConfig_default\<lparr>dc_annex := Annex_A\<rparr> in config_changed a b)"

definition config_no_change :: bool where
  "config_no_change \<longleftrightarrow> (let a = DslConfig_default; b = DslConfig_default in \<not> config_changed a b)"

lemma daemon_tests: parent_iface_vlan event_strings tc_layer_efm_not_ptm link_status_events config_change_detection
    config_no_change
  by code_simp+

section \<open>\<open>ubus_obj.rs\<close>\<close>

definition map_status_up :: bool where
  "map_status_up \<longleftrightarrow> (let (s, n, up) = map_link_status Up in s = ''Showtime with TC-Layer sync'' \<and> n = 7 \<and> up)"

definition map_status_nosignal :: bool where
  "map_status_nosignal \<longleftrightarrow> (let (s, n, up) = map_link_status NoSignal in s = ''Silent'' \<and> n = 3 \<and> \<not> up)"

definition map_status_handshake :: bool where
  "map_status_handshake \<longleftrightarrow> (let (s, n, _) = map_link_status EstablishingLink in s = ''Handshake'' \<and> n = 4)"

definition map_status_training :: bool where
  "map_status_training \<longleftrightarrow> (let (s, n, _) = map_link_status Initializing in s = ''Full init'' \<and> n = 5)"

definition profile_string_multi :: bool where
  "profile_string_multi \<longleftrightarrow>
     profile_string (profiles_bitor (profiles_bitor EIGHT_A SEVENTEEN_A) THIRTY_A) = ''8a 17a 30a''"

definition annex_string_basic :: bool where
  "annex_string_basic \<longleftrightarrow> annex_string 0 = ''A'' \<and> annex_string 1 = ''B'' \<and> annex_string 99 = ''?''"

definition build_dsl_object_methods :: bool where
  "build_dsl_object_methods \<longleftrightarrow>
     (let obj = build_dsl_object
      in uo_name obj = ''dsl'' \<and> length (uo_methods obj) = 2 \<and> fst (uo_methods obj ! 0) = ''metrics'' \<and>
         fst (uo_methods obj ! 1) = ''statistics'')"

lemma ubus_tests: map_status_up map_status_nosignal map_status_handshake map_status_training profile_string_multi
    annex_string_basic
  by code_simp+

lemma object_test: build_dsl_object_methods
  by (simp add: build_dsl_object_methods_def build_dsl_object_def)

section \<open>\<open>pcap.rs\<close>\<close>

definition global_header_is_24_bytes_and_correct :: bool where
  "global_header_is_24_bytes_and_correct \<longleftrightarrow>
     ok_with (\<lambda>bytes. length bytes = 24 \<and>
         from_le32 (subslice 0x00 4 bytes) = PCAP_MAGIC \<and> from_le16 (subslice 0x04 2 bytes) = VERSION_MAJOR \<and>
         from_le16 (subslice 0x06 2 bytes) = VERSION_MINOR \<and> from_le32 (subslice 0x10 4 bytes) = SNAPLEN \<and>
         from_le32 (subslice 0x14 4 bytes) = LINKTYPE_ETHERNET)
       (pcap_create good_file (Inr ()))"

definition write_appends_16_byte_record_header_plus_frame :: bool where
  "write_appends_16_byte_record_header_plus_frame \<longleftrightarrow>
     (let now = SinceEpoch 0x11223344 5000000;
          frame = replicate 14 0xFF;
          (err, out) = pcap_write good_file [] now frame;
          len = of_nat (length frame)
      in Option.is_none err \<and> length out = 16 + length frame \<and>
         from_le32 (subslice 0x00 4 out) = 0x11223344 \<and> from_le32 (subslice 0x04 4 out) = 5000 \<and>
         from_le32 (subslice 0x08 4 out) = len \<and> from_le32 (subslice 0x0C 4 out) = len \<and> drop 16 out = frame)"

definition multiple_writes_are_contiguous_records :: bool where
  "multiple_writes_are_contiguous_records \<longleftrightarrow>
     (let now = SinceEpoch 0 0;
          (e1, buf) = pcap_write good_file [] now [0x01, 0x02];
          (e2, out) = pcap_write good_file buf now [0x03, 0x04, 0x05]
      in Option.is_none e1 \<and> Option.is_none e2 \<and> length out = (16 + 2) + (16 + 3))"

lemma pcap_tests: global_header_is_24_bytes_and_correct write_appends_16_byte_record_header_plus_frame
    multiple_writes_are_contiguous_records
  by code_simp+

section \<open>\<open>ipc.rs\<close>\<close>

definition cmd_parsing :: bool where
  "cmd_parsing \<longleftrightarrow>
     cmd_from_arg ''status'' = Some CmdStatus \<and> cmd_from_arg ''reload'' = Some CmdReload \<and>
     cmd_from_arg ''restart-line'' = Some CmdRestart \<and> cmd_from_arg ''stop'' = Some CmdStop \<and>
     Option.is_none (cmd_from_arg ''bogus'')"

definition status_roundtrip :: bool where
  "status_roundtrip \<longleftrightarrow>
     (let s = \<lparr>sn_state = ''Up'', sn_state_num = 7, sn_up = True, sn_uptime_secs = 300, sn_modulation = ''Vdsl2'',
            sn_annex = ''B'', sn_xfer_mode = ''Ptm'', sn_down_rate = 50000, sn_up_rate = 10000, sn_down_snr = 150,
            sn_up_snr = 120, sn_fw_status = ''idle''\<rparr>;
          text = to_lines s;
          parsed = from_lines text
      in sn_state parsed = ''Up'' \<and> sn_state_num parsed = 7 \<and> sn_up parsed \<and> sn_uptime_secs parsed = 300 \<and>
         sn_down_rate parsed = 50000 \<and> sn_up_snr parsed = 120 \<and> sn_fw_status parsed = ''idle'')"

lemma ipc_tests: cmd_parsing status_roundtrip
proof -
  show cmd_parsing by code_simp
  have "clean ''Up'' \<and> clean ''Vdsl2'' \<and> clean ''B'' \<and> clean ''Ptm'' \<and> clean ''idle''"
    by (intro conjI solid_str) (simp_all add: solid_def)
  then have "clean_snapshot \<lparr>sn_state = ''Up'', sn_state_num = 7, sn_up = True, sn_uptime_secs = 300, sn_modulation = ''Vdsl2'',
      sn_annex = ''B'', sn_xfer_mode = ''Ptm'', sn_down_rate = 50000, sn_up_rate = 10000, sn_down_snr = 150,
      sn_up_snr = 120, sn_fw_status = ''idle''\<rparr>"
    by (simp add: clean_snapshot_def)
  from from_lines_to_lines [OF this] show status_roundtrip
    by (simp add: status_roundtrip_def)
qed

section \<open>The verdict\<close>

definition host_tests :: "(string \<times> bool) list" where
  "host_tests =
     [(''parse_mac_valid'', parse_mac_valid), (''parse_mac_with_newline'', parse_mac_with_newline),
      (''parse_mac_too_short'', parse_mac_too_short), (''parse_mac_invalid_hex'', parse_mac_invalid_hex),
      (''bpf_filter_has_4_instructions'', bpf_filter_has_4_instructions),
      (''bpf_filter_instruction_0_loads_ethertype'', bpf_filter_instruction_0_loads_ethertype),
      (''bpf_filter_instruction_1_compares_ethertype'', bpf_filter_instruction_1_compares_ethertype),
      (''bpf_filter_reject_then_accept'', bpf_filter_reject_then_accept),
      (''ethertype_bpf_constant'', ethertype_bpf_constant), (''ethertype_bpf_round_trips'', ethertype_bpf_round_trips),
      (''annex_parsing'', annex_parsing), (''tone_av_all_profiles'', tone_av_all_profiles),
      (''tone_individual_profiles'', tone_individual_profiles), (''tone_single'', tone_single),
      (''tone_adsl_empty'', tone_adsl_empty), (''tone_bad_profile'', tone_bad_profile),
      (''xfer_mode_parsing'', xfer_mode_parsing), (''encaps_parsing'', encaps_parsing),
      (''payload_parsing'', payload_parsing), (''modulation_vdsl'', modulation_vdsl),
      (''modulation_adsl'', modulation_adsl), (''default_config'', default_config),
      (''parent_iface_vlan'', parent_iface_vlan), (''event_strings'', event_strings),
      (''tc_layer_efm_not_ptm'', tc_layer_efm_not_ptm), (''link_status_events'', link_status_events),
      (''config_change_detection'', config_change_detection), (''config_no_change'', config_no_change),
      (''map_status_up'', map_status_up), (''map_status_nosignal'', map_status_nosignal),
      (''map_status_handshake'', map_status_handshake), (''map_status_training'', map_status_training),
      (''profile_string_multi'', profile_string_multi), (''annex_string_basic'', annex_string_basic),
      (''build_dsl_object_methods'', build_dsl_object_methods),
      (''global_header_is_24_bytes_and_correct'', global_header_is_24_bytes_and_correct),
      (''write_appends_16_byte_record_header_plus_frame'', write_appends_16_byte_record_header_plus_frame),
      (''multiple_writes_are_contiguous_records'', multiple_writes_are_contiguous_records),
      (''cmd_parsing'', cmd_parsing), (''status_roundtrip'', status_roundtrip)]"

lemma host_tests_verdict: "failing host_tests = [''tone_av_all_profiles'']"
  by (simp add: failing_def host_tests_def af_packet_tests uci_tests tone_av_fails daemon_tests ubus_tests object_test
      pcap_tests ipc_tests)

end
