(* ===== verification/NetlinkTests.thy ===== *)
theory NetlinkTests
  imports NetlinkProps ProtoTests
begin

text \<open>
  The unit tests of \<open>tinyln_rs\<close>, run on a C library that keeps the contract \<open>libnl\<close>: a page of 4096 bytes as message
  buffer, and a search that walks the attributes and compares their types without the two flag bits.
  The tests hold in both byte orders.
\<close>

definition walk_find :: "nl_lib \<Rightarrow> bytes \<Rightarrow> int \<Rightarrow> u32 \<Rightarrow> bytes option" where
  "walk_find L bs r t =
     (case nla_collect L \<lparr>it_ptr = bs, it_remaining = r\<rparr> of
        None \<Rightarrow> None
      | Some attrs \<Rightarrow> find (\<lambda>a. ucast (and (nla_type L a) 0x3FFF) = t) attrs)"

definition page_lib :: "bool \<Rightarrow> nl_lib" where
  "page_lib le =
     (let L = buffer_lib le 4096 (\<lambda>_. 0) (\<lambda>_. 0) (\<lambda>_. 0) 0
      in L\<lparr>nla_find := walk_find L,
           nlmsg_alloc_simple := (\<lambda>t f. Some \<lparr>nm_type = t, nm_flags = f, nm_len = 16, nm_buf = replicate 16 0\<rparr>),
           nlmsg_reserve := (\<lambda>msg n pad.
             (Some (nm_len msg), nl_extend msg (replicate (nlmsg_align n) 0)))\<rparr>)"

interpretation page: libnl "page_lib le" 4096 for le
  using libnl.put_room [OF buffered.libnl_axioms] libnl.put_fails [OF buffered.libnl_axioms]
    libnl.append_room [OF buffered.libnl_axioms] libnl.ok_iff [OF buffered.libnl_axioms]
  by unfold_locales (auto simp: page_lib_def buffer_lib_def nla_len_def nl_wf_def Let_def)

section \<open>\<open>lib.rs\<close>\<close>

definition nlmsg_align_values :: bool where
  "nlmsg_align_values \<longleftrightarrow>
     nlmsg_align 0 = 0 \<and> nlmsg_align 1 = 4 \<and> nlmsg_align 4 = 4 \<and> nlmsg_align 5 = 8 \<and>
     nlmsg_align 16 = 16 \<and> nlmsg_align 17 = 20"

definition nla_align_values :: bool where
  "nla_align_values \<longleftrightarrow>
     nla_align 0 = 0 \<and> nla_align 1 = 4 \<and> nla_align 3 = 4 \<and> nla_align 4 = 4 \<and> nla_align 5 = 8 \<and> nla_align 7 = 8"

definition constants_match_kernel_uapi :: bool where
  "constants_match_kernel_uapi \<longleftrightarrow>
     NLMSG_ALIGNTO = 4 \<and> NLA_ALIGNTO = 4 \<and> NLA_HDRLEN = 4 \<and> NLA_F_NESTED = 0x8000 \<and>
     NETLINK_ROUTE = 0 \<and> NETLINK_GENERIC = 16"

section \<open>\<open>msg.rs\<close>\<close>

definition alloc_simple_works :: "bool \<Rightarrow> bool" where
  "alloc_simple_works le \<longleftrightarrow> accepts (NlMsg_alloc_simple (page_lib le) 0x10 0x01)"

definition header_preserves_type_and_flags :: "bool \<Rightarrow> bool" where
  "header_preserves_type_and_flags le \<longleftrightarrow>
     ok_with (\<lambda>msg. nm_type msg = 0x10 \<and> nm_flags msg = 0x01) (NlMsg_alloc_simple (page_lib le) 0x10 0x01)"

definition append_grows_message :: "bool \<Rightarrow> bool" where
  "append_grows_message le \<longleftrightarrow>
     ok_with (\<lambda>msg. let before = nm_len msg; (r, msg) = msg_append (page_lib le) msg [0xDE, 0xAD, 0xBE, 0xEF]
         in accepts r \<and> before < nm_len msg)
       (NlMsg_alloc_simple (page_lib le) 0x10 0x01)"

definition reserve_returns_writable_ptr :: "bool \<Rightarrow> bool" where
  "reserve_returns_writable_ptr le \<longleftrightarrow>
     ok_with (\<lambda>msg. let (r, msg) = msg_reserve (page_lib le) msg 8 4 in ok_with (\<lambda>off. off + 8 \<le> nm_len msg) r)
       (NlMsg_alloc_simple (page_lib le) 0x10 0x01)"

section \<open>\<open>attr.rs\<close>\<close>

definition attr_region :: "nl_msg \<Rightarrow> bytes \<times> nat" where
  "attr_region msg =
     (let hdr_size = nlmsg_align 16
      in (drop hdr_size (nm_buf msg), nm_len msg - hdr_size))"

text \<open>A message, what the test puts into it, and the assertions on the attribute found.\<close>

definition found_after :: "bool \<Rightarrow> (nl_msg \<Rightarrow> nl_msg) \<Rightarrow> u32 \<Rightarrow> (bytes \<Rightarrow> bool) \<Rightarrow> bool" where
  "found_after le puts t P =
     ok_with (\<lambda>msg. let (start, n) = attr_region (puts msg) in passes_with P (find_attr (page_lib le) start n t))
       (NlMsg_alloc_simple (page_lib le) 0x10 0x01)"

definition put_get_u16_roundtrip :: "bool \<Rightarrow> bool" where
  "put_get_u16_roundtrip le \<longleftrightarrow>
     found_after le (\<lambda>msg. snd (put_u16 (page_lib le) msg 1 0x1234)) 1
       (\<lambda>found. passes_with (\<lambda>v. v = 0x1234) (get_u16 (page_lib le) found))"

definition put_get_u32_roundtrip :: "bool \<Rightarrow> bool" where
  "put_get_u32_roundtrip le \<longleftrightarrow>
     found_after le (\<lambda>msg. snd (put_u32 (page_lib le) msg 2 0xDEADBEEF)) 2
       (\<lambda>found. passes_with (\<lambda>v. v = 0xDEADBEEF) (get_u32 (page_lib le) found))"

definition put_get_string_roundtrip :: "bool \<Rightarrow> bool" where
  "put_get_string_roundtrip le \<longleftrightarrow>
     found_after le (\<lambda>msg. snd (put_string (page_lib le) msg 3 ''vlan'')) 3
       (\<lambda>found. passes_with (\<lambda>v. v = ''vlan'') (get_string (page_lib le) found))"

definition put_flag_roundtrip :: "bool \<Rightarrow> bool" where
  "put_flag_roundtrip le \<longleftrightarrow>
     found_after le (\<lambda>msg. snd (put_flag (page_lib le) msg 99)) 99
       (\<lambda>found. passes_with (\<lambda>n. n = 0) (payload_len (page_lib le) found))"

definition test_attr :: "bool \<Rightarrow> u16 \<Rightarrow> bytes \<Rightarrow> bytes" where
  "test_attr le len payload = ne16 le len @ ne16 le 0 @ payload"

definition get_u32_rejects_truncated_attr :: "bool \<Rightarrow> bool" where
  "get_u32_rejects_truncated_attr le \<longleftrightarrow>
     (let a = test_attr le (of_nat NLA_HDRLEN + 1) (replicate 8 0)
      in Option.is_none (get_u32 (page_lib le) a) \<and> passes_with (\<lambda>v. v = 0) (get_u8 (page_lib le) a))"

definition get_string_rejects_invalid_utf8 :: "bool \<Rightarrow> bool" where
  "get_string_rejects_invalid_utf8 le \<longleftrightarrow>
     (let a = test_attr le (of_nat NLA_HDRLEN + 2) [0xFF, 0xFF, 0, 0, 0, 0, 0, 0]
      in Option.is_none (get_string (page_lib le) a))"

definition payload_len_none_on_underflow :: "bool \<Rightarrow> bool" where
  "payload_len_none_on_underflow le \<longleftrightarrow>
     (let a = test_attr le 2 (replicate 8 0)
      in Option.is_none (payload_len (page_lib le) a) \<and> Option.is_none (get_u32 (page_lib le) a))"

definition nla_iter_visits_all :: "bool \<Rightarrow> bool" where
  "nla_iter_visits_all le \<longleftrightarrow>
     (let L = page_lib le in
      ok_with (\<lambda>msg.
          let msg = snd (put_u8 L msg 1 42);
              msg = snd (put_u16 L msg 2 0x1234);
              msg = snd (put_u32 L msg 3 0xDEADBEEF);
              msg = snd (put_string L msg 4 ''hello'');
              (start, n) = attr_region msg
          in passes_with (\<lambda>attrs. map (nla_type L) attrs = [1, 2, 3, 4]) (nla_collect L (NlaIter_new start n)))
        (NlMsg_alloc_simple L 0x10 0x01))"

definition nest_produces_children :: "bool \<Rightarrow> bool" where
  "nest_produces_children le \<longleftrightarrow>
     (let L = page_lib le in
      found_after le
        (\<lambda>msg. case nest_start L msg 10 of
             (None, msg) \<Rightarrow> msg
           | (Some outer, msg) \<Rightarrow>
               (let msg = snd (put_u16 L msg 11 0xABCD);
                    msg = snd (put_string L msg 12 ''inner'')
                in nest_end L msg outer)) 10
        (\<lambda>outer. passes_with (\<lambda>inner_len.
             passes_with (\<lambda>attrs. map (nla_type L) attrs = [11, 12])
               (nla_collect L (NlaIter_new (drop NLA_HDRLEN outer) inner_len)))
           (payload_len L outer)))"

section \<open>The verdict\<close>

lemma library_tests: nlmsg_align_values nla_align_values constants_match_kernel_uapi
  by code_simp+

lemma page_lib_fields:
  "nl_le (page_lib le) = le" "nlmsg_append (page_lib le) = buffer_append 4096" "nla_put (page_lib le) = buffer_put le 4096"
  "nla_ok (page_lib le) = buffer_ok le"
  "nlmsg_alloc_simple (page_lib le) t f = Some \<lparr>nm_type = t, nm_flags = f, nm_len = 16, nm_buf = replicate 16 0\<rparr>"
  "nlmsg_reserve (page_lib le) msg n pad = (Some (nm_len msg), nl_extend msg (replicate (nlmsg_align n) 0))"
  by (simp_all add: page_lib_def buffer_lib_def Let_def)

lemmas page_simps = page_lib_fields NlMsg_alloc_simple_def msg_append_def msg_reserve_def buffer_append_def test_outcomes Let_def

lemma message_tests: "alloc_simple_works le" "header_preserves_type_and_flags le" "append_grows_message le"
    "reserve_returns_writable_ptr le"
  by (simp_all add: alloc_simple_works_def header_preserves_type_and_flags_def append_grows_message_def
      reserve_returns_writable_ptr_def page_simps align_defs)

lemma getter_tests: "get_u32_rejects_truncated_attr le" "get_string_rejects_invalid_utf8 le"
    "payload_len_none_on_underflow le"
proof -
  have len: "nla_len (page_lib le) (test_attr le n p) = unat n" for n p
    by (simp add: nla_len_def test_attr_def page_lib_fields subslice_def ne16.dec_enc)
  have pay: "subslice 4 k (test_attr le n p) = take k p" "test_attr le n p ! 4 = p ! 0" for k n p
    by (simp_all add: test_attr_def subslice_def nth_append)
  have "\<not> utf8_valid [0xFF, 0xFF]"
    by code_simp
  then show "get_u32_rejects_truncated_attr le" "get_string_rejects_invalid_utf8 le" "payload_len_none_on_underflow le"
    by (simp_all add: get_u32_rejects_truncated_attr_def get_string_rejects_invalid_utf8_def
        payload_len_none_on_underflow_def get_u32_def get_u8_def get_string_def payload_len_def len pay NLA_HDRLEN_def
        passes_with_def Let_def)
qed

text \<open>The empty message of the tests, what is put into it, and what walking it finds.\<close>

definition page_msg :: nl_msg where
  "page_msg = \<lparr>nm_type = 0x10, nm_flags = 0x01, nm_len = 16, nm_buf = replicate 16 0\<rparr>"

lemma page_msg_fields [simp]: "nl_wf page_msg" "nm_len page_msg = 16" "length (nm_buf page_msg) = 16"
  by (simp_all add: page_msg_def nl_wf_def)

lemma page_region: "attr_region (nl_extend page_msg bs) = (bs, length bs)"
  by (simp add: attr_region_def align_defs)

lemma page_put:
  assumes "length bs mod 4 = 0" and "length bs < 1000" and "length data < 1000"
  shows "attr_put (page_lib le) (nl_extend page_msg bs) t data = (0, nl_extend page_msg (bs @ nla_bytes le t data))"
  using page.put_attr [of "nl_extend page_msg bs" data le t] assms nl_wf_extend [of page_msg bs]
    align_props(2) [of "length data"]
  by (simp add: page_lib_fields)

lemma page_put_first: "length data < 1000 \<Longrightarrow> attr_put (page_lib le) page_msg t data = (0, nl_extend page_msg (nla_bytes le t data))"
  using page_put [of "[]"] by simp

lemma page_collect:
  assumes "\<forall>(t, d)\<in>set items. length d < 65532" and "length (items_bytes le items) < 2 ^ 31"
  shows "\<exists>attrs. nla_collect (page_lib le) (NlaIter_new (items_bytes le items @ rest) (length (items_bytes le items))) = Some attrs \<and>
    map (nla_type (page_lib le)) attrs = map (\<lambda>(t, d). ucast t) items"
proof -
  obtain attrs where attrs: "nla_collect (page_lib le) (NlaIter_new (items_bytes le items @ rest) (length (items_bytes le items))) = Some attrs"
    "list_all2 (\<lambda>a (t, d). \<exists>rest. a = nla_bytes le t d @ rest) attrs items"
    using page.collect_new [of items le rest] assms by (auto simp: page_lib_fields)
  have "map (nla_type (page_lib le)) attrs = map (\<lambda>(t, d). ucast t) items"
    using attrs(2) assms(1)
  proof (induction rule: list_all2_induct)
    case (Cons a as x xs)
    then show ?case
      using page.attr_header(3) [of "snd x" le "fst x"] by (auto simp: page_lib_fields split: prod.splits)
  qed simp
  with attrs(1) show ?thesis
    by blast
qed

lemma page_found:
  assumes "length d < 1000" and "ucast (and (ucast t' :: u16) 0x3FFF) = t"
  shows "find_attr (page_lib le) (nla_bytes le t' d) (length (nla_bytes le t' d)) t = Some (nla_bytes le t' d)"
proof -
  let ?L = "buffer_lib le 4096 (\<lambda>_. 0) (\<lambda>_. 0) (\<lambda>_. 0) 0" and ?n = "length (nla_bytes le t' d)"
  have le: "nl_le ?L = le"
    by (simp add: buffer_lib_def)
  have n: "?n < 2 ^ 31" "int (4 + length d) \<le> int ?n"
    using align_props(1,2) [of "length d"] assms(1) by (simp_all add: length_nla_bytes)
  have "sint (of_nat ?n :: 32 word) = int ?n"
    using NlaIter_new_small [OF n(1)] by (simp add: NlaIter_new_def)
  moreover have "nla_collect ?L \<lparr>it_ptr = nla_bytes le t' d, it_remaining = int ?n\<rparr> = Some [nla_bytes le t' d]"
    using buffered.next_attr [of d "int ?n" le 4096 "\<lambda>_. 0" "\<lambda>_. 0" "\<lambda>_. 0" 0 t' "[]"] assms(1) n(2)
    by (simp add: le nla_collect.simps nla_next_def)
  moreover have "nla_type ?L (nla_bytes le t' d) = ucast t'"
    using buffered.attr_header(3) [of d le 4096 "\<lambda>_. 0" "\<lambda>_. 0" "\<lambda>_. 0" 0 t' "[]"] assms(1) by (simp add: le)
  ultimately show ?thesis
    using assms(2) by (simp add: find_attr_def page_lib_def Let_def walk_find_def)
qed

lemma found_after_put:
  assumes "length d < 1000" and "ucast (and (ucast t' :: u16) 0x3FFF) = t" and "puts page_msg = nl_extend page_msg (nla_bytes le t' d)"
  shows "found_after le puts t P \<longleftrightarrow> P (nla_bytes le t' d)"
proof -
  have "NlMsg_alloc_simple (page_lib le) 0x10 0x01 = Inr page_msg"
    by (simp add: NlMsg_alloc_simple_def page_lib_fields page_msg_def)
  then show ?thesis
    by (simp add: found_after_def assms(3) page_region page_found [OF assms(1,2)] test_outcomes)
qed

lemma short_names: "bytes_of_str ''vlan'' = [0x76, 0x6C, 0x61, 0x6E]" "bytes_of_str ''hello'' = [0x68, 0x65, 0x6C, 0x6C, 0x6F]"
    "bytes_of_str ''inner'' = [0x69, 0x6E, 0x6E, 0x65, 0x72]"
  by code_simp+

lemma roundtrip_tests: "put_get_u16_roundtrip le" "put_get_u32_roundtrip le" "put_get_string_roundtrip le"
    "put_flag_roundtrip le"
proof -
  note put = page_put_first [where le = le, unfolded attr_put_def page_lib_fields]
  have plain_text: "utf8_valid (bytes_of_str ''vlan'')"
    by code_simp
  have reads: "get_u16 (page_lib le) (nla_bytes le t (ne16 le w)) = Some w"
      "get_u32 (page_lib le) (nla_bytes le t (ne32 le w')) = Some w'"
      "get_string (page_lib le) (nla_bytes le t (bytes_of_str ''vlan'' @ [0])) = Some ''vlan''" for t w w'
    using page.getters_read(1,2,4) [where s = "''vlan''" and rest = "[]" and le = le] plain_text
    by (simp_all add: page_lib_fields)
  show "put_get_u16_roundtrip le"
    unfolding put_get_u16_roundtrip_def
    by (subst found_after_put [where d = "ne16 le 0x1234" and t' = 1])
      (simp_all add: put_u16_def attr_put_def put page_lib_fields reads passes_with_def)
  show "put_get_u32_roundtrip le"
    unfolding put_get_u32_roundtrip_def
    by (subst found_after_put [where d = "ne32 le 0xDEADBEEF" and t' = 2])
      (simp_all add: put_u32_def attr_put_def put page_lib_fields reads passes_with_def)
  show "put_get_string_roundtrip le"
    unfolding put_get_string_roundtrip_def
    by (subst found_after_put [where d = "bytes_of_str ''vlan'' @ [0]" and t' = 3])
      (simp_all add: put_string_def attr_put_def put page_lib_fields reads passes_with_def)
  show "put_flag_roundtrip le"
    unfolding put_flag_roundtrip_def
    using page.attr_header(2) [of "[]" le 99 "[]"]
    by (subst found_after_put [where d = "[]" and t' = 99])
      (simp_all add: put_flag_def put page_lib_fields passes_with_def)
qed

lemma test_items_length:
  "length (items_bytes le [(1, [x]), (2, ne16 le a), (3, ne32 le b), (4, bytes_of_str ''hello'' @ [0])]) = 36"
  "length (items_bytes le [(11, ne16 le a), (12, bytes_of_str ''inner'' @ [0])]) = 20"
  by (simp_all add: items_bytes_def length_nla_bytes align_defs)

lemma iteration_tests: "nla_iter_visits_all le" "nest_produces_children le"
proof -
  note put = page_put [where le = le, unfolded attr_put_def page_lib_fields]
    page_put_first [where le = le, unfolded attr_put_def page_lib_fields]
  note puts = put_u8_def put_u16_def put_u32_def put_string_def attr_put_def page_lib_fields put length_nla_bytes align_defs
  let ?items = "[(1, [42]), (2, ne16 le 0x1234), (3, ne32 le 0xDEADBEEF), (4, bytes_of_str ''hello'' @ [0])]"
  have start: "NlMsg_alloc_simple (page_lib le) 0x10 0x01 = Inr page_msg"
    by (simp add: NlMsg_alloc_simple_def page_lib_fields page_msg_def)
  obtain attrs where attrs: "nla_collect (page_lib le) (NlaIter_new (items_bytes le ?items) (length (items_bytes le ?items))) = Some attrs"
    "map (nla_type (page_lib le)) attrs = [1, 2, 3, 4]"
    using page_collect [of ?items le "[]"] test_items_length(1) by auto
  have "snd (put_string (page_lib le) (snd (put_u32 (page_lib le) (snd (put_u16 (page_lib le)
      (snd (put_u8 (page_lib le) page_msg 1 42)) 2 0x1234)) 3 0xDEADBEEF)) 4 ''hello'') = nl_extend page_msg (items_bytes le ?items)"
    by (simp add: puts items_bytes_def)
  with attrs show "nla_iter_visits_all le"
    by (simp add: nla_iter_visits_all_def start page_region test_outcomes Let_def)
  let ?inner = "[(11, ne16 le 0xABCD), (12, bytes_of_str ''inner'' @ [0])]" and ?t = "or 10 NLA_F_NESTED"
  define body where "body = items_bytes le ?inner"
  have body: "length body = 20"
    unfolding body_def by (rule test_items_length(2))
  have opened: "nest_start (page_lib le) page_msg 10 = (Some 16, nl_extend page_msg (nla_bytes le ?t []))"
    using page.nest_start_room [of page_msg le 10] by (simp add: page_lib_fields)
  have filled: "snd (put_string (page_lib le) (snd (put_u16 (page_lib le) (nl_extend page_msg (nla_bytes le ?t [])) 11 0xABCD)) 12 ''inner'')
      = nl_extend page_msg (nla_bytes le ?t [] @ body)"
    by (simp add: puts items_bytes_def body_def)
  have closed: "nest_end (page_lib le) (nl_extend page_msg (nla_bytes le ?t [] @ body)) 16 = nl_extend page_msg (nla_bytes le ?t body)"
    using page.nest_end_closes [of page_msg body le ?t] body by (simp add: page_lib_fields)
  have outer: "payload_len (page_lib le) (nla_bytes le ?t body) = Some (length body)" "drop NLA_HDRLEN (nla_bytes le ?t body) = body"
    using page.attr_header(2) [of body le ?t "[]"] body by (simp_all add: page_lib_fields nla_bytes_def align_defs)
  obtain attrs' where attrs': "nla_collect (page_lib le) (NlaIter_new body (length body)) = Some attrs'"
    "map (nla_type (page_lib le)) attrs' = [11, 12]"
    using page_collect [of ?inner le "[]"] test_items_length(2) by (auto simp: body_def)
  have nested: "ucast (and (ucast ?t :: u16) 0x3FFF) = (10 :: u32)"
    by (simp add: NLA_F_NESTED_def)
  show "nest_produces_children le"
    unfolding nest_produces_children_def Let_def
    by (subst found_after_put [where d = body and t' = ?t])
      (simp_all add: body nested opened filled closed outer attrs' [unfolded body] passes_with_def)
qed

definition netlink_tests :: "bool \<Rightarrow> (string \<times> bool) list" where
  "netlink_tests le =
     [(''nlmsg_align_values'', nlmsg_align_values), (''nla_align_values'', nla_align_values),
      (''constants_match_kernel_uapi'', constants_match_kernel_uapi), (''alloc_simple_works'', alloc_simple_works le),
      (''header_preserves_type_and_flags'', header_preserves_type_and_flags le),
      (''append_grows_message'', append_grows_message le), (''reserve_returns_writable_ptr'', reserve_returns_writable_ptr le),
      (''put_get_u16_roundtrip'', put_get_u16_roundtrip le), (''put_get_u32_roundtrip'', put_get_u32_roundtrip le),
      (''put_get_string_roundtrip'', put_get_string_roundtrip le), (''put_flag_roundtrip'', put_flag_roundtrip le),
      (''get_u32_rejects_truncated_attr'', get_u32_rejects_truncated_attr le),
      (''get_string_rejects_invalid_utf8'', get_string_rejects_invalid_utf8 le),
      (''payload_len_none_on_underflow'', payload_len_none_on_underflow le),
      (''nla_iter_visits_all'', nla_iter_visits_all le), (''nest_produces_children'', nest_produces_children le)]"

lemma netlink_tests_verdict: "failing (netlink_tests le) = []"
  by (simp add: failing_def netlink_tests_def library_tests message_tests roundtrip_tests getter_tests iteration_tests)

end
