(* ===== verification/Spec2Isabelle.thy ===== *)
theory Spec2Isabelle
  imports Checksum Frame Pack Unpack Validate Firmware Board BoardSpec BoardFw AfPacket UciCfg
    UbusObj Worker Ipc Daemon FwExtract Netlink NetlinkProps Capture Selftest UbusTransport
    Interleaving Cli Logging NetlinkSocket VlanStack Service Display WireTrace
    MockBoard ProtoTests HostTests NetlinkTests
begin

text \<open>
  A model of \<open>rbctl-dsl\<close>, the host side of the control protocol of an EcoNet xDSL board on
  OpenWrt, and of \<open>fwextract\<close>, the tool that cuts the board's firmware out of a vendor image.
  The crates are under \<open>src/rbctl-feed/rbctl-dsl/crates/\<close> and \<open>src/fwextract/\<close>.

  The program.  The daemon reads the line configuration from UCI and the command line, checks
  it, opens a raw Ethernet socket on the management interface and tells the board to bring the
  line up.  A worker thread then polls the board once a second over a request and response
  protocol, publishes what it sees in a shared state and spawns notification scripts; the
  control loop serves a line-based control socket and the signals and queues commands for the
  worker; the ubus object and the control socket only read the shared state.

  Conventions.  A Rust call is a function on explicit state that returns a sum (the left
  injection is the error) inside \<open>outcome\<close>: \<open>Returns\<close>, \<open>Panics\<close> (the shipped profile
  aborts the process) or \<open>Diverges\<close>.  Bytes and machine integers are words of their width;
  strings are lists of their UTF-8 bytes; a struct is a record with one field per field; early
  returns, panicking slices and the \<open>?\<close> operator are branches.  What is not source code of the
  repository is an argument: the CRC engine, the UCI lookup, the transport or the kernel under
  the raw socket, the netlink calls, the clock, the file system, the block cipher, the hash and
  the big integers.

  \<^item> \<open>Prelude\<close>: outcomes, slices (\<open>subslice\<close>), writes into slices (\<open>overwrite\<close>) and the
    collection \<open>wire_simps\<close>.
  \<^item> \<open>Wire\<close>: big- and little-endian integers; the locale \<open>fixed_codec\<close> is the contract of a
    fixed-width field, interpreted on the four codecs.
  \<^item> \<open>Checksum\<close> (\<open>rbctl_proto/src/checksum.rs\<close>, \<open>examples/checksum.py\<close>): the covered region, setting
    and verifying the checksum, the two reference algorithms and their equality; a changed
    covered byte is detected.
  \<^item> \<open>Frame\<close> (\<open>frame.rs\<close>): layout, builder, parser, accessors, sequence counter; a built frame
    verifies and parses back.
  \<^item> \<open>Pack\<close>, \<open>Unpack\<close>, \<open>Validate\<close>, \<open>Firmware\<close>: the payload encoders and decoders with their
    inverses, the configuration rules with the exact set they accept, the image header and
    the image check.
  \<^item> \<open>Board\<close> (\<open>rbctl_dsl/src/board.rs\<close>): the transport interface, the receive loop \<open>drain\<close>, the
    attempts, the request and the opcodes.  \<open>drain\<close> has no bound in the source, so it is a
    partial function; \<open>request_protocol\<close> is its abstract specification (silent attempts, then
    a deciding attempt or a timeout).
  \<^item> \<open>BoardSpec\<close>: the locales \<open>board_op\<close> (what every opcode keeps), \<open>quiet_transport\<close> (when a
    request returns) with their interpretations, and the properties of a request: soundness of
    the accepted reply, the number of transmissions, termination on a quiet network and
    divergence on a busy one.
  \<^item> \<open>BoardFw\<close>: the upload of opcode 8 with its four stages.
  \<^item> \<open>AfPacket\<close> (\<open>af_packet/src/lib.rs\<close>): address parsing, the packet filter with an interpreter
    for it, the socket over the system calls, and the transport it implements; \<open>kernel_rx\<close>
    gives \<open>quiet_transport\<close> for it.
  \<^item> \<open>RustStr\<close>: the string functions of the standard library that are used, with the
    round-trip laws of numbers and lines.
  \<^item> \<open>UciCfg\<close> (\<open>uci_cfg.rs\<close>): option parsers, precedence, the built configuration and its
    invariant \<open>config_ok\<close>.
  \<^item> \<open>UbusObj\<close> (\<open>ubus_obj.rs\<close>, \<open>hotplug.rs\<close>): the shared state, the metrics reply as the calls of
    the blob builder, the notifications.
  \<^item> \<open>Worker\<close> (\<open>board_worker.rs\<close>): the worker's record, its commands, the poll and the loop.
    \<open>worker_step\<close> is its step relation; \<open>worker_inv\<close> holds in every state it reaches.
  \<^item> \<open>Ipc\<close> (\<open>ipc.rs\<close>): commands, the status report and its parser, one served connection, the
    clients, over streams.
  \<^item> \<open>Daemon\<close> (\<open>daemon.rs\<close>, \<open>main.rs\<close>): startup, the firmware request thread, the snapshot, the
    control loop, the shutdown and the command-line clients.
  \<^item> \<open>FwExtract\<close> (\<open>fwextract/src/main.rs\<close>): tag header, chunk walk, key recovery from the PSS
    salt, CBC decryption, command line and extraction.
  \<^item> \<open>Netlink\<close> (\<open>tinyln_rs/src/attr.rs\<close>, \<open>msg.rs\<close>, \<open>rtnl/\<close>): attributes, messages and the link,
    address and route requests over the C library, the record \<open>nl_lib\<close>.
  \<^item> \<open>NetlinkProps\<close>: the locale \<open>libnl\<close> with the documented behaviour of the C library, interpreted
    on a library with message buffers of any size; the attribute tree of a request and its bytes,
    reading them back, the walk over untrusted attributes.
  \<^item> \<open>Capture\<close> (\<open>pcap.rs\<close>, the sniffer of \<open>selftest.rs\<close>): capture files with a reader for the format,
    the hex dump, the sniffer as a fold over the answers of its socket.
  \<^item> \<open>Selftest\<close> (\<open>selftest.rs\<close>): the tests and the run over the record \<open>host\<close>; the locale
    \<open>kernel_links\<close> says what link requests do to the set of interfaces, interpreted on a kernel
    with a table of interfaces.
  \<^item> \<open>UbusTransport\<close> (\<open>transport.rs\<close>): sending and receiving frames over a non-blocking socket; the
    locale \<open>frame_codec\<close> is what it relies on of the codec.
  \<^item> \<open>Interleaving\<close> (the threads of \<open>daemon.rs\<close> and \<open>board_worker.rs\<close>): the step relations
    \<open>control_moves\<close>, \<open>request_moves\<close> and \<open>worker_moves\<close> of the threads around an upgrade, with
    invariants of every reachable state; the sequential handler of \<open>Worker\<close> is a run of the
    worker's steps.
  \<^item> \<open>Cli\<close> (\<open>main.rs\<close>): arguments, overrides and dispatch.  \<open>Logging\<close> (\<open>log_init.rs\<close>): the level
    taken from the environment and the records handed to the system log.

  \<^item> \<open>NetlinkSocket\<close> (\<open>tinyln_rs/src/socket.rs\<close>, \<open>cb.rs\<close>, \<open>genl.rs\<close>, \<open>unl.rs\<close>): the owning
    wrappers over the calls of the C library, and programs over them as a step relation in which a value is used
    while it is owned and dropped once; the locale \<open>nl_objects\<close> is the library's account of its
    objects, interpreted on a library with a ledger.
  \<^item> \<open>VlanStack\<close>: the VLAN interface of \<open>daemon.rs\<close> on the requests of \<open>Netlink\<close>; a refinement of
    \<open>Daemon\<close>'s definitions, and with a kernel that keeps the contract \<open>link_kernel\<close> (interpreted on a table of
    interfaces that reads the messages with the library's reader) the life of the interface.
  \<^item> \<open>Service\<close>: signal handlers, connecting to ubus and its object's methods, the control socket in the file
    system (locale \<open>socket_namespace\<close>).  \<open>Display\<close>: the texts of configuration errors and of a container header.
  \<^item> \<open>WireTrace\<close>: what the daemon says on the wire from its start to its end: a \<open>conversation\<close> is a list of
    exchanges (opcode, payload, copies) with consecutive sequence numbers; \<open>says\<close> gives the exchanges of an operation,
    \<open>talk\<close> those of the worker for its iterations, and \<open>quiet_run\<close> that it comes to its end.

  \<^item> \<open>MockBoard\<close> (\<open>tests\<close> in \<open>board.rs\<close>): the mock transport of the unit tests as one more instance of the transport
    interface; \<open>mock_request\<close> gives the outcome of every request to it, and from it the tests of \<open>board.rs\<close> are decided for
    every CRC engine: all hold but two, which take the code 5 for a line that is up.
  \<^item> \<open>ProtoTests\<close>, \<open>HostTests\<close>, \<open>NetlinkTests\<close>: the other unit tests of \<open>rbctl_proto\<close>, of \<open>rbctl_dsl\<close> with \<open>af_packet\<close>, and
    of \<open>tinyln_rs\<close>, each a boolean definition on the model under its name in the source.  The lemmas \<open>proto_tests_verdict\<close>,
    \<open>host_tests_verdict\<close>, \<open>netlink_tests_verdict\<close> and \<open>board_tests_verdict\<close> name those that fail.  What the authors of the
    program expect of concrete calls so checks that the definitions are the code's.

  Properties that span components: the conversation of the daemon over startup, worker,
  controller and frames; what the board laid out reaches the caller of
  \<open>get_line_obj\<close>; a started daemon hands over a worker in which the invariant holds, and every
  later step keeps it; the snapshot built from the shared state survives the control socket;
  the reply of an upgrade written by the daemon is read by the client as it was meant; the
  options of the command line decide the loaded configuration; the selftest deletes the
  interface a daemon with VLAN base 1 has made; the interface that a started daemon asks the kernel for over
  netlink is there, up, until the shutdown removes it.

  Loops and bounds.  Loops over finite data are total, with a measure (bytes left, unread
  input, missing mask bytes).  The receive loop and the streaming loop are partial functions;
  the theorems say when they return and when they do not.  The worker loop and the control loop
  run over the finite list of iterations they make before they see the exit flag.

  The sniffer, the sending and the receiving of ubus frames run over the finite list of answers
  their socket gives.

  Not modelled.  The sender address of a received frame, the callbacks that the C library dispatches, the
  registration of the loggers and log output, the usage text and the layout lines of the container tool, the
  pauses, and parsing the command line, which a third-party crate does.  Of the unit tests, one that names a field which
  does not exist and two that only ask whether a third-party encoder yields bytes.  In \<open>Worker\<close>
  and \<open>Daemon\<close> a worker step and a control step are atomic; \<open>Interleaving\<close> takes the steps around an upgrade apart.  A reload or a restart of the
  line, which neither reads nor writes the upgrade status, is one step there.
\<close>

end
